theory Spec2Isabelle
  imports Main "HOL-Library.AList"
begin

section \<open>Python values, errors and dictionaries\<close>

text \<open>
  The notebook \<^verbatim>\<open>cf_complient_wrf.ipynb\<close> is a sequence of cells working on
  netCDF4 datasets, numpy arrays and xarray objects. Every exception a cell can raise
  is a value of \<open>py_error\<close>; a cell that can raise returns \<open>py_error + result\<close>.
\<close>

datatype py_error =
    NameError | KeyError | AttributeError | IndexError | TypeError | ValueError
  | RuntimeError | MergeError | OSError

definition bind :: "py_error + 'x \<Rightarrow> ('x \<Rightarrow> py_error + 'y) \<Rightarrow> py_error + 'y" where
  "bind m f = (case m of Inl e \<Rightarrow> Inl e | Inr x \<Rightarrow> f x)"

text \<open>
  An attribute value: a number, a string, or any other Python object. An object is
  known to the model only through the text \<open>str()\<close> gives for it (the projection object
  of cell 13 prints as \<^verbatim>\<open>PolarStereographic(stand_lon=-45.0, ...)\<close>).
\<close>

datatype 'a attr_value = Num 'a | Str string | Obj string

text \<open>
  \<^verbatim>\<open>str(v)\<close>. The text of a number is the Python runtime's; it is the parameter
  \<open>show_num\<close>.
\<close>

fun py_str :: "('a \<Rightarrow> string) \<Rightarrow> 'a attr_value \<Rightarrow> string" where
  "py_str show_num (Num x) = show_num x"
| "py_str show_num (Str s) = s"
| "py_str show_num (Obj s) = s"

text \<open>
  A Python dict (and an \<^verbatim>\<open>OrderedDict\<close>) is an association list in insertion order:
  \<^verbatim>\<open>d[k]\<close> raises \<^verbatim>\<open>KeyError\<close> on a missing key, \<^verbatim>\<open>d[k] = v\<close> overwrites in
  place or appends, \<^verbatim>\<open>d.pop(k)\<close> raises \<^verbatim>\<open>KeyError\<close> on a missing key.
\<close>

type_synonym ('k, 'v) dict = "('k \<times> 'v) list"

definition dict_getitem :: "('k, 'v) dict \<Rightarrow> 'k \<Rightarrow> py_error + 'v" where
  "dict_getitem d k = (case map_of d k of None \<Rightarrow> Inl KeyError | Some v \<Rightarrow> Inr v)"

definition dict_setitem :: "('k, 'v) dict \<Rightarrow> 'k \<Rightarrow> 'v \<Rightarrow> ('k, 'v) dict" where
  "dict_setitem d k v = AList.update k v d"

definition dict_pop :: "('k, 'v) dict \<Rightarrow> 'k \<Rightarrow> py_error + ('v \<times> ('k, 'v) dict)" where
  "dict_pop d k =
     (case map_of d k of None \<Rightarrow> Inl KeyError | Some v \<Rightarrow> Inr (v, AList.delete k d))"

section \<open>n-dimensional arrays (numpy)\<close>

text \<open>
  An array is its shape and its elements in row-major order; an array with a zero
  extent keeps its other extents. The elements are of an arbitrary type \<open>'a\<close>: the
  arithmetic and the conversions of numpy and netCDF4 are not computed here but taken
  as the parameters collected in the record \<open>numpy\<close>.
\<close>

record 'a ndarray =
  arr_shape :: "nat list"
  arr_flat :: "'a list"

definition wf_array :: "'a ndarray \<Rightarrow> bool" where
  "wf_array a = (length (arr_flat a) = prod_list (arr_shape a))"

record 'a numpy =
  zero_elem :: 'a                        \<comment> \<open>the element of \<^verbatim>\<open>np.zeros\<close>\<close>
  arange_elem :: "nat \<Rightarrow> 'a"             \<comment> \<open>element \<open>i\<close> of \<^verbatim>\<open>np.arange(n, dtype='float32')\<close>\<close>
  np_multiply :: "'a \<Rightarrow> 'a \<Rightarrow> 'a"               \<comment> \<open>\<^verbatim>\<open>*\<close> on array elements\<close>
  np_add :: "'a \<Rightarrow> 'a \<Rightarrow> 'a"               \<comment> \<open>\<^verbatim>\<open>+\<close> on array elements\<close>
  as_float64 :: "'a \<Rightarrow> 'a"               \<comment> \<open>a value stored into a float64 array\<close>
  as_datatype :: "string \<Rightarrow> 'a \<Rightarrow> 'a"    \<comment> \<open>a value stored into a variable of a datatype\<close>
  fill_value :: "string \<Rightarrow> 'a"           \<comment> \<open>what a never written element reads as\<close>

definition map_array :: "('a \<Rightarrow> 'a) \<Rightarrow> 'a ndarray \<Rightarrow> 'a ndarray" where
  "map_array f a = a\<lparr>arr_flat := map f (arr_flat a)\<rparr>"

definition np_full :: "nat list \<Rightarrow> 'a \<Rightarrow> 'a ndarray" where
  "np_full shp x = \<lparr>arr_shape = shp, arr_flat = replicate (prod_list shp) x\<rparr>"

text \<open>\<^verbatim>\<open>np.zeros(shape)\<close>\<close>

definition np_zeros :: "'a numpy \<Rightarrow> nat list \<Rightarrow> 'a ndarray" where
  "np_zeros lib shp = np_full shp (zero_elem lib)"

text \<open>\<^verbatim>\<open>a[i]\<close> on the first axis: the \<open>i\<close>-th block of the row-major elements.\<close>

definition index_first :: "'a ndarray \<Rightarrow> nat \<Rightarrow> py_error + 'a ndarray" where
  "index_first a i =
     (case arr_shape a of
        [] \<Rightarrow> Inl IndexError
      | n # rest \<Rightarrow>
          if i < n
          then Inr \<lparr>arr_shape = rest,
                    arr_flat = take (prod_list rest) (drop (i * prod_list rest) (arr_flat a))\<rparr>
          else Inl IndexError)"

text \<open>\<^verbatim>\<open>a[i,:,:]\<close>: three indices need three axes.\<close>

definition getitem_i_all_all :: "'a ndarray \<Rightarrow> nat \<Rightarrow> py_error + 'a ndarray" where
  "getitem_i_all_all a i = (if length (arr_shape a) < 3 then Inl IndexError else index_first a i)"

text \<open>\<^verbatim>\<open>a[0,0,0]\<close>\<close>

definition getitem_000 :: "'a ndarray \<Rightarrow> py_error + 'a ndarray" where
  "getitem_000 a =
     (if length (arr_shape a) < 3 then Inl IndexError
      else bind (index_first a 0) (\<lambda>b. bind (index_first b 0) (\<lambda>c. index_first c 0)))"

text \<open>
  Broadcasting. The shapes are aligned at their last axes; an axis of the value must
  have the extent of the target or extent 1, and an axis of extent 1 is repeated.
\<close>

definition chunks :: "nat \<Rightarrow> nat \<Rightarrow> 'a list \<Rightarrow> 'a list list" where
  "chunks k m xs = map (\<lambda>i. take k (drop (i * k) xs)) [0..<m]"

fun bcast_flat :: "nat list \<Rightarrow> nat list \<Rightarrow> 'a list \<Rightarrow> 'a list" where
  "bcast_flat (n # ns) (m # ms) xs =
     (if m = n then concat (map (bcast_flat ns ms) (chunks (prod_list ms) m xs))
      else concat (replicate n (bcast_flat ns ms xs)))"
| "bcast_flat _ _ xs = xs"

definition pad_shape :: "nat list \<Rightarrow> nat list \<Rightarrow> nat list" where
  "pad_shape target shp = replicate (length target - length shp) 1 @ shp"

definition broadcastable :: "nat list \<Rightarrow> nat list \<Rightarrow> bool" where
  "broadcastable target shp =
     (length shp \<le> length target \<and>
      list_all2 (\<lambda>n m. m = n \<or> m = 1) target (pad_shape target shp))"

definition np_broadcast_to :: "nat list \<Rightarrow> 'a ndarray \<Rightarrow> py_error + 'a ndarray" where
  "np_broadcast_to target a =
     (if broadcastable target (arr_shape a)
      then Inr \<lparr>arr_shape = target,
                arr_flat = bcast_flat target (pad_shape target (arr_shape a)) (arr_flat a)\<rparr>
      else Inl ValueError)"

text \<open>
  \<^verbatim>\<open>a[:,:,:] = value\<close> on a float64 array \<open>a\<close>: the value is broadcast to the shape of
  \<open>a\<close> and its elements are converted to float64.
\<close>

definition setitem_all3 :: "'a numpy \<Rightarrow> 'a ndarray \<Rightarrow> 'a ndarray \<Rightarrow> py_error + 'a ndarray" where
  "setitem_all3 lib a val =
     (if length (arr_shape a) < 3 then Inl IndexError
      else bind (np_broadcast_to (arr_shape a) val) (\<lambda>b. Inr (map_array (as_float64 lib) b)))"

section \<open>netCDF4 datasets\<close>

text \<open>
  A dataset as the netCDF4 module presents it: global attributes (\<^verbatim>\<open>ds.__dict__\<close>),
  dimensions and variables, each a dict in file order. The data of a variable is the
  array \<^verbatim>\<open>v[:]\<close> gives; variables with packing attributes, which netCDF4 would scale
  or mask on the way, are outside the model (WRF output has none).
\<close>

record nc_dimension =
  dim_size :: nat             \<comment> \<open>\<^verbatim>\<open>len(dimension)\<close>\<close>
  dim_unlimited :: bool       \<comment> \<open>\<^verbatim>\<open>dimension.isunlimited()\<close>\<close>

record 'a nc_variable =
  v_datatype :: string
  v_dimensions :: "string list"
  v_attrs :: "(string, 'a attr_value) dict"
  v_data :: "'a ndarray option"    \<comment> \<open>\<open>None\<close>: nothing written yet\<close>

record 'a nc_dataset =
  nc_attrs :: "(string, 'a attr_value) dict"
  nc_dimensions :: "(string, nc_dimension) dict"
  nc_variables :: "(string, 'a nc_variable) dict"
  nc_isopen :: bool

text \<open>\<^verbatim>\<open>Dataset(path)\<close>: the files on disk are the map \<open>fs\<close>.\<close>

definition Dataset_open :: "(string \<Rightarrow> 'a nc_dataset option) \<Rightarrow> string \<Rightarrow> py_error + 'a nc_dataset" where
  "Dataset_open fs path = (case fs path of None \<Rightarrow> Inl OSError | Some d \<Rightarrow> Inr (d\<lparr>nc_isopen := True\<rparr>))"

text \<open>\<^verbatim>\<open>Dataset("dst_tmp.nc", "w", format="NETCDF4", diskless=True)\<close>: a new, empty dataset
  held in memory.\<close>

definition Dataset_create :: "'a nc_dataset" where
  "Dataset_create = \<lparr>nc_attrs = [], nc_dimensions = [], nc_variables = [], nc_isopen = True\<rparr>"

text \<open>\<^verbatim>\<open>ds.close()\<close>: closing a dataset that is closed already raises.\<close>

definition nc_close :: "'a nc_dataset \<Rightarrow> py_error + 'a nc_dataset" where
  "nc_close d = (if nc_isopen d then Inr (d\<lparr>nc_isopen := False\<rparr>) else Inl RuntimeError)"

text \<open>\<^verbatim>\<open>obj.setncatts(d)\<close> sets every item of \<open>d\<close> as an attribute, in order.\<close>

definition setncatts :: "(string, 'v) dict \<Rightarrow> (string, 'v) dict \<Rightarrow> (string, 'v) dict" where
  "setncatts attrs d = foldl (\<lambda>a (k, v). dict_setitem a k v) attrs d"

text \<open>
  \<^verbatim>\<open>ds.createDimension(name, size)\<close>: a name in use raises; size \<^verbatim>\<open>None\<close> (and size 0)
  makes the dimension unlimited, of current length 0.
\<close>

definition new_dimension :: "nat option \<Rightarrow> nc_dimension" where
  "new_dimension sz =
     (case sz of
        None \<Rightarrow> \<lparr>dim_size = 0, dim_unlimited = True\<rparr>
      | Some n \<Rightarrow> \<lparr>dim_size = n, dim_unlimited = (n = 0)\<rparr>)"

definition createDimension :: "'a nc_dataset \<Rightarrow> string \<Rightarrow> nat option \<Rightarrow> py_error + 'a nc_dataset" where
  "createDimension ds name sz =
     (if map_of (nc_dimensions ds) name \<noteq> None then Inl RuntimeError
      else Inr (ds\<lparr>nc_dimensions := nc_dimensions ds @ [(name, new_dimension sz)]\<rparr>))"

text \<open>
  \<^verbatim>\<open>ds.createVariable(name, datatype, dimensions)\<close>: a name in use raises, a dimension
  the dataset does not have raises; the new variable has no attributes and no data.
\<close>

definition createVariable :: "'a nc_dataset \<Rightarrow> string \<Rightarrow> string \<Rightarrow> string list \<Rightarrow> py_error + 'a nc_dataset" where
  "createVariable ds name dt dims =
     (if map_of (nc_variables ds) name \<noteq> None then Inl RuntimeError
      else if \<exists>d \<in> set dims. map_of (nc_dimensions ds) d = None then Inl ValueError
      else Inr (ds\<lparr>nc_variables := nc_variables ds @
             [(name, \<lparr>v_datatype = dt, v_dimensions = dims, v_attrs = [], v_data = None\<rparr>)]\<rparr>))"

text \<open>\<^verbatim>\<open>v.shape\<close>: the current lengths of the variable's dimensions.\<close>

definition nc_shape :: "'a nc_dataset \<Rightarrow> 'a nc_variable \<Rightarrow> nat list" where
  "nc_shape ds v =
     map (\<lambda>d. case map_of (nc_dimensions ds) d of None \<Rightarrow> 0 | Some x \<Rightarrow> dim_size x) (v_dimensions v)"

text \<open>\<^verbatim>\<open>v[:]\<close> read: the data written, or fill values where nothing was written.\<close>

definition nc_read :: "'a numpy \<Rightarrow> 'a nc_dataset \<Rightarrow> 'a nc_variable \<Rightarrow> 'a ndarray" where
  "nc_read lib ds v =
     (case v_data v of
        Some a \<Rightarrow> a
      | None \<Rightarrow> np_full (nc_shape ds v) (fill_value lib (v_datatype v)))"

text \<open>
  \<^verbatim>\<open>ds.variables[name][:] = arr\<close>. The array must have one axis per dimension of the
  variable, with the length of the dimension where that is fixed; an unlimited dimension
  grows to the extent written. The elements are converted to the variable's datatype.
  (netCDF4 would also broadcast an array of another shape, and accept fewer records than
  an unlimited dimension already has: both are errors here.)
\<close>

definition shape_fits :: "(string, nc_dimension) dict \<Rightarrow> string list \<Rightarrow> nat list \<Rightarrow> bool" where
  "shape_fits dims names shp =
     list_all2 (\<lambda>d n. case map_of dims d of
                         None \<Rightarrow> False
                       | Some x \<Rightarrow> if dim_unlimited x then dim_size x \<le> n else dim_size x = n)
       names shp"

fun grow_dims :: "(string, nc_dimension) dict \<Rightarrow> string list \<Rightarrow> nat list \<Rightarrow> (string, nc_dimension) dict" where
  "grow_dims dims (d # ds) (n # ns) =
     grow_dims (case map_of dims d of
                  None \<Rightarrow> dims
                | Some x \<Rightarrow> if dim_unlimited x \<and> dim_size x < n
                            then dict_setitem dims d (x\<lparr>dim_size := n\<rparr>) else dims) ds ns"
| "grow_dims dims _ _ = dims"

definition nc_setitem_all :: "'a numpy \<Rightarrow> 'a nc_dataset \<Rightarrow> string \<Rightarrow> 'a ndarray \<Rightarrow> py_error + 'a nc_dataset" where
  "nc_setitem_all lib ds name arr =
     bind (dict_getitem (nc_variables ds) name) (\<lambda>v.
       if shape_fits (nc_dimensions ds) (v_dimensions v) (arr_shape arr)
       then Inr (ds\<lparr>nc_dimensions := grow_dims (nc_dimensions ds) (v_dimensions v) (arr_shape arr),
                    nc_variables := dict_setitem (nc_variables ds) name
                       (v\<lparr>v_data := Some (map_array (as_datatype lib (v_datatype v)) arr)\<rparr>)\<rparr>)
       else Inl ValueError)"

text \<open>\<^verbatim>\<open>ds[name].setncatts(d)\<close>\<close>

definition var_setncatts :: "'a nc_dataset \<Rightarrow> string \<Rightarrow> (string, 'a attr_value) dict \<Rightarrow> py_error + 'a nc_dataset" where
  "var_setncatts ds name d =
     bind (dict_getitem (nc_variables ds) name) (\<lambda>v.
       Inr (ds\<lparr>nc_variables := dict_setitem (nc_variables ds) name
                  (v\<lparr>v_attrs := setncatts (v_attrs v) d\<rparr>)\<rparr>))"

text \<open>\<^verbatim>\<open>ds.NAME\<close>: a global attribute; a missing one raises \<^verbatim>\<open>AttributeError\<close>.\<close>

definition nc_getattr :: "'a nc_dataset \<Rightarrow> string \<Rightarrow> py_error + 'a attr_value" where
  "nc_getattr ds name = (case map_of (nc_attrs ds) name of None \<Rightarrow> Inl AttributeError | Some v \<Rightarrow> Inr v)"

section \<open>The notebook, cell by cell\<close>

definition root_dir :: string where
  "root_dir = ''/data/fiss_aic/WRF/runA_2010''"

definition my_vars :: "string list" where
  "my_vars = [''SPDUV10MEAN'', ''V10MEAN'', ''U10MEAN'']"

subsection \<open>Cell 4: source, destination, global attributes and dimensions\<close>

text \<open>
  \<^verbatim>\<open>
  try:
      print('>> closing dst << \n')
      dst.close()
  except NameError:
      pass
  \<close>
  The name \<^verbatim>\<open>dst\<close> is bound to a dataset or not bound at all (\<open>None\<close>).
  \<open>close_dst\<close> is the body of the \<^verbatim>\<open>try\<close>, \<open>close_guard\<close> the whole statement.
  What \<^verbatim>\<open>print\<close> writes to the output of the cell is left out.
\<close>

definition close_dst :: "'a nc_dataset option \<Rightarrow> py_error + 'a nc_dataset option" where
  "close_dst dst =
     (case dst of None \<Rightarrow> Inl NameError | Some d \<Rightarrow> bind (nc_close d) (\<lambda>d'. Inr (Some d')))"

definition close_guard :: "'a nc_dataset option \<Rightarrow> py_error + 'a nc_dataset option" where
  "close_guard dst =
     (case close_dst dst of
        Inl e \<Rightarrow> if e = NameError then Inr dst else Inl e
      | Inr dst' \<Rightarrow> Inr dst')"

text \<open>
  \<^verbatim>\<open>
  for name, dimension in src.dimensions.items():
      dst.createDimension(name,
              len(dimension) if not dimension.isunlimited() else None)
  \<close>
\<close>

definition dim_arg :: "nc_dimension \<Rightarrow> nat option" where
  "dim_arg dimension = (if \<not> dim_unlimited dimension then Some (dim_size dimension) else None)"

fun copy_dimensions :: "(string \<times> nc_dimension) list \<Rightarrow> 'a nc_dataset \<Rightarrow> py_error + 'a nc_dataset" where
  "copy_dimensions [] dst = Inr dst"
| "copy_dimensions ((name, dimension) # rest) dst =
     bind (createDimension dst name (dim_arg dimension)) (copy_dimensions rest)"

definition src_path :: string where
  "src_path = root_dir @ ''/wrfxtrm_d02''"

text \<open>The cell gives the new bindings of \<^verbatim>\<open>src\<close> and \<^verbatim>\<open>dst\<close>.\<close>

definition cell4 :: "(string \<Rightarrow> 'a nc_dataset option) \<Rightarrow> 'a nc_dataset option \<Rightarrow>
    py_error + ('a nc_dataset \<times> 'a nc_dataset)" where
  "cell4 fs old_dst =
     bind (Dataset_open fs src_path) (\<lambda>src.
     bind (close_guard old_dst) (\<lambda>_.
     let dst = Dataset_create;
         dst = dst\<lparr>nc_attrs := setncatts (nc_attrs dst) (nc_attrs src)\<rparr>
     in bind (copy_dimensions (nc_dimensions src) dst) (\<lambda>dst. Inr (src, dst))))"

subsection \<open>Cells 5 and 9: copying variables\<close>

text \<open>
  \<^verbatim>\<open>
  variable = src.variables[name]
  dst.createVariable(name, variable.datatype, variable.dimensions)
  dst.variables[name][:] = src.variables[name][:]
  dst[name].setncatts(src[name].__dict__)
  \<close>
  Cell 5 runs these lines with \<^verbatim>\<open>name = 'Times'\<close>, cell 9 for every name in
  \<^verbatim>\<open>list(my_vars)\<close>.
\<close>

definition copy_var :: "'a numpy \<Rightarrow> 'a nc_dataset \<Rightarrow> 'a nc_dataset \<Rightarrow> string \<Rightarrow> py_error + 'a nc_dataset" where
  "copy_var lib src dst name =
     bind (dict_getitem (nc_variables src) name) (\<lambda>variable.
     bind (createVariable dst name (v_datatype variable) (v_dimensions variable)) (\<lambda>dst.
     bind (nc_setitem_all lib dst name (nc_read lib src variable)) (\<lambda>dst.
     var_setncatts dst name (v_attrs variable))))"

definition cell5 :: "'a numpy \<Rightarrow> 'a nc_dataset \<Rightarrow> 'a nc_dataset \<Rightarrow> py_error + 'a nc_dataset" where
  "cell5 lib src dst = copy_var lib src dst ''Times''"

fun copy_vars :: "'a numpy \<Rightarrow> 'a nc_dataset \<Rightarrow> string list \<Rightarrow> 'a nc_dataset \<Rightarrow> py_error + 'a nc_dataset" where
  "copy_vars lib src [] dst = Inr dst"
| "copy_vars lib src (name # rest) dst = bind (copy_var lib src dst name) (copy_vars lib src rest)"

definition cell9 :: "'a numpy \<Rightarrow> 'a nc_dataset \<Rightarrow> 'a nc_dataset \<Rightarrow> py_error + 'a nc_dataset" where
  "cell9 lib src dst = copy_vars lib src my_vars dst"

subsection \<open>Cell 6: latitude and longitude from the coordinate file\<close>

text \<open>
  \<^verbatim>\<open>
  for name in coords:
      variable = coord_file.variables[name]
      dst.createVariable(name, variable.datatype, variable.dimensions)
      correct_shape_arr = np.zeros( dst.variables[name].shape )
      correct_shape_arr[:,:,:] = coord_file.variables[name][0,:,:]
      dst.variables[name][:] = correct_shape_arr
      dst[name].setncatts(coord_file[name].__dict__)
  \<close>
\<close>

definition coord_path :: string where
  "coord_path = root_dir @ ''/wrfout_d02_2010-03-18_00:00:00''"

definition coords :: "string list" where
  "coords = [''XLAT'', ''XLONG'']"

definition add_coord :: "'a numpy \<Rightarrow> 'a nc_dataset \<Rightarrow> 'a nc_dataset \<Rightarrow> string \<Rightarrow> py_error + 'a nc_dataset" where
  "add_coord lib coord_file dst name =
     bind (dict_getitem (nc_variables coord_file) name) (\<lambda>variable.
     bind (createVariable dst name (v_datatype variable) (v_dimensions variable)) (\<lambda>dst.
     bind (dict_getitem (nc_variables dst) name) (\<lambda>dv.
     let correct_shape_arr = np_zeros lib (nc_shape dst dv) in
     bind (getitem_i_all_all (nc_read lib coord_file variable) 0) (\<lambda>slice0.
     bind (setitem_all3 lib correct_shape_arr slice0) (\<lambda>correct_shape_arr.
     bind (nc_setitem_all lib dst name correct_shape_arr) (\<lambda>dst.
     var_setncatts dst name (v_attrs variable)))))))"

fun add_coords :: "'a numpy \<Rightarrow> 'a nc_dataset \<Rightarrow> string list \<Rightarrow> 'a nc_dataset \<Rightarrow> py_error + 'a nc_dataset" where
  "add_coords lib coord_file [] dst = Inr dst"
| "add_coords lib coord_file (name # rest) dst =
     bind (add_coord lib coord_file dst name) (add_coords lib coord_file rest)"

definition cell6 :: "'a numpy \<Rightarrow> (string \<Rightarrow> 'a nc_dataset option) \<Rightarrow> 'a nc_dataset \<Rightarrow>
    py_error + ('a nc_dataset \<times> 'a nc_dataset)" where
  "cell6 lib fs dst =
     bind (Dataset_open fs coord_path) (\<lambda>coord_file.
     bind (add_coords lib coord_file coords dst) (\<lambda>dst. Inr (coord_file, dst)))"

subsection \<open>Cell 7: grid sizes and projection parameters\<close>

text \<open>
  \<^verbatim>\<open>
  nx = dst.dimensions['west_east'].size
  ny = dst.dimensions['south_north'].size
  dt, dx, dy = dst.DT, dst.DX, dst.DY
  cen_lat, cen_lon = dst.CEN_LAT, dst.CEN_LON
  truelat1, truelat2, STAND_LON = dst.TRUELAT1, dst.TRUELAT2, dst.STAND_LON
  pole_lat, pole_lon = dst.POLE_LAT, dst.POLE_LON
  \<close>
\<close>

record 'a wrf_info =
  nx :: nat
  ny :: nat
  dt :: "'a attr_value"
  dx :: "'a attr_value"
  dy :: "'a attr_value"
  cen_lat :: "'a attr_value"
  cen_lon :: "'a attr_value"
  truelat1 :: "'a attr_value"
  truelat2 :: "'a attr_value"
  STAND_LON :: "'a attr_value"
  pole_lat :: "'a attr_value"
  pole_lon :: "'a attr_value"

definition cell7 :: "'a nc_dataset \<Rightarrow> py_error + 'a wrf_info" where
  "cell7 dst =
     bind (dict_getitem (nc_dimensions dst) ''west_east'') (\<lambda>we.
     bind (dict_getitem (nc_dimensions dst) ''south_north'') (\<lambda>sn.
     bind (nc_getattr dst ''DT'') (\<lambda>v_dt.
     bind (nc_getattr dst ''DX'') (\<lambda>v_dx.
     bind (nc_getattr dst ''DY'') (\<lambda>v_dy.
     bind (nc_getattr dst ''CEN_LAT'') (\<lambda>v_cen_lat.
     bind (nc_getattr dst ''CEN_LON'') (\<lambda>v_cen_lon.
     bind (nc_getattr dst ''TRUELAT1'') (\<lambda>v_truelat1.
     bind (nc_getattr dst ''TRUELAT2'') (\<lambda>v_truelat2.
     bind (nc_getattr dst ''STAND_LON'') (\<lambda>v_stand_lon.
     bind (nc_getattr dst ''POLE_LAT'') (\<lambda>v_pole_lat.
     bind (nc_getattr dst ''POLE_LON'') (\<lambda>v_pole_lon.
     Inr \<lparr>nx = dim_size we, ny = dim_size sn, dt = v_dt, dx = v_dx, dy = v_dy,
          cen_lat = v_cen_lat, cen_lon = v_cen_lon, truelat1 = v_truelat1,
          truelat2 = v_truelat2, STAND_LON = v_stand_lon, pole_lat = v_pole_lat,
          pole_lon = v_pole_lon\<rparr>))))))))))))"

subsection \<open>Cell 8: the projected axes\<close>

text \<open>
  \<^verbatim>\<open>
  x0_y0 = wrf.get_cartopy(wrfin=dst).transform_point( dst.variables['XLONG'][0,0,0],
                                                      dst.variables['XLAT'][0,0,0],
                                                      crs.PlateCarree())
  west_east_points   = np.arange(nx, dtype='float32') * dy + x0_y0[0]
  south_north_points = np.arange(ny, dtype='float32') * dy + x0_y0[1]
  \<close>
  The projection of the corner point is the work of wrf-python and cartopy: the two
  calls are the parameters \<open>get_cartopy\<close> and \<open>transform_point\<close>; the projection object
  between them is known by its printed form. The receiver
  \<^verbatim>\<open>wrf.get_cartopy(wrfin=dst)\<close> is evaluated before the arguments. The spacing must
  be a number for the arithmetic.
\<close>

record 'a wrf_python =
  get_cartopy :: "'a nc_dataset \<Rightarrow> py_error + string"
  transform_point :: "string \<Rightarrow> 'a ndarray \<Rightarrow> 'a ndarray \<Rightarrow> py_error + 'a \<times> 'a"

definition axis_points :: "'a numpy \<Rightarrow> nat \<Rightarrow> 'a attr_value \<Rightarrow> 'a \<Rightarrow> py_error + 'a ndarray" where
  "axis_points lib n spacing origin =
     (case spacing of
        Num d \<Rightarrow> Inr \<lparr>arr_shape = [n],
                     arr_flat = map (\<lambda>i. np_add lib (np_multiply lib (arange_elem lib i) d) origin) [0..<n]\<rparr>
      | _ \<Rightarrow> Inl TypeError)"

definition west_east_points :: "'a numpy \<Rightarrow> 'a wrf_info \<Rightarrow> 'a \<times> 'a \<Rightarrow> py_error + 'a ndarray" where
  "west_east_points lib info x0_y0 = axis_points lib (nx info) (dy info) (fst x0_y0)"

definition south_north_points :: "'a numpy \<Rightarrow> 'a wrf_info \<Rightarrow> 'a \<times> 'a \<Rightarrow> py_error + 'a ndarray" where
  "south_north_points lib info x0_y0 = axis_points lib (ny info) (dy info) (snd x0_y0)"

definition corner_point :: "'a numpy \<Rightarrow> 'a wrf_python \<Rightarrow> 'a nc_dataset \<Rightarrow> py_error + 'a \<times> 'a" where
  "corner_point lib wrf dst =
     bind (get_cartopy wrf dst) (\<lambda>proj.
     bind (dict_getitem (nc_variables dst) ''XLONG'') (\<lambda>xlong.
     bind (getitem_000 (nc_read lib dst xlong)) (\<lambda>lon.
     bind (dict_getitem (nc_variables dst) ''XLAT'') (\<lambda>xlat.
     bind (getitem_000 (nc_read lib dst xlat)) (\<lambda>lat.
     transform_point wrf proj lon lat)))))"

text \<open>
  \<^verbatim>\<open>
  dst.createVariable('south_north', south_north_points.dtype, ('south_north') )
  dst.variables['south_north'][:] = south_north_points
  dst['south_north'].setncatts( {'units':'m', 'axis':'y'} )
  \<close>
  and the same for \<^verbatim>\<open>west_east\<close> with axis \<^verbatim>\<open>x\<close>.
\<close>

definition add_axis :: "'a numpy \<Rightarrow> 'a nc_dataset \<Rightarrow> string \<Rightarrow> 'a ndarray \<Rightarrow> string \<Rightarrow> py_error + 'a nc_dataset" where
  "add_axis lib dst name points axis =
     bind (createVariable dst name ''float32'' [name]) (\<lambda>dst.
     bind (nc_setitem_all lib dst name points) (\<lambda>dst.
     var_setncatts dst name [(''units'', Str ''m''), (''axis'', Str axis)]))"

definition cell8 :: "'a numpy \<Rightarrow> 'a wrf_python \<Rightarrow>
    'a wrf_info \<Rightarrow> 'a nc_dataset \<Rightarrow> py_error + 'a nc_dataset" where
  "cell8 lib wrf info dst =
     bind (corner_point lib wrf dst) (\<lambda>x0_y0.
     bind (west_east_points lib info x0_y0) (\<lambda>we.
     bind (south_north_points lib info x0_y0) (\<lambda>sn.
     bind (add_axis lib dst ''south_north'' sn ''y'') (\<lambda>dst.
     add_axis lib dst ''west_east'' we ''x''))))"

subsection \<open>Cells 4 to 9 in sequence: the copy stage\<close>

definition copy_stage :: "'a numpy \<Rightarrow> 'a wrf_python \<Rightarrow>
    (string \<Rightarrow> 'a nc_dataset option) \<Rightarrow> 'a nc_dataset option \<Rightarrow> py_error + 'a nc_dataset" where
  "copy_stage lib wrf fs old_dst =
     bind (cell4 fs old_dst) (\<lambda>(src, dst).
     bind (cell5 lib src dst) (\<lambda>dst.
     bind (cell6 lib fs dst) (\<lambda>(coord_file, dst).
     bind (cell7 dst) (\<lambda>info.
     bind (cell8 lib wrf info dst) (\<lambda>dst.
     cell9 lib src dst)))))"

section \<open>The xarray side: variables, DataArrays and Datasets\<close>

record 'a xr_variable =
  xdims :: "string list"
  xdata :: "'a ndarray"
  xattrs :: "(string, 'a attr_value) dict"

text \<open>
  A Dataset holds all its variables by name, and the names of those that are
  coordinates; the data variables are the others.
\<close>

record 'a xr_dataset =
  xr_variables :: "(string, 'a xr_variable) dict"
  xr_coord_names :: "string list"

definition data_vars :: "'a xr_dataset \<Rightarrow> string list" where
  "data_vars ds = filter (\<lambda>n. n \<notin> set (xr_coord_names ds)) (map fst (xr_variables ds))"

subsection \<open>Cell 14: the attribute fix before writing\<close>

text \<open>
  \<^verbatim>\<open>
  for my_var in my_vars:
      ds[my_var].attrs['projection'] = str(ds[my_var].attrs['projection'])
      ds[my_var].attrs.pop('coordinates')
  \<close>
  \<^verbatim>\<open>ds[my_var]\<close> wraps the Dataset's own variable, so the two statements change the
  attributes held in \<open>ds\<close>. The right-hand side is evaluated first.
\<close>

definition fix_var :: "('a \<Rightarrow> string) \<Rightarrow> 'a xr_dataset \<Rightarrow> string \<Rightarrow> py_error + 'a xr_dataset" where
  "fix_var show_num ds my_var =
     bind (dict_getitem (xr_variables ds) my_var) (\<lambda>v.
     bind (dict_getitem (xattrs v) ''projection'') (\<lambda>p.
     let a1 = dict_setitem (xattrs v) ''projection'' (Str (py_str show_num p)) in
     bind (dict_pop a1 ''coordinates'') (\<lambda>(_, a2).
     Inr (ds\<lparr>xr_variables := dict_setitem (xr_variables ds) my_var (v\<lparr>xattrs := a2\<rparr>)\<rparr>))))"

fun fix_attrs :: "('a \<Rightarrow> string) \<Rightarrow> string list \<Rightarrow> 'a xr_dataset \<Rightarrow> py_error + 'a xr_dataset" where
  "fix_attrs show_num [] ds = Inr ds"
| "fix_attrs show_num (my_var # rest) ds =
     bind (fix_var show_num ds my_var) (fix_attrs show_num rest)"

text \<open>The attributes of the variable \<open>n\<close> of a Dataset, as a lookup function.\<close>

definition attrs_of :: "'a xr_dataset \<Rightarrow> string \<Rightarrow> (string \<Rightarrow> 'a attr_value option) option" where
  "attrs_of ds n = map_option (\<lambda>v. map_of (xattrs v)) (map_of (xr_variables ds) n)"

subsection \<open>Cell 10: the fields from wrf-python, merged\<close>

text \<open>
  \<^verbatim>\<open>
  da_list = []
  for my_var in my_vars:
      da_list.append( wrf.getvar(dst, my_var, timeidx=wrf.ALL_TIMES) )
  ds = xr.merge(da_list)
  \<close>
  \<^verbatim>\<open>wrf.getvar\<close> is the parameter \<open>getvar\<close>: what it computes is the library's.
\<close>

datatype timeidx = ALL_TIMES | TimeIndex int

record 'a data_array =
  da_name :: "string option"
  da_variable :: "'a xr_variable"
  da_coords :: "(string, 'a xr_variable) dict"

fun getvar_loop :: "('a nc_dataset \<Rightarrow> string \<Rightarrow> timeidx \<Rightarrow> py_error + 'a data_array) \<Rightarrow>
    'a nc_dataset \<Rightarrow> string list \<Rightarrow> 'a data_array list \<Rightarrow> py_error + 'a data_array list" where
  "getvar_loop getvar dst [] da_list = Inr da_list"
| "getvar_loop getvar dst (my_var # rest) da_list =
     bind (getvar dst my_var ALL_TIMES) (\<lambda>da. getvar_loop getvar dst rest (da_list @ [da]))"

text \<open>
  \<^verbatim>\<open>xr.merge\<close> turns every DataArray into a Dataset of its coordinates and itself
  (an unnamed array, or one named like one of its coordinates, raises), then joins the
  variables in order of first appearance. Variables of one name must agree (here: in
  dimensions and data), and a name must not be a coordinate in one object and a data
  variable in another.
\<close>

definition to_dataset :: "'a data_array \<Rightarrow> py_error + 'a xr_dataset" where
  "to_dataset da =
     (case da_name da of
        None \<Rightarrow> Inl ValueError
      | Some n \<Rightarrow>
          if map_of (da_coords da) n \<noteq> None then Inl ValueError
          else Inr \<lparr>xr_variables = da_coords da @ [(n, da_variable da)],
                    xr_coord_names = map fst (da_coords da)\<rparr>)"

fun to_datasets :: "'a data_array list \<Rightarrow> py_error + 'a xr_dataset list" where
  "to_datasets [] = Inr []"
| "to_datasets (da # rest) =
     bind (to_dataset da) (\<lambda>d. bind (to_datasets rest) (\<lambda>ds. Inr (d # ds)))"

definition compatible :: "'a xr_variable \<Rightarrow> 'a xr_variable \<Rightarrow> bool" where
  "compatible v w = (xdims v = xdims w \<and> xdata v = xdata w)"

fun merge_variables :: "(string, 'a xr_variable) dict \<Rightarrow> (string \<times> 'a xr_variable) list \<Rightarrow>
    py_error + (string, 'a xr_variable) dict" where
  "merge_variables acc [] = Inr acc"
| "merge_variables acc ((k, v) # rest) =
     (case map_of acc k of
        None \<Rightarrow> merge_variables (acc @ [(k, v)]) rest
      | Some w \<Rightarrow> if compatible w v then merge_variables acc rest else Inl MergeError)"

definition xr_merge :: "'a data_array list \<Rightarrow> py_error + 'a xr_dataset" where
  "xr_merge objects =
     bind (to_datasets objects) (\<lambda>dss.
     bind (merge_variables [] (concat (map xr_variables dss))) (\<lambda>vars.
     let coord_names = remdups (concat (map xr_coord_names dss));
         noncoord_names = concat (map data_vars dss)
     in if \<exists>n \<in> set coord_names. n \<in> set noncoord_names then Inl MergeError
        else Inr \<lparr>xr_variables = vars, xr_coord_names = coord_names\<rparr>))"

definition cell10 :: "('a nc_dataset \<Rightarrow> string \<Rightarrow> timeidx \<Rightarrow> py_error + 'a data_array) \<Rightarrow>
    'a nc_dataset \<Rightarrow> py_error + ('a data_array list \<times> 'a xr_dataset)" where
  "cell10 getvar dst =
     bind (getvar_loop getvar dst my_vars []) (\<lambda>da_list.
     bind (xr_merge da_list) (\<lambda>ds. Inr (da_list, ds)))"

subsection \<open>Cell 11: closing the in-memory dataset\<close>

definition cell11 :: "'a nc_dataset option \<Rightarrow> py_error + 'a nc_dataset option" where
  "cell11 dst = close_guard dst"

subsection \<open>The calls of the notebook that open, create or write files\<close>

text \<open>
  In cell order: \<^verbatim>\<open>Dataset(path, mode, diskless=..., persist=...)\<close> (mode \<^verbatim>\<open>'r'\<close>,
  no diskless and no persist when not given), \<^verbatim>\<open>dst.close()\<close>,
  \<^verbatim>\<open>ds.to_netcdf(path)\<close>, the shell line of cell 15 and \<^verbatim>\<open>xr.open_dataset(path)\<close>.
\<close>

datatype io_call =
    NcDataset string string bool bool
  | NcClose string
  | ToNetcdf string
  | Shell string
  | OpenDataset string

definition notebook_io :: "io_call list" where
  "notebook_io =
     [NcDataset (root_dir @ ''/wrfout_d02_2010-03-18_00:00:00'') ''r'' False False,
      NcDataset src_path ''r'' False False,
      NcDataset ''dst_tmp.nc'' ''w'' True False,
      NcDataset coord_path ''r'' False False,
      NcClose ''dst_tmp.nc'',
      ToNetcdf ''test.nc'',
      ToNetcdf ''test.nc'',
      Shell ''ls -ltrh test.nc'',
      OpenDataset ''test.nc'']"

text \<open>
  The files a call leaves on disk, given whether the call completes (\<open>ok\<close>) or raises.
  A dataset opened for reading creates nothing; a diskless dataset is kept in memory and
  reaches the disk only with \<^verbatim>\<open>persist=True\<close>; \<^verbatim>\<open>to_netcdf\<close> writes its path.
\<close>

fun creates :: "io_call \<Rightarrow> bool \<Rightarrow> string list" where
  "creates (NcDataset path mode diskless persist) ok =
     (if ok \<and> mode \<noteq> ''r'' \<and> (\<not> diskless \<or> persist) then [path] else [])"
| "creates (ToNetcdf path) ok = (if ok then [path] else [])"
| "creates (NcClose path) ok = []"
| "creates (Shell cmd) ok = []"
| "creates (OpenDataset path) ok = []"

definition files_created :: "io_call list \<Rightarrow> bool list \<Rightarrow> string list" where
  "files_created calls oks = concat (map (\<lambda>(c, ok). creates c ok) (zip calls oks))"

section \<open>The notebook as statements\<close>

text \<open>
  The cells again, statement by statement, over the names bound in the kernel. A
  statement is a call (an assignment or an expression, raising or giving the new
  bindings), a sequence, a \<^verbatim>\<open>for\<close> loop, a conditional, a \<^verbatim>\<open>try\<close> with one
  \<^verbatim>\<open>except\<close> clause, or \<^verbatim>\<open>pass\<close>. A loop evaluates its iterable once, to the list
  of bindings of its loop variables, one per iteration.
\<close>

datatype 's stmt =
    SCall "'s \<Rightarrow> py_error + 's"
  | SSeq "'s stmt" "'s stmt"
  | SFor "'s \<Rightarrow> py_error + ('s \<Rightarrow> 's) list" "'s stmt"
  | SIf "'s \<Rightarrow> py_error + bool" "'s stmt" "'s stmt"
  | STry "'s stmt" py_error "'s stmt"
  | SPass

fun seq :: "'s stmt list \<Rightarrow> 's stmt" where
  "seq [] = SPass"
| "seq [s] = s"
| "seq (s # rest) = SSeq s (seq rest)"

text \<open>
  Running a statement gives the bindings it leaves and the exception that ended it, if
  any: what was bound before the exception stays bound, as in a notebook kernel. An
  \<^verbatim>\<open>except E\<close> clause handles the exception \<open>E\<close> and lets any other through.
\<close>

fun iterate :: "('s \<Rightarrow> 's \<times> py_error option) \<Rightarrow> ('s \<Rightarrow> 's) list \<Rightarrow> 's \<Rightarrow> 's \<times> py_error option" where
  "iterate body [] k = (k, None)"
| "iterate body (b # bs) k =
     (case body (b k) of (k', None) \<Rightarrow> iterate body bs k' | (k', Some e) \<Rightarrow> (k', Some e))"

primrec exec :: "'s stmt \<Rightarrow> 's \<Rightarrow> 's \<times> py_error option" where
  "exec (SCall f) k = (case f k of Inl e \<Rightarrow> (k, Some e) | Inr k' \<Rightarrow> (k', None))"
| "exec (SSeq a b) k =
     (case exec a k of (k', None) \<Rightarrow> exec b k' | (k', Some e) \<Rightarrow> (k', Some e))"
| "exec (SFor items body) k =
     (case items k of Inl e \<Rightarrow> (k, Some e) | Inr bs \<Rightarrow> iterate (exec body) bs k)"
| "exec (SIf cond a b) k =
     (case cond k of Inl e \<Rightarrow> (k, Some e) | Inr t \<Rightarrow> if t then exec a k else exec b k)"
| "exec (STry body E handler) k =
     (case exec body k of
        (k', None) \<Rightarrow> (k', None)
      | (k', Some e) \<Rightarrow> if e = E then exec handler k' else (k', Some e))"
| "exec SPass k = (k, None)"

text \<open>The exceptions raised in the course of a run, handled or not, in order.\<close>

fun iterate_raised :: "('s \<Rightarrow> 's \<times> py_error option) \<Rightarrow> ('s \<Rightarrow> py_error list) \<Rightarrow>
    ('s \<Rightarrow> 's) list \<Rightarrow> 's \<Rightarrow> py_error list" where
  "iterate_raised body body_raised [] k = []"
| "iterate_raised body body_raised (b # bs) k =
     (case body (b k) of
        (k', None) \<Rightarrow> body_raised (b k) @ iterate_raised body body_raised bs k'
      | (k', Some e) \<Rightarrow> body_raised (b k))"

primrec raised :: "'s stmt \<Rightarrow> 's \<Rightarrow> py_error list" where
  "raised (SCall f) k = (case f k of Inl e \<Rightarrow> [e] | Inr k' \<Rightarrow> [])"
| "raised (SSeq a b) k =
     (case exec a k of (k', None) \<Rightarrow> raised a k @ raised b k' | (k', Some e) \<Rightarrow> raised a k)"
| "raised (SFor items body) k =
     (case items k of Inl e \<Rightarrow> [e] | Inr bs \<Rightarrow> iterate_raised (exec body) (raised body) bs k)"
| "raised (SIf cond a b) k =
     (case cond k of Inl e \<Rightarrow> [e] | Inr t \<Rightarrow> if t then raised a k else raised b k)"
| "raised (STry body E handler) k =
     (case exec body k of
        (k', None) \<Rightarrow> raised body k
      | (k', Some e) \<Rightarrow> if e = E then raised body k @ raised handler k' else raised body k)"
| "raised SPass k = []"

text \<open>
  The control structure of a statement: its \<^verbatim>\<open>try\<close> statements, the number of its
  conditionals, and the number of \<^verbatim>\<open>try\<close> statements inside loops, where a failed
  call would be tried again.
\<close>

primrec try_statements :: "'s stmt \<Rightarrow> 's stmt list" where
  "try_statements (SCall f) = []"
| "try_statements (SSeq a b) = try_statements a @ try_statements b"
| "try_statements (SFor items body) = try_statements body"
| "try_statements (SIf cond a b) = try_statements a @ try_statements b"
| "try_statements (STry body E handler) =
     STry body E handler # try_statements body @ try_statements handler"
| "try_statements SPass = []"

primrec conditionals :: "'s stmt \<Rightarrow> nat" where
  "conditionals (SCall f) = 0"
| "conditionals (SSeq a b) = conditionals a + conditionals b"
| "conditionals (SFor items body) = conditionals body"
| "conditionals (SIf cond a b) = Suc (conditionals a + conditionals b)"
| "conditionals (STry body E handler) = conditionals body + conditionals handler"
| "conditionals SPass = 0"

primrec retries :: "'s stmt \<Rightarrow> nat" where
  "retries (SCall f) = 0"
| "retries (SSeq a b) = retries a + retries b"
| "retries (SFor items body) = length (try_statements body)"
| "retries (SIf cond a b) = retries a + retries b"
| "retries (STry body E handler) = retries body + retries handler"
| "retries SPass = 0"

subsection \<open>The kernel\<close>

text \<open>
  The kernel binds names to values. Reading a name that is not bound raises
  \<^verbatim>\<open>NameError\<close>; using a value as something it is not raises \<^verbatim>\<open>TypeError\<close> (the
  notebook binds each name to one kind of value only).
\<close>

datatype 'a pyval =
    VDataset "'a nc_dataset"
  | VDimension nc_dimension
  | VVariable "'a nc_variable"
  | VStr string
  | VStrs "string list"
  | VNat nat
  | VAttr "'a attr_value"
  | VArray "'a ndarray"
  | VPoint "'a \<times> 'a"
  | VArrays "'a data_array list"
  | VXr "'a xr_dataset"

type_synonym 'a kernel = "string \<Rightarrow> 'a pyval option"

definition lookup :: "'a kernel \<Rightarrow> string \<Rightarrow> py_error + 'a pyval" where
  "lookup k x = (case k x of None \<Rightarrow> Inl NameError | Some v \<Rightarrow> Inr v)"

definition get_dataset :: "'a kernel \<Rightarrow> string \<Rightarrow> py_error + 'a nc_dataset" where
  "get_dataset k x = bind (lookup k x) (\<lambda>v. case v of VDataset d \<Rightarrow> Inr d | _ \<Rightarrow> Inl TypeError)"

definition get_dimension :: "'a kernel \<Rightarrow> string \<Rightarrow> py_error + nc_dimension" where
  "get_dimension k x = bind (lookup k x) (\<lambda>v. case v of VDimension d \<Rightarrow> Inr d | _ \<Rightarrow> Inl TypeError)"

definition get_variable :: "'a kernel \<Rightarrow> string \<Rightarrow> py_error + 'a nc_variable" where
  "get_variable k x = bind (lookup k x) (\<lambda>v. case v of VVariable d \<Rightarrow> Inr d | _ \<Rightarrow> Inl TypeError)"

definition get_str :: "'a kernel \<Rightarrow> string \<Rightarrow> py_error + string" where
  "get_str k x = bind (lookup k x) (\<lambda>v. case v of VStr s \<Rightarrow> Inr s | _ \<Rightarrow> Inl TypeError)"

definition get_strs :: "'a kernel \<Rightarrow> string \<Rightarrow> py_error + string list" where
  "get_strs k x = bind (lookup k x) (\<lambda>v. case v of VStrs s \<Rightarrow> Inr s | _ \<Rightarrow> Inl TypeError)"

definition get_nat :: "'a kernel \<Rightarrow> string \<Rightarrow> py_error + nat" where
  "get_nat k x = bind (lookup k x) (\<lambda>v. case v of VNat n \<Rightarrow> Inr n | _ \<Rightarrow> Inl TypeError)"

definition get_attr :: "'a kernel \<Rightarrow> string \<Rightarrow> py_error + 'a attr_value" where
  "get_attr k x = bind (lookup k x) (\<lambda>v. case v of VAttr a \<Rightarrow> Inr a | _ \<Rightarrow> Inl TypeError)"

definition get_array :: "'a kernel \<Rightarrow> string \<Rightarrow> py_error + 'a ndarray" where
  "get_array k x = bind (lookup k x) (\<lambda>v. case v of VArray a \<Rightarrow> Inr a | _ \<Rightarrow> Inl TypeError)"

definition get_point :: "'a kernel \<Rightarrow> string \<Rightarrow> py_error + 'a \<times> 'a" where
  "get_point k x = bind (lookup k x) (\<lambda>v. case v of VPoint p \<Rightarrow> Inr p | _ \<Rightarrow> Inl TypeError)"

definition get_arrays :: "'a kernel \<Rightarrow> string \<Rightarrow> py_error + 'a data_array list" where
  "get_arrays k x = bind (lookup k x) (\<lambda>v. case v of VArrays a \<Rightarrow> Inr a | _ \<Rightarrow> Inl TypeError)"

definition get_xr :: "'a kernel \<Rightarrow> string \<Rightarrow> py_error + 'a xr_dataset" where
  "get_xr k x = bind (lookup k x) (\<lambda>v. case v of VXr d \<Rightarrow> Inr d | _ \<Rightarrow> Inl TypeError)"

text \<open>
  The libraries: whether importing them raises, the parameters of the cells above, the
  files on disk, and the two xarray calls that write and read a file.
\<close>

record 'a libs =
  lib_import :: "py_error option"
  lib_numpy :: "'a numpy"
  lib_wrf :: "'a wrf_python"
  lib_getvar :: "'a nc_dataset \<Rightarrow> string \<Rightarrow> timeidx \<Rightarrow> py_error + 'a data_array"
  lib_str :: "'a \<Rightarrow> string"
  lib_files :: "string \<Rightarrow> 'a nc_dataset option"
  lib_to_netcdf :: "'a xr_dataset \<Rightarrow> string \<Rightarrow> py_error option"
  lib_open_dataset :: "string \<Rightarrow> py_error + 'a xr_dataset"

subsection \<open>The cells\<close>

text \<open>
  Cell 1: the imports.
  \<^verbatim>\<open>
  %matplotlib inline
  from netCDF4 import Dataset
  import wrf
  import xarray as xr
  import numpy as np
  import cartopy.crs as crs
  \<close>
  The modules they bind are the library parameters here, not names of the kernel.
\<close>

definition cell1_stmt :: "'a libs \<Rightarrow> 'a kernel stmt" where
  "cell1_stmt L = SCall (\<lambda>k. case lib_import L of None \<Rightarrow> Inr k | Some e \<Rightarrow> Inl e)"

text \<open>\<^verbatim>\<open>x = Dataset(root_dir + suffix)\<close>\<close>

definition open_stmt :: "'a libs \<Rightarrow> string \<Rightarrow> string \<Rightarrow> 'a kernel stmt" where
  "open_stmt L x suffix =
     SCall (\<lambda>k. bind (get_str k ''root_dir'') (\<lambda>r.
                bind (Dataset_open (lib_files L) (r @ suffix)) (\<lambda>d.
                Inr (k(x \<mapsto> VDataset d)))))"

text \<open>
  Cell 2.
  \<^verbatim>\<open>
  root_dir = '/data/fiss_aic/WRF/runA_2010'
  nc = Dataset(root_dir+'/wrfout_d02_2010-03-18_00:00:00')
  \<close>
\<close>

definition cell2_stmt :: "'a libs \<Rightarrow> 'a kernel stmt" where
  "cell2_stmt L =
     seq [SCall (\<lambda>k. Inr (k(''root_dir'' \<mapsto> VStr root_dir))),
          open_stmt L ''nc'' ''/wrfout_d02_2010-03-18_00:00:00'']"

text \<open>
  Cell 3.
  \<^verbatim>\<open>
  root_dir = '/data/fiss_aic/WRF/runA_2010'
  my_vars  = ['SPDUV10MEAN', 'V10MEAN', 'U10MEAN']
  \<close>
\<close>

definition cell3_stmt :: "'a kernel stmt" where
  "cell3_stmt =
     seq [SCall (\<lambda>k. Inr (k(''root_dir'' \<mapsto> VStr root_dir))),
          SCall (\<lambda>k. Inr (k(''my_vars'' \<mapsto> VStrs my_vars)))]"

text \<open>
  The guard of cells 4 and 11.
  \<^verbatim>\<open>
  try:
      print('>> closing dst << \n')
      dst.close()
  except NameError:
      pass
  \<close>
\<close>

definition guard_stmt :: "'a kernel stmt" where
  "guard_stmt =
     STry (seq [SCall (\<lambda>k. Inr k),
                SCall (\<lambda>k. bind (get_dataset k ''dst'') (\<lambda>d.
                           bind (nc_close d) (\<lambda>d'.
                           Inr (k(''dst'' \<mapsto> VDataset d')))))])
          NameError
          SPass"

text \<open>
  Cell 4.
  \<^verbatim>\<open>
  src = Dataset(root_dir+'/wrfxtrm_d02')
  try: ... except NameError: pass
  dst = Dataset("dst_tmp.nc", "w", format="NETCDF4", diskless=True)
  dst.setncatts(src.__dict__)
  for name, dimension in src.dimensions.items():
      dst.createDimension(name,
              len(dimension) if not dimension.isunlimited() else None)
  \<close>
  The conditional expression in the argument is written as a conditional around the
  call: \<open>create_dimension\<close> is the body of the loop, \<open>bind_dimension\<close> binds its two
  variables.
\<close>

definition bind_dimension :: "string \<times> nc_dimension \<Rightarrow> 'a kernel \<Rightarrow> 'a kernel" where
  "bind_dimension item k =
     (case item of (n, d) \<Rightarrow> k(''name'' \<mapsto> VStr n, ''dimension'' \<mapsto> VDimension d))"

definition create_dimension :: "'a kernel stmt" where
  "create_dimension =
     SIf (\<lambda>k. bind (get_dimension k ''dimension'') (\<lambda>d. Inr (\<not> dim_unlimited d)))
       (SCall (\<lambda>k. bind (get_dataset k ''dst'') (\<lambda>d.
                  bind (get_str k ''name'') (\<lambda>n.
                  bind (get_dimension k ''dimension'') (\<lambda>dimension.
                  bind (createDimension d n (Some (dim_size dimension))) (\<lambda>d'.
                  Inr (k(''dst'' \<mapsto> VDataset d'))))))))
       (SCall (\<lambda>k. bind (get_dataset k ''dst'') (\<lambda>d.
                  bind (get_str k ''name'') (\<lambda>n.
                  bind (createDimension d n None) (\<lambda>d'.
                  Inr (k(''dst'' \<mapsto> VDataset d')))))))"

definition cell4_stmt :: "'a libs \<Rightarrow> 'a kernel stmt" where
  "cell4_stmt L =
     seq [open_stmt L ''src'' ''/wrfxtrm_d02'',
          guard_stmt,
          SCall (\<lambda>k. Inr (k(''dst'' \<mapsto> VDataset Dataset_create))),
          SCall (\<lambda>k. bind (get_dataset k ''dst'') (\<lambda>d.
                     bind (get_dataset k ''src'') (\<lambda>s.
                     Inr (k(''dst'' \<mapsto> VDataset (d\<lparr>nc_attrs := setncatts (nc_attrs d) (nc_attrs s)\<rparr>)))))),
          SFor (\<lambda>k. bind (get_dataset k ''src'') (\<lambda>s.
                    Inr (map bind_dimension (nc_dimensions s))))
            create_dimension]"

text \<open>
  The four lines of cells 5 and 9, for the variable \<^verbatim>\<open>name\<close> of the file bound to
  \<open>file\<close> (\<^verbatim>\<open>src\<close>).
  \<^verbatim>\<open>
  variable = src.variables[name]
  dst.createVariable(name, variable.datatype, variable.dimensions)
  dst.variables[name][:] = src.variables[name][:]
  dst[name].setncatts(src[name].__dict__)
  \<close>
  In an assignment the right-hand side is evaluated first.
\<close>

definition assign_variable :: "string \<Rightarrow> 'a kernel stmt" where
  "assign_variable file =
     SCall (\<lambda>k. bind (get_dataset k file) (\<lambda>s.
                bind (get_str k ''name'') (\<lambda>n.
                bind (dict_getitem (nc_variables s) n) (\<lambda>v.
                Inr (k(''variable'' \<mapsto> VVariable v))))))"

definition create_variable :: "'a kernel stmt" where
  "create_variable =
     SCall (\<lambda>k. bind (get_dataset k ''dst'') (\<lambda>d.
                bind (get_str k ''name'') (\<lambda>n.
                bind (get_variable k ''variable'') (\<lambda>v.
                bind (createVariable d n (v_datatype v) (v_dimensions v)) (\<lambda>d'.
                Inr (k(''dst'' \<mapsto> VDataset d')))))))"

definition set_attributes :: "string \<Rightarrow> 'a kernel stmt" where
  "set_attributes file =
     SCall (\<lambda>k. bind (get_dataset k ''dst'') (\<lambda>d.
                bind (get_str k ''name'') (\<lambda>n.
                bind (dict_getitem (nc_variables d) n) (\<lambda>_.
                bind (get_dataset k file) (\<lambda>s.
                bind (dict_getitem (nc_variables s) n) (\<lambda>sv.
                bind (var_setncatts d n (v_attrs sv)) (\<lambda>d'.
                Inr (k(''dst'' \<mapsto> VDataset d')))))))))"

definition copy_statements :: "'a libs \<Rightarrow> 'a kernel stmt list" where
  "copy_statements L =
     [assign_variable ''src'',
      create_variable,
      SCall (\<lambda>k. bind (get_dataset k ''src'') (\<lambda>s.
                 bind (get_str k ''name'') (\<lambda>n.
                 bind (dict_getitem (nc_variables s) n) (\<lambda>sv.
                 bind (get_dataset k ''dst'') (\<lambda>d.
                 bind (nc_setitem_all (lib_numpy L) d n (nc_read (lib_numpy L) s sv)) (\<lambda>d'.
                 Inr (k(''dst'' \<mapsto> VDataset d')))))))),
      set_attributes ''src'']"

text \<open>Cell 5: \<^verbatim>\<open>name = 'Times'\<close> and the four lines.\<close>

definition cell5_stmt :: "'a libs \<Rightarrow> 'a kernel stmt" where
  "cell5_stmt L = seq (SCall (\<lambda>k. Inr (k(''name'' \<mapsto> VStr ''Times''))) # copy_statements L)"

text \<open>
  Cell 6.
  \<^verbatim>\<open>
  coord_file = Dataset(root_dir+'/wrfout_d02_2010-03-18_00:00:00')
  coords = ['XLAT', 'XLONG']
  for name in coords:
      variable = coord_file.variables[name]
      dst.createVariable(name, variable.datatype, variable.dimensions)
      correct_shape_arr = np.zeros( dst.variables[name].shape )
      correct_shape_arr[:,:,:] = coord_file.variables[name][0,:,:]
      dst.variables[name][:] = correct_shape_arr
      dst[name].setncatts(coord_file[name].__dict__)
  \<close>
  \<open>coord_statements\<close> is the body of the loop.
\<close>

definition bind_name :: "string \<Rightarrow> string \<Rightarrow> 'a kernel \<Rightarrow> 'a kernel" where
  "bind_name x n k = k(x \<mapsto> VStr n)"

definition for_names :: "string \<Rightarrow> string \<Rightarrow> 'a kernel stmt \<Rightarrow> 'a kernel stmt" where
  "for_names x names body =
     SFor (\<lambda>k. bind (get_strs k names) (\<lambda>ns. Inr (map (bind_name x) ns))) body"

definition coord_statements :: "'a libs \<Rightarrow> 'a kernel stmt" where
  "coord_statements L =
     seq [assign_variable ''coord_file'',
          create_variable,
          SCall (\<lambda>k. bind (get_dataset k ''dst'') (\<lambda>d.
                     bind (get_str k ''name'') (\<lambda>n.
                     bind (dict_getitem (nc_variables d) n) (\<lambda>dv.
                     Inr (k(''correct_shape_arr'' \<mapsto>
                            VArray (np_zeros (lib_numpy L) (nc_shape d dv)))))))),
          SCall (\<lambda>k. bind (get_dataset k ''coord_file'') (\<lambda>c.
                     bind (get_str k ''name'') (\<lambda>n.
                     bind (dict_getitem (nc_variables c) n) (\<lambda>cv.
                     bind (getitem_i_all_all (nc_read (lib_numpy L) c cv) 0) (\<lambda>slice0.
                     bind (get_array k ''correct_shape_arr'') (\<lambda>a.
                     bind (setitem_all3 (lib_numpy L) a slice0) (\<lambda>a'.
                     Inr (k(''correct_shape_arr'' \<mapsto> VArray a'))))))))),
          SCall (\<lambda>k. bind (get_array k ''correct_shape_arr'') (\<lambda>a.
                     bind (get_dataset k ''dst'') (\<lambda>d.
                     bind (get_str k ''name'') (\<lambda>n.
                     bind (nc_setitem_all (lib_numpy L) d n a) (\<lambda>d'.
                     Inr (k(''dst'' \<mapsto> VDataset d'))))))),
          set_attributes ''coord_file'']"

definition cell6_stmt :: "'a libs \<Rightarrow> 'a kernel stmt" where
  "cell6_stmt L =
     seq [open_stmt L ''coord_file'' ''/wrfout_d02_2010-03-18_00:00:00'',
          SCall (\<lambda>k. Inr (k(''coords'' \<mapsto> VStrs coords))),
          for_names ''name'' ''coords'' (coord_statements L)]"

text \<open>
  Cell 7.
  \<^verbatim>\<open>
  nx = dst.dimensions['west_east'].size
  ny = dst.dimensions['south_north'].size
  dt, dx, dy = dst.DT, dst.DX, dst.DY
  cen_lat, cen_lon = dst.CEN_LAT, dst.CEN_LON
  truelat1, truelat2, STAND_LON = dst.TRUELAT1, dst.TRUELAT2, dst.STAND_LON
  pole_lat, pole_lon = dst.POLE_LAT, dst.POLE_LON
  \<close>
\<close>

definition assign_size :: "string \<Rightarrow> string \<Rightarrow> 'a kernel stmt" where
  "assign_size x dim =
     SCall (\<lambda>k. bind (get_dataset k ''dst'') (\<lambda>d.
                bind (dict_getitem (nc_dimensions d) dim) (\<lambda>dimension.
                Inr (k(x \<mapsto> VNat (dim_size dimension))))))"

definition assign_attrs2 :: "string \<Rightarrow> string \<Rightarrow> string \<Rightarrow> string \<Rightarrow> 'a kernel stmt" where
  "assign_attrs2 x y a b =
     SCall (\<lambda>k. bind (get_dataset k ''dst'') (\<lambda>d.
                bind (nc_getattr d a) (\<lambda>va.
                bind (nc_getattr d b) (\<lambda>vb.
                Inr (k(x \<mapsto> VAttr va, y \<mapsto> VAttr vb))))))"

definition assign_attrs3 :: "string \<Rightarrow> string \<Rightarrow> string \<Rightarrow> string \<Rightarrow> string \<Rightarrow> string \<Rightarrow> 'a kernel stmt" where
  "assign_attrs3 x y z a b c =
     SCall (\<lambda>k. bind (get_dataset k ''dst'') (\<lambda>d.
                bind (nc_getattr d a) (\<lambda>va.
                bind (nc_getattr d b) (\<lambda>vb.
                bind (nc_getattr d c) (\<lambda>vc.
                Inr (k(x \<mapsto> VAttr va, y \<mapsto> VAttr vb, z \<mapsto> VAttr vc)))))))"

definition cell7_stmt :: "'a kernel stmt" where
  "cell7_stmt =
     seq [assign_size ''nx'' ''west_east'',
          assign_size ''ny'' ''south_north'',
          assign_attrs3 ''dt'' ''dx'' ''dy'' ''DT'' ''DX'' ''DY'',
          assign_attrs2 ''cen_lat'' ''cen_lon'' ''CEN_LAT'' ''CEN_LON'',
          assign_attrs3 ''truelat1'' ''truelat2'' ''STAND_LON'' ''TRUELAT1'' ''TRUELAT2'' ''STAND_LON'',
          assign_attrs2 ''pole_lat'' ''pole_lon'' ''POLE_LAT'' ''POLE_LON'']"

text \<open>
  Cell 8.
  \<^verbatim>\<open>
  x0_y0 = wrf.get_cartopy(wrfin=dst).transform_point( dst.variables['XLONG'][0,0,0],
                                                      dst.variables['XLAT'][0,0,0],
                                                      crs.PlateCarree())
  west_east_points   = np.arange(nx, dtype='float32') * dy + x0_y0[0]
  south_north_points = np.arange(ny, dtype='float32') * dy + x0_y0[1]
  dst.createVariable('south_north', south_north_points.dtype, ('south_north') )
  dst.variables['south_north'][:] = south_north_points
  dst['south_north'].setncatts( {'units':'m', 'axis':'y'} )
  dst.createVariable('west_east', west_east_points.dtype, ('west_east') )
  dst.variables['west_east'][:] = west_east_points
  dst['west_east'].setncatts( {'units':'m', 'axis':'x'} )
  \<close>
\<close>

definition assign_points :: "'a libs \<Rightarrow> string \<Rightarrow> string \<Rightarrow> ('a \<times> 'a \<Rightarrow> 'a) \<Rightarrow> 'a kernel stmt" where
  "assign_points L x n coordinate =
     SCall (\<lambda>k. bind (get_nat k n) (\<lambda>len.
                bind (get_attr k ''dy'') (\<lambda>spacing.
                bind (get_point k ''x0_y0'') (\<lambda>p.
                bind (axis_points (lib_numpy L) len spacing (coordinate p)) (\<lambda>a.
                Inr (k(x \<mapsto> VArray a)))))))"

definition axis_statements :: "'a libs \<Rightarrow> string \<Rightarrow> string \<Rightarrow> string \<Rightarrow> 'a kernel stmt list" where
  "axis_statements L name points axis =
     [SCall (\<lambda>k. bind (get_dataset k ''dst'') (\<lambda>d.
                 bind (get_array k points) (\<lambda>_.
                 bind (createVariable d name ''float32'' [name]) (\<lambda>d'.
                 Inr (k(''dst'' \<mapsto> VDataset d')))))),
      SCall (\<lambda>k. bind (get_array k points) (\<lambda>a.
                 bind (get_dataset k ''dst'') (\<lambda>d.
                 bind (nc_setitem_all (lib_numpy L) d name a) (\<lambda>d'.
                 Inr (k(''dst'' \<mapsto> VDataset d')))))),
      SCall (\<lambda>k. bind (get_dataset k ''dst'') (\<lambda>d.
                 bind (var_setncatts d name [(''units'', Str ''m''), (''axis'', Str axis)]) (\<lambda>d'.
                 Inr (k(''dst'' \<mapsto> VDataset d')))))]"

definition cell8_stmt :: "'a libs \<Rightarrow> 'a kernel stmt" where
  "cell8_stmt L =
     seq ([SCall (\<lambda>k. bind (get_dataset k ''dst'') (\<lambda>d.
                      bind (corner_point (lib_numpy L) (lib_wrf L) d) (\<lambda>p.
                      Inr (k(''x0_y0'' \<mapsto> VPoint p))))),
           assign_points L ''west_east_points'' ''nx'' fst,
           assign_points L ''south_north_points'' ''ny'' snd]
          @ axis_statements L ''south_north'' ''south_north_points'' ''y''
          @ axis_statements L ''west_east'' ''west_east_points'' ''x'')"

text \<open>Cell 9: \<^verbatim>\<open>for name in list(my_vars):\<close> and the four lines.\<close>

definition cell9_stmt :: "'a libs \<Rightarrow> 'a kernel stmt" where
  "cell9_stmt L = for_names ''name'' ''my_vars'' (seq (copy_statements L))"

text \<open>Cells 4 to 9 in sequence: the copy stage.\<close>

definition copy_stage_stmt :: "'a libs \<Rightarrow> 'a kernel stmt" where
  "copy_stage_stmt L =
     seq [cell4_stmt L, cell5_stmt L, cell6_stmt L, cell7_stmt, cell8_stmt L, cell9_stmt L]"

text \<open>
  Cell 10.
  \<^verbatim>\<open>
  da_list = []
  for my_var in my_vars:
      da_list.append( wrf.getvar(dst, my_var, timeidx=wrf.ALL_TIMES) )
  ds = xr.merge(da_list)
  ds
  \<close>
  \<open>append_getvar\<close> is the body of the loop.
\<close>

definition show_stmt :: "string \<Rightarrow> 'a kernel stmt" where
  "show_stmt x = SCall (\<lambda>k. bind (lookup k x) (\<lambda>_. Inr k))"

definition append_getvar :: "'a libs \<Rightarrow> 'a kernel stmt" where
  "append_getvar L =
     SCall (\<lambda>k. bind (get_arrays k ''da_list'') (\<lambda>das.
                bind (get_dataset k ''dst'') (\<lambda>d.
                bind (get_str k ''my_var'') (\<lambda>n.
                bind (lib_getvar L d n ALL_TIMES) (\<lambda>da.
                Inr (k(''da_list'' \<mapsto> VArrays (das @ [da]))))))))"

definition cell10_stmt :: "'a libs \<Rightarrow> 'a kernel stmt" where
  "cell10_stmt L =
     seq [SCall (\<lambda>k. Inr (k(''da_list'' \<mapsto> VArrays []))),
          for_names ''my_var'' ''my_vars'' (append_getvar L),
          SCall (\<lambda>k. bind (get_arrays k ''da_list'') (\<lambda>das.
                     bind (xr_merge das) (\<lambda>ds.
                     Inr (k(''ds'' \<mapsto> VXr ds))))),
          show_stmt ''ds'']"

text \<open>Cell 11: the guard.\<close>

definition cell11_stmt :: "'a kernel stmt" where
  "cell11_stmt = guard_stmt"

text \<open>Cell 12: \<^verbatim>\<open>ds.to_netcdf('test.nc')\<close>\<close>

definition to_netcdf_stmt :: "'a libs \<Rightarrow> 'a kernel stmt" where
  "to_netcdf_stmt L =
     SCall (\<lambda>k. bind (get_xr k ''ds'') (\<lambda>ds.
                case lib_to_netcdf L ds ''test.nc'' of None \<Rightarrow> Inr k | Some e \<Rightarrow> Inl e))"

definition cell12_stmt :: "'a libs \<Rightarrow> 'a kernel stmt" where
  "cell12_stmt L = to_netcdf_stmt L"

text \<open>Cells 13 and 17: \<^verbatim>\<open>ds['SPDUV10MEAN'].attrs\<close>, shown.\<close>

definition show_attrs_stmt :: "string \<Rightarrow> 'a kernel stmt" where
  "show_attrs_stmt x =
     SCall (\<lambda>k. bind (get_xr k x) (\<lambda>ds.
                bind (dict_getitem (xr_variables ds) ''SPDUV10MEAN'') (\<lambda>_. Inr k)))"

definition cell13_stmt :: "'a kernel stmt" where
  "cell13_stmt = show_attrs_stmt ''ds''"

text \<open>
  Cell 14.
  \<^verbatim>\<open>
  for my_var in my_vars:
      ds[my_var].attrs['projection'] = str(ds[my_var].attrs['projection'])
      ds[my_var].attrs.pop('coordinates')
  ds.to_netcdf('test.nc')
  \<close>
  \<open>fix_statements\<close> is the body of the loop.
\<close>

definition fix_statements :: "'a libs \<Rightarrow> 'a kernel stmt" where
  "fix_statements L =
     seq [SCall (\<lambda>k. bind (get_xr k ''ds'') (\<lambda>ds.
                     bind (get_str k ''my_var'') (\<lambda>n.
                     bind (dict_getitem (xr_variables ds) n) (\<lambda>v.
                     bind (dict_getitem (xattrs v) ''projection'') (\<lambda>p.
                     Inr (k(''ds'' \<mapsto> VXr (ds\<lparr>xr_variables :=
                            dict_setitem (xr_variables ds) n
                              (v\<lparr>xattrs := dict_setitem (xattrs v) ''projection''
                                    (Str (py_str (lib_str L) p))\<rparr>)\<rparr>)))))))),
          SCall (\<lambda>k. bind (get_xr k ''ds'') (\<lambda>ds.
                     bind (get_str k ''my_var'') (\<lambda>n.
                     bind (dict_getitem (xr_variables ds) n) (\<lambda>v.
                     bind (dict_pop (xattrs v) ''coordinates'') (\<lambda>(_, a).
                     Inr (k(''ds'' \<mapsto> VXr (ds\<lparr>xr_variables :=
                            dict_setitem (xr_variables ds) n (v\<lparr>xattrs := a\<rparr>)\<rparr>))))))))]"

definition cell14_stmt :: "'a libs \<Rightarrow> 'a kernel stmt" where
  "cell14_stmt L = seq [for_names ''my_var'' ''my_vars'' (fix_statements L), to_netcdf_stmt L]"

text \<open>Cell 15: \<^verbatim>\<open>!ls -ltrh test.nc\<close>, a shell line; it binds nothing and raises nothing.\<close>

definition cell15_stmt :: "'a kernel stmt" where
  "cell15_stmt = SCall (\<lambda>k. Inr k)"

text \<open>
  Cell 16.
  \<^verbatim>\<open>
  ds2 = xr.open_dataset('test.nc')
  ds2
  \<close>
\<close>

definition cell16_stmt :: "'a libs \<Rightarrow> 'a kernel stmt" where
  "cell16_stmt L =
     seq [SCall (\<lambda>k. bind (lib_open_dataset L ''test.nc'') (\<lambda>ds. Inr (k(''ds2'' \<mapsto> VXr ds)))),
          show_stmt ''ds2'']"

definition cell17_stmt :: "'a kernel stmt" where
  "cell17_stmt = show_attrs_stmt ''ds2''"

text \<open>The code cells, by their execution counts.\<close>

definition notebook :: "'a libs \<Rightarrow> (nat \<times> 'a kernel stmt) list" where
  "notebook L =
     [(1, cell1_stmt L), (2, cell2_stmt L), (3, cell3_stmt), (4, cell4_stmt L), (5, cell5_stmt L),
      (6, cell6_stmt L), (7, cell7_stmt), (8, cell8_stmt L), (9, cell9_stmt L),
      (10, cell10_stmt L), (11, cell11_stmt), (12, cell12_stmt L), (13, cell13_stmt),
      (14, cell14_stmt L), (15, cell15_stmt), (16, cell16_stmt L), (17, cell17_stmt)]"

text \<open>
  Running cells one after the other: the bindings stay when a cell raises. For each
  cell, the exception that ended it, if any, and the exceptions raised in it.
\<close>

fun outcomes :: "(nat \<times> 's stmt) list \<Rightarrow> 's \<Rightarrow> (nat \<times> py_error option \<times> py_error list) list" where
  "outcomes [] k = []"
| "outcomes ((n, c) # rest) k = (n, snd (exec c k), raised c k) # outcomes rest (fst (exec c k))"

definition run_cells :: "(nat \<times> 's stmt) list \<Rightarrow> 's \<Rightarrow> 's" where
  "run_cells cells k = foldl (\<lambda>k (n, c). fst (exec c k)) k cells"

text \<open>
  \<open>clean s\<close>: in every run of \<open>s\<close>, nothing was raised if it completes, and the one
  exception raised is the one that ends it otherwise. \<open>guarded E s\<close>: the same, except
  that one exception \<open>E\<close> may have been raised and handled before.
\<close>

definition clean :: "'s stmt \<Rightarrow> bool" where
  "clean s =
     (\<forall>k. case snd (exec s k) of None \<Rightarrow> raised s k = [] | Some e \<Rightarrow> raised s k = [e])"

definition guarded :: "py_error \<Rightarrow> 's stmt \<Rightarrow> bool" where
  "guarded E s =
     (\<forall>k. case snd (exec s k) of
             None \<Rightarrow> raised s k = [] \<or> raised s k = [E]
           | Some e \<Rightarrow> raised s k = [e] \<or> raised s k = [E, e])"

section \<open>Notions used in the statements\<close>

text \<open>
  A dataset read from a file is well formed when its attribute names are unique, its
  fixed dimensions have a positive length, and every variable has data whose values
  are of the variable's datatype (storing them with that datatype changes nothing).
\<close>

definition wf_variable :: "'a numpy \<Rightarrow> 'a nc_variable \<Rightarrow> bool" where
  "wf_variable lib v =
     (distinct (map fst (v_attrs v)) \<and>
      (case v_data v of
         None \<Rightarrow> False
       | Some a \<Rightarrow> list_all (\<lambda>x. as_datatype lib (v_datatype v) x = x) (arr_flat a)))"

definition wf_dimension :: "nc_dimension \<Rightarrow> bool" where
  "wf_dimension d = (dim_unlimited d \<or> 0 < dim_size d)"

definition wf_dataset :: "'a numpy \<Rightarrow> 'a nc_dataset \<Rightarrow> bool" where
  "wf_dataset lib ds =
     (distinct (map fst (nc_attrs ds)) \<and>
      list_all (\<lambda>(n, d). wf_dimension d) (nc_dimensions ds) \<and>
      list_all (\<lambda>(n, v). wf_variable lib v) (nc_variables ds))"

text \<open>
  \<open>dims_kept D D'\<close>: every dimension of \<open>D\<close> is in \<open>D'\<close>, unlimited or not as before, and
  with its length when it is fixed. \<open>extends ds ds'\<close>: \<open>ds'\<close> has the global attributes of
  \<open>ds\<close>, keeps its dimensions in that sense, and has every variable of \<open>ds\<close> unchanged.
\<close>

definition dims_kept :: "(string, nc_dimension) dict \<Rightarrow> (string, nc_dimension) dict \<Rightarrow> bool" where
  "dims_kept D D' =
     (\<forall>n x. map_of D n = Some x \<longrightarrow>
        (\<exists>y. map_of D' n = Some y \<and> dim_unlimited y = dim_unlimited x \<and>
             (\<not> dim_unlimited x \<longrightarrow> dim_size y = dim_size x)))"

definition extends :: "'a nc_dataset \<Rightarrow> 'a nc_dataset \<Rightarrow> bool" where
  "extends ds ds' =
     (nc_attrs ds' = nc_attrs ds \<and> dims_kept (nc_dimensions ds) (nc_dimensions ds') \<and>
      (\<forall>n v. map_of (nc_variables ds) n = Some v \<longrightarrow> map_of (nc_variables ds') n = Some v))"

text \<open>\<open>same_variable src dst n\<close>: the variable \<open>n\<close> of \<open>dst\<close> has the datatype, the
  dimensions, the data and the attributes of the variable \<open>n\<close> of \<open>src\<close>.\<close>

definition same_variable :: "'a nc_dataset \<Rightarrow> 'a nc_dataset \<Rightarrow> string \<Rightarrow> bool" where
  "same_variable src dst n =
     (\<exists>v v'. map_of (nc_variables src) n = Some v \<and> map_of (nc_variables dst) n = Some v' \<and>
        v_datatype v' = v_datatype v \<and> v_dimensions v' = v_dimensions v \<and>
        v_data v' = v_data v \<and> v_attrs v' = v_attrs v)"

text \<open>
  \<open>staged_coordinate lib coord_file dst n\<close>: the variable \<open>n\<close> of \<open>dst\<close> is the variable
  \<open>n\<close> of the coordinate file with, as data, its first time slice broadcast into a
  float64 array \<open>z\<close> with one axis per dimension of the variable, and stored with the
  variable's datatype.
\<close>

definition staged_coordinate :: "'a numpy \<Rightarrow> 'a nc_dataset \<Rightarrow> 'a nc_dataset \<Rightarrow> string \<Rightarrow> bool" where
  "staged_coordinate lib coord_file dst n =
     (\<exists>v slice0 z arr. map_of (nc_variables coord_file) n = Some v \<and>
        getitem_i_all_all (nc_read lib coord_file v) 0 = Inr slice0 \<and>
        length (arr_shape z) = length (v_dimensions v) \<and>
        setitem_all3 lib z slice0 = Inr arr \<and>
        map_of (nc_variables dst) n =
          Some \<lparr>v_datatype = v_datatype v, v_dimensions = v_dimensions v,
                v_attrs = setncatts [] (v_attrs v),
                v_data = Some (map_array (as_datatype lib (v_datatype v)) arr)\<rparr>)"

text \<open>\<^verbatim>\<open>ds.variables[name][t,:,:]\<close>\<close>

definition nc_slice :: "'a numpy \<Rightarrow> 'a nc_dataset \<Rightarrow> string \<Rightarrow> nat \<Rightarrow> py_error + 'a ndarray" where
  "nc_slice lib ds name t =
     bind (dict_getitem (nc_variables ds) name) (\<lambda>v. getitem_i_all_all (nc_read lib ds v) t)"

section \<open>Example files and library parameters\<close>

text \<open>
  Two small files as examples: a source file with two time steps on a
  2 by 3 grid, and a coordinate file with one time step on the same grid. Numbers are
  integers, with exact arithmetic and no conversion.
\<close>

definition lib_int :: "int numpy" where
  "lib_int = \<lparr>zero_elem = 0, arange_elem = int, np_multiply = (*), np_add = (+),
     as_float64 = (\<lambda>x. x), as_datatype = (\<lambda>_ x. x), fill_value = (\<lambda>_. 0)\<rparr>"

definition wrf_example :: "int wrf_python" where
  "wrf_example = \<lparr>
     get_cartopy = (\<lambda>dst. Inr ''PolarStereographic(stand_lon=-45.0)''),
     transform_point = (\<lambda>proj lon lat.
       case (arr_flat lon, arr_flat lat) of
         ([x], [y]) \<Rightarrow> Inr (1000 * x, 1000 * y)
       | _ \<Rightarrow> Inl TypeError)\<rparr>"

definition grid_dims :: "string list" where
  "grid_dims = [''Time'', ''south_north'', ''west_east'']"

definition src_attrs :: "(string, int attr_value) dict" where
  "src_attrs =
     [(''TITLE'', Str ''OUTPUT FROM WRF''), (''DT'', Num 60), (''DX'', Num 7), (''DY'', Num 5),
      (''CEN_LAT'', Num (-75)), (''CEN_LON'', Num (-45)), (''TRUELAT1'', Num (-90)),
      (''TRUELAT2'', Num (-90)), (''STAND_LON'', Num (-45)), (''POLE_LAT'', Num 90),
      (''POLE_LON'', Num 0)]"

definition src_dims :: "(string, nc_dimension) dict" where
  "src_dims =
     [(''Time'', \<lparr>dim_size = 2, dim_unlimited = True\<rparr>),
      (''DateStrLen'', \<lparr>dim_size = 2, dim_unlimited = False\<rparr>),
      (''south_north'', \<lparr>dim_size = 2, dim_unlimited = False\<rparr>),
      (''west_east'', \<lparr>dim_size = 3, dim_unlimited = False\<rparr>)]"

definition times_var :: "int nc_variable" where
  "times_var = \<lparr>v_datatype = ''S1'', v_dimensions = [''Time'', ''DateStrLen''], v_attrs = [],
     v_data = Some \<lparr>arr_shape = [2, 2], arr_flat = [49, 56, 49, 57]\<rparr>\<rparr>"

definition wind_file_var :: "int list \<Rightarrow> int nc_variable" where
  "wind_file_var xs = \<lparr>v_datatype = ''float32'', v_dimensions = grid_dims,
     v_attrs = [(''units'', Str ''m s-1''), (''coordinates'', Str ''XLONG XLAT XTIME'')],
     v_data = Some \<lparr>arr_shape = [2, 2, 3], arr_flat = xs\<rparr>\<rparr>"

definition wind_file_vars :: "(string, int nc_variable) dict" where
  "wind_file_vars =
     [(''SPDUV10MEAN'', wind_file_var [0, 1, 2, 3, 4, 5, 6, 7, 8, 9, 10, 11]),
      (''V10MEAN'', wind_file_var [0, 0, 1, 1, 2, 2, 3, 3, 4, 4, 5, 5]),
      (''U10MEAN'', wind_file_var [0, -1, -2, -3, -4, -5, -6, -7, -8, -9, -10, -11])]"

definition src_example :: "int nc_dataset" where
  "src_example = \<lparr>nc_attrs = src_attrs, nc_dimensions = src_dims,
     nc_variables = (''Times'', times_var) # wind_file_vars, nc_isopen = False\<rparr>"

definition coord_var :: "string \<Rightarrow> nat \<Rightarrow> int list \<Rightarrow> int nc_variable" where
  "coord_var units nt xs = \<lparr>v_datatype = ''float32'', v_dimensions = grid_dims,
     v_attrs = [(''units'', Str units)],
     v_data = Some \<lparr>arr_shape = [nt, 2, 3], arr_flat = xs\<rparr>\<rparr>"

definition xlat0 :: "int list" where
  "xlat0 = [-78, -78, -78, -77, -77, -77]"

definition xlong0 :: "int list" where
  "xlong0 = [-123, -122, -121, -123, -122, -121]"

definition coord_example :: "int nc_dataset" where
  "coord_example = \<lparr>
     nc_attrs = [(''TITLE'', Str ''OUTPUT FROM WRF'')],
     nc_dimensions = [(''Time'', \<lparr>dim_size = 1, dim_unlimited = True\<rparr>),
       (''south_north'', \<lparr>dim_size = 2, dim_unlimited = False\<rparr>),
       (''west_east'', \<lparr>dim_size = 3, dim_unlimited = False\<rparr>)],
     nc_variables = [(''XLAT'', coord_var ''degree_north'' 1 xlat0),
                     (''XLONG'', coord_var ''degree_east'' 1 xlong0)],
     nc_isopen = False\<rparr>"

text \<open>The destination after cell 6, and after cell 9.\<close>

definition dst6_example :: "int nc_dataset" where
  "dst6_example = \<lparr>nc_attrs = src_attrs, nc_dimensions = src_dims,
     nc_variables = [(''Times'', times_var),
                     (''XLAT'', coord_var ''degree_north'' 2 (xlat0 @ xlat0)),
                     (''XLONG'', coord_var ''degree_east'' 2 (xlong0 @ xlong0))],
     nc_isopen = True\<rparr>"

definition info_example :: "int wrf_info" where
  "info_example = \<lparr>nx = 3, ny = 2, dt = Num 60, dx = Num 7, dy = Num 5,
     cen_lat = Num (-75), cen_lon = Num (-45), truelat1 = Num (-90), truelat2 = Num (-90),
     STAND_LON = Num (-45), pole_lat = Num 90, pole_lon = Num 0\<rparr>"

definition axis_var :: "string \<Rightarrow> string \<Rightarrow> int list \<Rightarrow> int nc_variable" where
  "axis_var name axis xs = \<lparr>v_datatype = ''float32'', v_dimensions = [name],
     v_attrs = [(''units'', Str ''m''), (''axis'', Str axis)],
     v_data = Some \<lparr>arr_shape = [length xs], arr_flat = xs\<rparr>\<rparr>"

definition dst8_example :: "int nc_dataset" where
  "dst8_example = dst6_example\<lparr>nc_variables := nc_variables dst6_example @
     [(''south_north'', axis_var ''south_north'' ''y'' [-78000, -77995]),
      (''west_east'', axis_var ''west_east'' ''x'' [-123000, -122995, -122990])]\<rparr>"

definition dst_example :: "int nc_dataset" where
  "dst_example = dst8_example\<lparr>nc_variables := nc_variables dst8_example @ wind_file_vars\<rparr>"

text \<open>A coordinate file whose \<^verbatim>\<open>south_north\<close> dimension has length 1.\<close>

definition coord_unit_row :: "int nc_dataset" where
  "coord_unit_row = \<lparr>
     nc_attrs = [(''TITLE'', Str ''OUTPUT FROM WRF'')],
     nc_dimensions = [(''Time'', \<lparr>dim_size = 1, dim_unlimited = True\<rparr>),
       (''south_north'', \<lparr>dim_size = 1, dim_unlimited = False\<rparr>),
       (''west_east'', \<lparr>dim_size = 3, dim_unlimited = False\<rparr>)],
     nc_variables =
       [(''XLAT'', \<lparr>v_datatype = ''float32'', v_dimensions = grid_dims,
           v_attrs = [(''units'', Str ''degree_north'')],
           v_data = Some \<lparr>arr_shape = [1, 1, 3], arr_flat = [-78, -78, -78]\<rparr>\<rparr>),
        (''XLONG'', \<lparr>v_datatype = ''float32'', v_dimensions = grid_dims,
           v_attrs = [(''units'', Str ''degree_east'')],
           v_data = Some \<lparr>arr_shape = [1, 1, 3], arr_flat = [-123, -122, -121]\<rparr>\<rparr>)],
     nc_isopen = False\<rparr>"

definition fs_unit_row :: "string \<Rightarrow> int nc_dataset option" where
  "fs_unit_row path =
     (if path = src_path then Some src_example
      else if path = coord_path then Some coord_unit_row else None)"

definition fs_example :: "string \<Rightarrow> int nc_dataset option" where
  "fs_example path =
     (if path = src_path then Some src_example
      else if path = coord_path then Some coord_example else None)"

text \<open>A stand-in for \<^verbatim>\<open>wrf.getvar\<close> on a variable of the dataset: the array is
  named after the variable, carries its attributes and a projection object, and has
  the two-dimensional coordinates.\<close>

definition getvar_example :: "int nc_dataset \<Rightarrow> string \<Rightarrow> timeidx \<Rightarrow> py_error + int data_array" where
  "getvar_example dst name t =
     (case map_of (nc_variables dst) name of
        None \<Rightarrow> Inl ValueError
      | Some v \<Rightarrow>
          Inr \<lparr>da_name = Some name,
               da_variable = \<lparr>xdims = v_dimensions v, xdata = nc_read lib_int dst v,
                  xattrs = v_attrs v @
                    [(''projection'', Obj ''PolarStereographic(stand_lon=-45.0)'')]\<rparr>,
               da_coords =
                 [(''XLONG'', \<lparr>xdims = [''south_north'', ''west_east''],
                     xdata = \<lparr>arr_shape = [2, 3], arr_flat = xlong0\<rparr>, xattrs = []\<rparr>),
                  (''XLAT'', \<lparr>xdims = [''south_north'', ''west_east''],
                     xdata = \<lparr>arr_shape = [2, 3], arr_flat = xlat0\<rparr>, xattrs = []\<rparr>)]\<rparr>)"

text \<open>A Dataset as \<^verbatim>\<open>wrf.getvar\<close> and \<^verbatim>\<open>xr.merge\<close> leave it in cell 13, cut down to one
  grid point.\<close>

definition wind_attrs :: "(string, int attr_value) dict" where
  "wind_attrs =
     [(''FieldType'', Num 104), (''MemoryOrder'', Str ''XY ''), (''units'', Str ''m s-1''),
      (''coordinates'', Str ''XLONG XLAT XTIME''),
      (''projection'', Obj ''PolarStereographic(stand_lon=-45.0)'')]"

definition wind_var :: "int xr_variable" where
  "wind_var = \<lparr>xdims = [''Time'', ''south_north'', ''west_east''],
               xdata = \<lparr>arr_shape = [1, 1, 1], arr_flat = [0]\<rparr>,
               xattrs = wind_attrs\<rparr>"

definition ds_example :: "int xr_dataset" where
  "ds_example = \<lparr>xr_variables = map (\<lambda>n. (n, wind_var)) my_vars, xr_coord_names = []\<rparr>"

definition show_int :: "int \<Rightarrow> string" where
  "show_int i = (if i = 104 then ''104'' else ''0'')"

definition ds_fixed :: "int xr_dataset" where
  "ds_fixed = \<lparr>xr_variables = map (\<lambda>n. (n, wind_var\<lparr>xattrs :=
     [(''FieldType'', Num 104), (''MemoryOrder'', Str ''XY ''), (''units'', Str ''m s-1''),
      (''projection'', Str ''PolarStereographic(stand_lon=-45.0)'')]\<rparr>)) my_vars,
     xr_coord_names = []\<rparr>"

text \<open>
  Stand-ins for the two xarray calls: writing raises when an attribute holds an object,
  and reading \<^verbatim>\<open>test.nc\<close> gives a Dataset.
\<close>

definition to_netcdf_example :: "int xr_dataset \<Rightarrow> string \<Rightarrow> py_error option" where
  "to_netcdf_example ds path =
     (if list_all (\<lambda>(n, v). list_all (\<lambda>(a, x). case x of Obj _ \<Rightarrow> False | _ \<Rightarrow> True) (xattrs v))
           (xr_variables ds)
      then None else Some TypeError)"

definition libs_example :: "int libs" where
  "libs_example = \<lparr>lib_import = None, lib_numpy = lib_int, lib_wrf = wrf_example,
     lib_getvar = getvar_example, lib_str = show_int, lib_files = fs_example,
     lib_to_netcdf = to_netcdf_example,
     lib_open_dataset = (\<lambda>path. if path = ''test.nc'' then Inr ds_fixed else Inl OSError)\<rparr>"

section \<open>Basic facts\<close>

lemma bind_Inr_iff: "bind m f = Inr y \<longleftrightarrow> (\<exists>x. m = Inr x \<and> f x = Inr y)"
  by (cases m) (simp_all add: bind_def)

lemma dict_getitem_Inr: "dict_getitem d k = Inr v \<longleftrightarrow> map_of d k = Some v"
  by (simp add: dict_getitem_def split: option.splits)

lemma dict_pop_Inr:
  "dict_pop d k = Inr r \<longleftrightarrow> (\<exists>v. map_of d k = Some v \<and> r = (v, AList.delete k d))"
  by (auto simp: dict_pop_def split: option.splits)

lemma update_keys_present:
  "map_of d k = Some v \<Longrightarrow> map fst (AList.update k v' d) = map fst d"
  by (induction d) (auto split: if_splits)

section \<open>The attribute fix (cell 14)\<close>

lemma fix_var_Inr:
  "fix_var show_num ds n = Inr ds' \<longleftrightarrow>
     (\<exists>v p c. map_of (xr_variables ds) n = Some v \<and> map_of (xattrs v) ''projection'' = Some p \<and>
        map_of (xattrs v) ''coordinates'' = Some c \<and>
        ds' = ds\<lparr>xr_variables := AList.update n
                (v\<lparr>xattrs := AList.delete ''coordinates''
                     (AList.update ''projection'' (Str (py_str show_num p)) (xattrs v))\<rparr>)
                (xr_variables ds)\<rparr>)"
  by (auto simp: fix_var_def bind_Inr_iff dict_getitem_Inr dict_pop_Inr dict_setitem_def Let_def
      update_conv')

lemma fix_attrs_other:
  "fix_attrs show_num ns ds = Inr ds' \<Longrightarrow> m \<notin> set ns \<Longrightarrow>
     map_of (xr_variables ds') m = map_of (xr_variables ds) m"
proof (induction ns arbitrary: ds)
  case Nil
  then show ?case by simp
next
  case (Cons n ns)
  from Cons.prems(1) obtain d1 where s: "fix_var show_num ds n = Inr d1"
    and r: "fix_attrs show_num ns d1 = Inr ds'"
    by (auto simp: bind_Inr_iff)
  from s Cons.prems(2) have "map_of (xr_variables d1) m = map_of (xr_variables ds) m"
    by (auto simp: fix_var_Inr update_conv')
  with Cons.IH[OF r] Cons.prems(2) show ?case by simp
qed

lemma fix_attrs_var:
  "fix_attrs show_num ns ds = Inr ds' \<Longrightarrow> distinct ns \<Longrightarrow> n \<in> set ns \<Longrightarrow>
     \<exists>v p. map_of (xr_variables ds) n = Some v \<and> map_of (xattrs v) ''projection'' = Some p \<and>
       map_of (xattrs v) ''coordinates'' \<noteq> None \<and>
       map_of (xr_variables ds') n =
         Some (v\<lparr>xattrs := AList.delete ''coordinates''
                 (AList.update ''projection'' (Str (py_str show_num p)) (xattrs v))\<rparr>)"
proof (induction ns arbitrary: ds)
  case Nil
  then show ?case by simp
next
  case (Cons a ns)
  from Cons.prems(1) obtain d1 where s: "fix_var show_num ds a = Inr d1"
    and r: "fix_attrs show_num ns d1 = Inr ds'"
    by (auto simp: bind_Inr_iff)
  show ?case
  proof (cases "n = a")
    case True
    with Cons.prems(2) have "n \<notin> set ns" by simp
    from fix_attrs_other[OF r this]
    have "map_of (xr_variables ds') n = map_of (xr_variables d1) n" .
    with s True show ?thesis by (auto simp: fix_var_Inr update_conv')
  next
    case False
    with Cons.prems have "n \<in> set ns" "distinct ns" by simp_all
    from Cons.IH[OF r this(2) this(1)] s False show ?thesis
      by (auto simp: fix_var_Inr update_conv')
  qed
qed

lemma fix_attrs_names:
  "fix_attrs show_num ns ds = Inr ds' \<Longrightarrow>
     map fst (xr_variables ds') = map fst (xr_variables ds) \<and>
     xr_coord_names ds' = xr_coord_names ds"
proof (induction ns arbitrary: ds)
  case Nil
  then show ?case by simp
next
  case (Cons a ns)
  from Cons.prems(1) obtain d1 where s: "fix_var show_num ds a = Inr d1"
    and r: "fix_attrs show_num ns d1 = Inr ds'"
    by (auto simp: bind_Inr_iff)
  from s have "map fst (xr_variables d1) = map fst (xr_variables ds) \<and>
      xr_coord_names d1 = xr_coord_names ds"
    by (auto simp: fix_var_Inr update_keys_present)
  with Cons.IH[OF r] show ?case by simp
qed

lemma distinct_my_vars: "distinct my_vars"
  by (simp add: my_vars_def)

lemma fix_example: "fix_attrs show_int my_vars ds_example = Inr ds_fixed"
  by (simp add: my_vars_def ds_example_def ds_fixed_def wind_var_def wind_attrs_def fix_var_def
      bind_def dict_getitem_def dict_setitem_def dict_pop_def AList.delete_eq)

text \<open>
  Claim C4. After the fix, a variable named in \<open>my_vars\<close> has the dimensions and data it
  had, and exactly the attributes it had, in the same order, except that
  \<^verbatim>\<open>projection\<close> holds the \<^verbatim>\<open>str()\<close> of its old value and
  \<^verbatim>\<open>coordinates\<close> is gone: the keys are the old keys without
  \<^verbatim>\<open>coordinates\<close>, and every other key has its old value.
\<close>

theorem fix_attrs_exact:
  assumes "fix_attrs show_num my_vars ds = Inr ds'" and "n \<in> set my_vars"
  shows "\<exists>v v' p. map_of (xr_variables ds) n = Some v \<and> map_of (xr_variables ds') n = Some v' \<and>
           map_of (xattrs v) ''projection'' = Some p \<and>
           xdims v' = xdims v \<and> xdata v' = xdata v \<and>
           map fst (xattrs v') = removeAll ''coordinates'' (map fst (xattrs v)) \<and>
           map_of (xattrs v') ''projection'' = Some (Str (py_str show_num p)) \<and>
           map_of (xattrs v') ''coordinates'' = None \<and>
           (\<forall>k. k \<noteq> ''projection'' \<and> k \<noteq> ''coordinates'' \<longrightarrow>
                map_of (xattrs v') k = map_of (xattrs v) k)"
proof -
  from fix_attrs_var[OF assms(1) distinct_my_vars assms(2)]
  obtain v p where v: "map_of (xr_variables ds) n = Some v"
    and p: "map_of (xattrs v) ''projection'' = Some p"
    and v': "map_of (xr_variables ds') n =
         Some (v\<lparr>xattrs := AList.delete ''coordinates''
                 (AList.update ''projection'' (Str (py_str show_num p)) (xattrs v))\<rparr>)"
    by blast
  have keys: "map fst (AList.delete ''coordinates''
        (AList.update ''projection'' (Str (py_str show_num p)) (xattrs v))) =
      removeAll ''coordinates'' (map fst (xattrs v))"
    by (simp add: delete_keys update_keys_present[OF p])
  show ?thesis
    using v v' p keys by (simp add: delete_conv' update_conv')
qed

theorem fix_attrs_exact_witness:
  "\<exists>v v' p. map_of (xr_variables ds_example) ''V10MEAN'' = Some v \<and>
     map_of (xr_variables ds_fixed) ''V10MEAN'' = Some v' \<and>
     map_of (xattrs v) ''projection'' = Some p \<and>
     xdims v' = xdims v \<and> xdata v' = xdata v \<and>
     map fst (xattrs v') = removeAll ''coordinates'' (map fst (xattrs v)) \<and>
     map_of (xattrs v') ''projection'' = Some (Str (py_str show_int p)) \<and>
     map_of (xattrs v') ''coordinates'' = None \<and>
     (\<forall>k. k \<noteq> ''projection'' \<and> k \<noteq> ''coordinates'' \<longrightarrow>
          map_of (xattrs v') k = map_of (xattrs v) k)"
proof -
  have "''V10MEAN'' \<in> set my_vars" by (simp add: my_vars_def)
  from fix_attrs_exact[OF fix_example this] show ?thesis .
qed

text \<open>
  Claim C2, as stated: the fix leaves every attribute other than \<^verbatim>\<open>projection\<close>
  unchanged. It does not: the loop body also pops \<^verbatim>\<open>coordinates\<close>. On the
  example Dataset the attribute is there before the fix and absent after it.
\<close>

theorem fix_attrs_only_projection_counterexample:
  "fix_attrs show_int my_vars ds_example = Inr ds_fixed \<and>
   map_option (\<lambda>a. a ''coordinates'') (attrs_of ds_example ''SPDUV10MEAN'') =
     Some (Some (Str ''XLONG XLAT XTIME'')) \<and>
   map_option (\<lambda>a. a ''coordinates'') (attrs_of ds_fixed ''SPDUV10MEAN'') = Some None"
  by (simp add: fix_example)
    (simp add: attrs_of_def ds_example_def ds_fixed_def my_vars_def wind_var_def wind_attrs_def)

text \<open>
  Claim C2, amended. For every name in \<open>my_vars\<close> the fix replaces the
  \<^verbatim>\<open>projection\<close> attribute by its string form, removes the
  \<^verbatim>\<open>coordinates\<close> attribute, and leaves every other attribute of that variable
  unchanged; variables not named in \<open>my_vars\<close> keep all their attributes.
\<close>

theorem fix_attrs_patch:
  assumes "fix_attrs show_num my_vars ds = Inr ds'"
  shows "(\<forall>n \<in> set my_vars. \<exists>a p. attrs_of ds n = Some a \<and> a ''projection'' = Some p \<and>
            attrs_of ds' n =
              Some (a(''projection'' \<mapsto> Str (py_str show_num p), ''coordinates'' := None))) \<and>
         (\<forall>m. m \<notin> set my_vars \<longrightarrow> attrs_of ds' m = attrs_of ds m)"
proof (intro conjI ballI allI impI)
  fix n assume "n \<in> set my_vars"
  from fix_attrs_var[OF assms distinct_my_vars this]
  show "\<exists>a p. attrs_of ds n = Some a \<and> a ''projection'' = Some p \<and>
      attrs_of ds' n = Some (a(''projection'' \<mapsto> Str (py_str show_num p), ''coordinates'' := None))"
    by (auto simp: attrs_of_def delete_conv' update_conv')
next
  fix m assume "m \<notin> set my_vars"
  from fix_attrs_other[OF assms this] show "attrs_of ds' m = attrs_of ds m"
    by (simp add: attrs_of_def)
qed

theorem fix_attrs_patch_witness:
  "(\<exists>a p. attrs_of ds_example ''U10MEAN'' = Some a \<and> a ''projection'' = Some p \<and>
      attrs_of ds_fixed ''U10MEAN'' =
        Some (a(''projection'' \<mapsto> Str (py_str show_int p), ''coordinates'' := None))) \<and>
   attrs_of ds_fixed ''XLAT'' = attrs_of ds_example ''XLAT''"
proof -
  have m: "''U10MEAN'' \<in> set my_vars" and n: "''XLAT'' \<notin> set my_vars"
    by (simp_all add: my_vars_def)
  from fix_attrs_patch[OF fix_example] m n show ?thesis
    by blast
qed

section \<open>The projected axes (cells 7 and 8)\<close>

lemma axis_points_Inr:
  "axis_points lib n spacing origin = Inr a \<longleftrightarrow>
     (\<exists>d. spacing = Num d \<and>
        a = \<lparr>arr_shape = [n],
             arr_flat = map (\<lambda>i. np_add lib (np_multiply lib (arange_elem lib i) d) origin)
                          [0..<n]\<rparr>)"
  by (cases spacing) (auto simp: axis_points_def)

lemma nc_getattr_Inr: "nc_getattr ds k = Inr v \<longleftrightarrow> map_of (nc_attrs ds) k = Some v"
  by (simp add: nc_getattr_def split: option.splits)

lemma cell7_Inr:
  assumes "cell7 dst = Inr info"
  shows "map_of (nc_attrs dst) ''DY'' = Some (dy info)"
    and "map_of (nc_attrs dst) ''DX'' = Some (dx info)"
    and "\<exists>we. map_of (nc_dimensions dst) ''west_east'' = Some we \<and> nx info = dim_size we"
    and "\<exists>sn. map_of (nc_dimensions dst) ''south_north'' = Some sn \<and> ny info = dim_size sn"
  using assms unfolding cell7_def bind_Inr_iff dict_getitem_Inr nc_getattr_Inr
  by auto

lemma cell7_example: "cell7 dst6_example = Inr info_example"
  by code_simp

lemma cell8_example: "cell8 lib_int wrf_example info_example dst6_example = Inr dst8_example"
  by code_simp

text \<open>
  Claim C10. When cells 7 and 8 run through, both axes are built from the one spacing
  \<open>d\<close>, the number held by the global attribute \<^verbatim>\<open>DY\<close>: element \<open>i\<close> of
  \<^verbatim>\<open>west_east_points\<close> is \<open>i * d + x0\<close> and element \<open>j\<close> of
  \<^verbatim>\<open>south_north_points\<close> is \<open>j * d + y0\<close> (in the arithmetic of the arrays), where
  \<open>(x0, y0)\<close> is the transformed corner point; the axes have \<open>nx\<close> and \<open>ny\<close> elements.
  The value read from \<^verbatim>\<open>DX\<close> plays no part: with any other value in its place the
  west-east axis and the whole of cell 8 give the same result.
\<close>

theorem projected_axes_spacing:
  assumes "cell7 dst = Inr info"
    and "cell8 lib wrf info dst = Inr dst'"
  shows "\<exists>x0 y0 d we sn.
           corner_point lib wrf dst = Inr (x0, y0) \<and>
           map_of (nc_attrs dst) ''DY'' = Some (Num d) \<and>
           west_east_points lib info (x0, y0) = Inr we \<and>
           south_north_points lib info (x0, y0) = Inr sn \<and>
           arr_shape we = [nx info] \<and> length (arr_flat we) = nx info \<and>
           arr_shape sn = [ny info] \<and> length (arr_flat sn) = ny info \<and>
           (\<forall>i < nx info. arr_flat we ! i =
               np_add lib (np_multiply lib (arange_elem lib i) d) x0) \<and>
           (\<forall>j < ny info. arr_flat sn ! j =
               np_add lib (np_multiply lib (arange_elem lib j) d) y0) \<and>
           (\<forall>v. west_east_points lib (info\<lparr>dx := v\<rparr>) (x0, y0) = Inr we) \<and>
           (\<forall>v. cell8 lib wrf (info\<lparr>dx := v\<rparr>) dst = Inr dst')"
proof -
  from assms(2) obtain p we sn where p: "corner_point lib wrf dst = Inr p"
    and we0: "west_east_points lib info p = Inr we"
    and sn0: "south_north_points lib info p = Inr sn"
    unfolding cell8_def bind_Inr_iff by blast
  obtain x0 y0 where xy: "p = (x0, y0)" by (cases p)
  from we0 xy obtain d where d: "dy info = Num d"
    and we: "we = \<lparr>arr_shape = [nx info],
       arr_flat = map (\<lambda>i. np_add lib (np_multiply lib (arange_elem lib i) d) x0)
                    [0..<nx info]\<rparr>"
    by (auto simp: west_east_points_def axis_points_Inr)
  from sn0 xy d have sn: "sn = \<lparr>arr_shape = [ny info],
       arr_flat = map (\<lambda>i. np_add lib (np_multiply lib (arange_elem lib i) d) y0)
                    [0..<ny info]\<rparr>"
    by (auto simp: south_north_points_def axis_points_Inr)
  have dx1: "\<forall>v. west_east_points lib (info\<lparr>dx := v\<rparr>) (x0, y0) = Inr we"
    using we0 xy by (simp add: west_east_points_def)
  have dx2: "\<forall>v. cell8 lib wrf (info\<lparr>dx := v\<rparr>) dst = Inr dst'"
    using assms(2) by (simp add: cell8_def west_east_points_def south_north_points_def)
  from cell7_Inr(1)[OF assms(1)] d have dy: "map_of (nc_attrs dst) ''DY'' = Some (Num d)"
    by simp
  show ?thesis
    apply (rule exI[of _ x0], rule exI[of _ y0], rule exI[of _ d])
    apply (rule exI[of _ we], rule exI[of _ sn])
    using p xy we0 sn0 dy dx1 dx2 by (simp add: we sn)
qed

theorem projected_axes_spacing_witness:
  "\<exists>x0 y0 d we sn.
     corner_point lib_int wrf_example dst6_example = Inr (x0, y0) \<and>
     map_of (nc_attrs dst6_example) ''DY'' = Some (Num d) \<and>
     west_east_points lib_int info_example (x0, y0) = Inr we \<and>
     south_north_points lib_int info_example (x0, y0) = Inr sn \<and>
     arr_shape we = [nx info_example] \<and> length (arr_flat we) = nx info_example \<and>
     arr_shape sn = [ny info_example] \<and> length (arr_flat sn) = ny info_example \<and>
     (\<forall>i < nx info_example. arr_flat we ! i =
         np_add lib_int (np_multiply lib_int (arange_elem lib_int i) d) x0) \<and>
     (\<forall>j < ny info_example. arr_flat sn ! j =
         np_add lib_int (np_multiply lib_int (arange_elem lib_int j) d) y0) \<and>
     (\<forall>v. west_east_points lib_int (info_example\<lparr>dx := v\<rparr>) (x0, y0) = Inr we) \<and>
     (\<forall>v. cell8 lib_int wrf_example (info_example\<lparr>dx := v\<rparr>) dst6_example = Inr dst8_example)"
  using projected_axes_spacing[OF cell7_example cell8_example] .

section \<open>Exception handling and branching (cells 4 and 11)\<close>

text \<open>
  Claim C8, as stated: no stage depends on catching an exception or on a conditional
  path. The guard of cells 4 and 11 does: with \<^verbatim>\<open>dst\<close> not yet bound its body raises
  \<^verbatim>\<open>NameError\<close> and the statement completes all the same. The dimension loop of
  cell 4 passes the length or \<^verbatim>\<open>None\<close> depending on \<^verbatim>\<open>isunlimited()\<close>.
\<close>

theorem no_handler_no_branch_counterexample:
  "close_dst (None :: int nc_dataset option) = Inl NameError \<and>
   close_guard (None :: int nc_dataset option) = Inr None \<and>
   dim_arg \<lparr>dim_size = 380, dim_unlimited = True\<rparr> = None \<and>
   dim_arg \<lparr>dim_size = 380, dim_unlimited = False\<rparr> = Some 380"
  by (simp add: close_dst_def close_guard_def dim_arg_def)

subsection \<open>The cells as statements\<close>

text \<open>
  A statement without a \<^verbatim>\<open>try\<close> raises at most one exception, the one that ends it.
\<close>

lemma iterate_clean:
  assumes body: "\<And>k. case snd (ex k) of None \<Rightarrow> rs k = [] | Some e \<Rightarrow> rs k = [e]"
  shows "case snd (iterate ex bs k) of None \<Rightarrow> iterate_raised ex rs bs k = []
         | Some e \<Rightarrow> iterate_raised ex rs bs k = [e]"
proof (induction bs arbitrary: k)
  case Nil
  show ?case by simp
next
  case (Cons b bs)
  show ?case
  proof (cases "ex (b k)")
    case (Pair k' r)
    show ?thesis
    proof (cases r)
      case None
      with Pair body [of "b k"] have "rs (b k) = []" by simp
      with Pair None Cons.IH [of k'] show ?thesis by (simp split: option.splits)
    next
      case (Some e)
      with Pair body [of "b k"] have "rs (b k) = [e]" by simp
      with Pair Some show ?thesis by simp
    qed
  qed
qed

lemma no_tries_clean_at:
  "try_statements s = [] \<Longrightarrow> (case snd (exec s k) of None \<Rightarrow> raised s k = [] | Some e \<Rightarrow> raised s k = [e])"
proof (induction s arbitrary: k)
  case (SCall f)
  show ?case by (cases "f k") simp_all
next
  case (SSeq a b)
  then have a: "case snd (exec a k) of None \<Rightarrow> raised a k = [] | Some e \<Rightarrow> raised a k = [e]"
    and b: "\<And>k. case snd (exec b k) of None \<Rightarrow> raised b k = [] | Some e \<Rightarrow> raised b k = [e]"
    by simp_all
  show ?case
  proof (cases "exec a k")
    case (Pair k' r)
    with a b [of k'] show ?thesis by (cases r) (simp_all split: option.splits)
  qed
next
  case (SFor items body)
  then have body: "\<And>k. case snd (exec body k) of None \<Rightarrow> raised body k = [] | Some e \<Rightarrow> raised body k = [e]"
    by simp
  show ?case
  proof (cases "items k")
    case (Inl e)
    then show ?thesis by simp
  next
    case (Inr bs)
    with iterate_clean [where ex = "exec body" and rs = "raised body" and bs = bs and k = k, OF body] show ?thesis by (simp split: option.splits)
  qed
next
  case (SIf cond a b)
  then have a: "case snd (exec a k) of None \<Rightarrow> raised a k = [] | Some e \<Rightarrow> raised a k = [e]"
    and b: "case snd (exec b k) of None \<Rightarrow> raised b k = [] | Some e \<Rightarrow> raised b k = [e]"
    by simp_all
  show ?case
  proof (cases "cond k")
    case (Inl e)
    then show ?thesis by simp
  next
    case (Inr t)
    with a b show ?thesis by (simp split: option.splits)
  qed
next
  case (STry s1 E s2)
  then show ?case by simp
next
  case SPass
  show ?case by simp
qed

lemma no_tries_clean: "try_statements s = [] \<Longrightarrow> clean s"
  by (simp add: clean_def no_tries_clean_at)

lemma try_pass_at:
  assumes "clean body"
  shows "case snd (exec (STry body E SPass) k) of
           None \<Rightarrow> raised (STry body E SPass) k = [] \<or> raised (STry body E SPass) k = [E]
         | Some e \<Rightarrow> raised (STry body E SPass) k = [e]"
proof (cases "exec body k")
  case (Pair k' r)
  from assms have "case snd (exec body k) of None \<Rightarrow> raised body k = [] | Some e \<Rightarrow> raised body k = [e]"
    unfolding clean_def by blast
  with Pair show ?thesis by (cases r) simp_all
qed

lemma clean_guarded: "clean s \<Longrightarrow> guarded E s"
  unfolding clean_def guarded_def
proof
  fix k
  assume "\<forall>k. case snd (exec s k) of None \<Rightarrow> raised s k = [] | Some e \<Rightarrow> raised s k = [e]"
  then have "case snd (exec s k) of None \<Rightarrow> raised s k = [] | Some e \<Rightarrow> raised s k = [e]" by blast
  then show "case snd (exec s k) of None \<Rightarrow> raised s k = [] \<or> raised s k = [E]
      | Some e \<Rightarrow> raised s k = [e] \<or> raised s k = [E, e]"
    by (cases "snd (exec s k)") simp_all
qed

lemma try_pass_guarded: "clean body \<Longrightarrow> guarded E (STry body E SPass)"
  unfolding guarded_def
proof
  fix k
  assume "clean body"
  from try_pass_at [OF this, of E k]
  show "case snd (exec (STry body E SPass) k) of
      None \<Rightarrow> raised (STry body E SPass) k = [] \<or> raised (STry body E SPass) k = [E]
    | Some e \<Rightarrow> raised (STry body E SPass) k = [e] \<or> raised (STry body E SPass) k = [E, e]"
    by (cases "snd (exec (STry body E SPass) k)") simp_all
qed

lemma seq_guarded:
  assumes a: "guarded E a" and b: "clean b"
  shows "guarded E (SSeq a b)"
  unfolding guarded_def
proof
  fix k
  from a have ak: "case snd (exec a k) of None \<Rightarrow> raised a k = [] \<or> raised a k = [E]
      | Some e \<Rightarrow> raised a k = [e] \<or> raised a k = [E, e]"
    unfolding guarded_def by blast
  show "case snd (exec (SSeq a b) k) of
      None \<Rightarrow> raised (SSeq a b) k = [] \<or> raised (SSeq a b) k = [E]
    | Some e \<Rightarrow> raised (SSeq a b) k = [e] \<or> raised (SSeq a b) k = [E, e]"
  proof (cases "exec a k")
    case (Pair k' r)
    from b have bk: "case snd (exec b k') of None \<Rightarrow> raised b k' = [] | Some e \<Rightarrow> raised b k' = [e]"
      unfolding clean_def by blast
    show ?thesis
    proof (cases r)
      case None
      with Pair ak bk show ?thesis by (cases "snd (exec b k')") auto
    next
      case (Some e)
      with Pair ak show ?thesis by simp
    qed
  qed
qed

lemma guarded_seq:
  assumes a: "clean a" and b: "guarded E b"
  shows "guarded E (SSeq a b)"
  unfolding guarded_def
proof
  fix k
  from a have ak: "case snd (exec a k) of None \<Rightarrow> raised a k = [] | Some e \<Rightarrow> raised a k = [e]"
    unfolding clean_def by blast
  show "case snd (exec (SSeq a b) k) of
      None \<Rightarrow> raised (SSeq a b) k = [] \<or> raised (SSeq a b) k = [E]
    | Some e \<Rightarrow> raised (SSeq a b) k = [e] \<or> raised (SSeq a b) k = [E, e]"
  proof (cases "exec a k")
    case (Pair k' r)
    from b have bk: "case snd (exec b k') of None \<Rightarrow> raised b k' = [] \<or> raised b k' = [E]
        | Some e \<Rightarrow> raised b k' = [e] \<or> raised b k' = [E, e]"
      unfolding guarded_def by blast
    show ?thesis
    proof (cases r)
      case None
      with Pair ak bk show ?thesis by (cases "snd (exec b k')") auto
    next
      case (Some e)
      with Pair ak show ?thesis by simp
    qed
  qed
qed

lemmas stmt_defs = cell1_stmt_def cell2_stmt_def cell3_stmt_def cell4_stmt_def cell5_stmt_def cell6_stmt_def
  cell7_stmt_def cell8_stmt_def cell9_stmt_def cell10_stmt_def cell11_stmt_def cell12_stmt_def
  cell13_stmt_def cell14_stmt_def cell15_stmt_def cell16_stmt_def cell17_stmt_def
  open_stmt_def guard_stmt_def create_dimension_def coord_statements_def append_getvar_def
  fix_statements_def assign_variable_def create_variable_def set_attributes_def
  copy_statements_def for_names_def assign_size_def assign_attrs2_def assign_attrs3_def
  assign_points_def axis_statements_def show_stmt_def to_netcdf_stmt_def show_attrs_stmt_def

lemma notebook_try_statements:
  "map (\<lambda>(n, c). (n, try_statements c)) (notebook L) =
     [(1, []), (2, []), (3, []), (4, [guard_stmt]), (5, []), (6, []), (7, []), (8, []), (9, []),
      (10, []), (11, [guard_stmt]), (12, []), (13, []), (14, []), (15, []), (16, []), (17, [])]"
  by (simp add: notebook_def stmt_defs)

lemma notebook_conditionals:
  "map (\<lambda>(n, c). (n, conditionals c)) (notebook L) =
     [(1, 0), (2, 0), (3, 0), (4, 1), (5, 0), (6, 0), (7, 0), (8, 0), (9, 0),
      (10, 0), (11, 0), (12, 0), (13, 0), (14, 0), (15, 0), (16, 0), (17, 0)]"
  by (simp add: notebook_def stmt_defs)

lemma notebook_retries: "list_all (\<lambda>(n, c). retries c = 0) (notebook L)"
  by (simp add: notebook_def stmt_defs)

lemma notebook_clean:
  assumes "(n, c) \<in> set (notebook L)" and "n \<noteq> 4" and "n \<noteq> 11"
  shows "clean c"
proof (rule no_tries_clean)
  from assms have "(n, try_statements c) \<in> set (map (\<lambda>(n, c). (n, try_statements c)) (notebook L))"
    by force
  with assms(2,3) show "try_statements c = []"
    unfolding notebook_try_statements by auto
qed

lemma guard_body_clean:
  "clean (seq [SCall (\<lambda>k. Inr k),
                SCall (\<lambda>k. bind (get_dataset k ''dst'') (\<lambda>d.
                           bind (nc_close d) (\<lambda>d'.
                           Inr (k(''dst'' \<mapsto> VDataset d')))))])"
  by (rule no_tries_clean) simp

lemma guard_at:
  "case snd (exec guard_stmt k) of
     None \<Rightarrow> raised guard_stmt k = [] \<or> raised guard_stmt k = [NameError]
   | Some e \<Rightarrow> raised guard_stmt k = [e]"
  unfolding guard_stmt_def by (rule try_pass_at [OF guard_body_clean])

lemma guard_guarded: "guarded NameError guard_stmt"
  unfolding guard_stmt_def by (rule try_pass_guarded [OF guard_body_clean])

lemma cell4_guarded: "guarded NameError (cell4_stmt L)"
  unfolding cell4_stmt_def seq.simps
  apply (rule guarded_seq)
   apply (rule no_tries_clean)
   apply (simp add: open_stmt_def)
  apply (rule seq_guarded)
   apply (rule guard_guarded)
  apply (rule no_tries_clean)
  apply (simp add: create_dimension_def)
  done

lemma guard_handles:
  "raised guard_stmt k = [NameError] \<longleftrightarrow> k ''dst'' = None"
  by (simp add: guard_stmt_def get_dataset_def lookup_def bind_def nc_close_def
      split: option.splits pyval.splits sum.splits)

text \<open>
  The statements on the example files: the first run of cell 4 finds \<^verbatim>\<open>dst\<close> unbound,
  cells 1 to 9 leave the destination that the copy stage computes, and the first
  \<^verbatim>\<open>to_netcdf\<close> raises.
\<close>

lemma notebook_example_guard:
  "outcomes (take 4 (notebook libs_example)) Map.empty =
     [(1, None, []), (2, None, []), (3, None, []), (4, None, [NameError])]"
  by code_simp

lemma notebook_example_dst:
  "run_cells (take 9 (notebook libs_example)) Map.empty ''dst'' = Some (VDataset dst_example)"
  by code_simp

lemma notebook_example_wrf:
  "outcomes (drop 9 (notebook libs_example))
     [''my_vars'' \<mapsto> VStrs my_vars, ''dst'' \<mapsto> VDataset dst_example] =
     [(10, None, []), (11, None, []), (12, Some TypeError, [TypeError]), (13, None, []),
      (14, None, []), (15, None, []), (16, None, []), (17, None, [])]"
  by code_simp

text \<open>
  Claim C8, amended. The code cells are sequences of calls and \<^verbatim>\<open>for\<close> loops with two
  \<^verbatim>\<open>try\<close> statements and one conditional: the \<^verbatim>\<open>try\<close> statements are the guard
  around \<^verbatim>\<open>dst.close()\<close> in cells 4 and 11, which handles \<^verbatim>\<open>NameError\<close> by
  \<^verbatim>\<open>pass\<close>, and the conditional is the choice between the length and \<^verbatim>\<open>None\<close> in the
  dimension loop of cell 4. No \<^verbatim>\<open>try\<close> statement is inside a loop: nothing is tried
  again. The guard handles an exception exactly when \<^verbatim>\<open>dst\<close> is not bound. In every
  run of a cell, from any bindings: when the cell completes, no exception was raised in
  it, except one handled \<^verbatim>\<open>NameError\<close> in cells 4 and 11; when it ends with an
  exception, that exception is the only one raised in it, except one handled
  \<^verbatim>\<open>NameError\<close> before it in cell 4.
\<close>

theorem handlers_and_conditionals:
  "filter (\<lambda>(n, t). t \<noteq> []) (map (\<lambda>(n, c). (n, try_statements c)) (notebook L)) =
     [(4, [guard_stmt]), (11, [guard_stmt])] \<and>
   filter (\<lambda>(n, i). i \<noteq> 0) (map (\<lambda>(n, c). (n, conditionals c)) (notebook L)) = [(4, 1)] \<and>
   list_all (\<lambda>(n, c). retries c = 0) (notebook L) \<and>
   (\<forall>k. raised guard_stmt k = [NameError] \<longleftrightarrow> k ''dst'' = None) \<and>
   (\<forall>(n, c) \<in> set (notebook L). \<forall>k.
      case snd (exec c k) of
        None \<Rightarrow> raised c k = [] \<or> (n = 4 \<or> n = 11) \<and> raised c k = [NameError]
      | Some e \<Rightarrow> raised c k = [e] \<or> n = 4 \<and> raised c k = [NameError, e])"
proof -
  have a: "filter (\<lambda>(n, t). t \<noteq> []) (map (\<lambda>(n, c). (n, try_statements c)) (notebook L)) =
     [(4, [guard_stmt]), (11, [guard_stmt])]"
    unfolding notebook_try_statements by simp
  have b: "filter (\<lambda>(n, i). i \<noteq> 0) (map (\<lambda>(n, c). (n, conditionals c)) (notebook L)) = [(4, 1)]"
    unfolding notebook_conditionals by simp
  have e: "case snd (exec c k) of
        None \<Rightarrow> raised c k = [] \<or> (n = 4 \<or> n = 11) \<and> raised c k = [NameError]
      | Some e \<Rightarrow> raised c k = [e] \<or> n = 4 \<and> raised c k = [NameError, e]"
    if m: "(n, c) \<in> set (notebook L)" for n c k
  proof -
    consider "n = 4" | "n = 11" | "n \<noteq> 4" "n \<noteq> 11" by blast
    then show ?thesis
    proof cases
      case 1
      with m have "c = cell4_stmt L" by (simp add: notebook_def)
      moreover from cell4_guarded [of L]
      have "case snd (exec (cell4_stmt L) k) of
          None \<Rightarrow> raised (cell4_stmt L) k = [] \<or> raised (cell4_stmt L) k = [NameError]
        | Some e \<Rightarrow> raised (cell4_stmt L) k = [e] \<or> raised (cell4_stmt L) k = [NameError, e]"
        unfolding guarded_def by blast
      ultimately show ?thesis using 1
        by (simp split: option.splits)
    next
      case 2
      with m have "c = guard_stmt" by (simp add: notebook_def cell11_stmt_def)
      with guard_at [of k] 2 show ?thesis
        by (simp split: option.splits)
    next
      case 3
      with m have "clean c" by (rule notebook_clean)
      then have "case snd (exec c k) of None \<Rightarrow> raised c k = [] | Some e \<Rightarrow> raised c k = [e]"
        unfolding clean_def by blast
      then show ?thesis by (simp split: option.splits)
    qed
  qed
  from a b notebook_retries guard_handles e show ?thesis by blast
qed

theorem handlers_and_conditionals_witness:
  "(12, cell12_stmt libs_example) \<in> set (notebook libs_example) \<and>
   snd (exec (cell12_stmt libs_example) [''ds'' \<mapsto> VXr ds_example]) = Some TypeError \<and>
   raised (cell12_stmt libs_example) [''ds'' \<mapsto> VXr ds_example] = [TypeError]"
proof -
  have m: "(12, cell12_stmt libs_example) \<in> set (notebook libs_example)"
    by (simp add: notebook_def)
  have e: "snd (exec (cell12_stmt libs_example) [''ds'' \<mapsto> VXr ds_example]) = Some TypeError"
    by code_simp
  from handlers_and_conditionals [of libs_example] m
  have "case snd (exec (cell12_stmt libs_example) [''ds'' \<mapsto> VXr ds_example]) of
        None \<Rightarrow> raised (cell12_stmt libs_example) [''ds'' \<mapsto> VXr ds_example] = [] \<or>
          ((12::nat) = 4 \<or> (12::nat) = 11) \<and>
          raised (cell12_stmt libs_example) [''ds'' \<mapsto> VXr ds_example] = [NameError]
      | Some e \<Rightarrow> raised (cell12_stmt libs_example) [''ds'' \<mapsto> VXr ds_example] = [e] \<or>
          (12::nat) = 4 \<and> raised (cell12_stmt libs_example) [''ds'' \<mapsto> VXr ds_example] = [NameError, e]"
    by blast
  with m e show ?thesis by simp
qed

section \<open>The statements and the functions of the cells\<close>

text \<open>
  The statements of cells 4 to 9 compute what the functions of the copy stage compute:
  from a kernel where \<^verbatim>\<open>root_dir\<close> and \<^verbatim>\<open>my_vars\<close> are bound as in cell 3, they end
  with the same exception, or complete and leave the same dataset bound to \<^verbatim>\<open>dst\<close>.
\<close>

lemmas get_defs = get_dataset_def get_dimension_def get_variable_def get_str_def get_strs_def
  get_nat_def get_attr_def get_array_def get_point_def get_arrays_def get_xr_def lookup_def

lemma exec_seq_Some: "snd (exec a k) = Some e \<Longrightarrow> snd (exec (SSeq a b) k) = Some e"
  by (cases "exec a k") simp

lemma exec_seq_None: "snd (exec a k) = None \<Longrightarrow> exec (SSeq a b) k = exec b (fst (exec a k))"
  by (cases "exec a k") simp

lemma exec_create_dimension:
  assumes "k ''dst'' = Some (VDataset d)" "k ''name'' = Some (VStr n)"
    "k ''dimension'' = Some (VDimension dim)"
  shows "exec create_dimension k =
     (case createDimension d n (dim_arg dim) of
        Inl e \<Rightarrow> (k, Some e)
      | Inr d' \<Rightarrow> (k(''dst'' \<mapsto> VDataset d'), None))"
  using assms
  by (simp add: create_dimension_def get_defs bind_def dim_arg_def split: sum.splits)

lemma dimension_loop:
  assumes "k ''dst'' = Some (VDataset d)"
  shows "case copy_dimensions dims d of
       Inl e \<Rightarrow> snd (iterate (exec create_dimension) (map bind_dimension dims) k) = Some e
     | Inr d' \<Rightarrow>
         snd (iterate (exec create_dimension) (map bind_dimension dims) k) = None \<and>
         fst (iterate (exec create_dimension) (map bind_dimension dims) k) ''dst'' =
           Some (VDataset d') \<and>
         (\<forall>x. x \<noteq> ''dst'' \<and> x \<noteq> ''name'' \<and> x \<noteq> ''dimension'' \<longrightarrow>
            fst (iterate (exec create_dimension) (map bind_dimension dims) k) x = k x)"
  using assms
proof (induction dims arbitrary: k d)
  case Nil
  then show ?case by simp
next
  case (Cons p dims)
  obtain n dim where p: "p = (n, dim)" by (cases p)
  let ?k1 = "k(''name'' \<mapsto> VStr n, ''dimension'' \<mapsto> VDimension dim)"
  have e: "exec create_dimension ?k1 =
     (case createDimension d n (dim_arg dim) of
        Inl e \<Rightarrow> (?k1, Some e)
      | Inr d' \<Rightarrow> (?k1(''dst'' \<mapsto> VDataset d'), None))"
    by (rule exec_create_dimension) (simp_all add: Cons.prems)
  have b: "bind_dimension p k = ?k1" by (simp add: bind_dimension_def p)
  show ?case
  proof (cases "createDimension d n (dim_arg dim)")
    case (Inl e')
    with e p show ?thesis unfolding list.map iterate.simps b by (simp add: bind_def)
  next
    case (Inr d1)
    from Cons.IH [of "?k1(''dst'' \<mapsto> VDataset d1)" d1]
    show ?thesis unfolding list.map iterate.simps b using e p Inr
      by (simp add: bind_def split: sum.splits)
  qed
qed

lemma exec_cell4:
  assumes root: "k ''root_dir'' = Some (VStr root_dir)"
    and dst: "k ''dst'' = map_option VDataset old_dst"
  shows "case cell4 (lib_files L) old_dst of
           Inl e \<Rightarrow> snd (exec (cell4_stmt L) k) = Some e
         | Inr (src, d) \<Rightarrow>
             snd (exec (cell4_stmt L) k) = None \<and>
             fst (exec (cell4_stmt L) k) ''src'' = Some (VDataset src) \<and>
             fst (exec (cell4_stmt L) k) ''dst'' = Some (VDataset d) \<and>
             (\<forall>x. x \<noteq> ''src'' \<and> x \<noteq> ''dst'' \<and> x \<noteq> ''name'' \<and> x \<noteq> ''dimension'' \<longrightarrow>
                fst (exec (cell4_stmt L) k) x = k x)"
proof (cases "Dataset_open (lib_files L) src_path")
  case (Inl e)
  with root show ?thesis
    by (simp add: cell4_def cell4_stmt_def open_stmt_def get_defs bind_def src_path_def)
next
  case (Inr src)
  let ?k1 = "k(''src'' \<mapsto> VDataset src)"
  have o: "exec (open_stmt L ''src'' ''/wrfxtrm_d02'') k = (?k1, None)"
    using root Inr by (simp add: open_stmt_def get_defs bind_def src_path_def)
  have g: "exec guard_stmt ?k1 =
      (case close_guard old_dst of
         Inl e \<Rightarrow> (?k1, Some e)
       | Inr r \<Rightarrow> (case r of None \<Rightarrow> ?k1 | Some d' \<Rightarrow> ?k1(''dst'' \<mapsto> VDataset d'), None))"
    using dst
    by (cases old_dst)
      (simp_all add: guard_stmt_def close_guard_def close_dst_def get_defs bind_def nc_close_def)
  show ?thesis
  proof (cases "close_guard old_dst")
    case (Inl e)
    with o g Inr show ?thesis by (simp add: cell4_def cell4_stmt_def bind_def)
  next
    case r: (Inr r)
    let ?k2 = "case r of None \<Rightarrow> ?k1 | Some d' \<Rightarrow> ?k1(''dst'' \<mapsto> VDataset d')"
    let ?d0 = "Dataset_create\<lparr>nc_attrs := setncatts (nc_attrs Dataset_create) (nc_attrs src)\<rparr>"
    let ?k3 = "?k2(''dst'' \<mapsto> VDataset ?d0)"
    let ?it = "iterate (exec create_dimension) (map bind_dimension (nc_dimensions src)) ?k3"
    have src2: "?k2 ''src'' = Some (VDataset src)" by (cases r) simp_all
    have frame2: "x \<noteq> ''src'' \<Longrightarrow> x \<noteq> ''dst'' \<Longrightarrow> ?k2 x = k x" for x by (cases r) simp_all
    have loop: "case copy_dimensions (nc_dimensions src) ?d0 of
       Inl e \<Rightarrow> snd ?it = Some e
     | Inr d' \<Rightarrow> snd ?it = None \<and> fst ?it ''dst'' = Some (VDataset d') \<and>
         fst ?it ''src'' = Some (VDataset src) \<and>
         (\<forall>x. x \<noteq> ''src'' \<and> x \<noteq> ''dst'' \<and> x \<noteq> ''name'' \<and> x \<noteq> ''dimension'' \<longrightarrow> fst ?it x = k x)"
      using dimension_loop [where k = ?k3 and d = ?d0 and dims = "nc_dimensions src"] src2 frame2
      by (simp split: sum.splits)
    have run: "exec (cell4_stmt L) k = ?it"
      using o g r src2
      by (simp add: cell4_stmt_def get_defs bind_def)
    from loop show ?thesis
      unfolding run using Inr r
      by (simp add: cell4_def bind_def Let_def split: sum.splits)
  qed
qed

lemma exec_copy_statements:
  assumes "k ''src'' = Some (VDataset s)" "k ''dst'' = Some (VDataset d)" "k ''name'' = Some (VStr n)"
  shows "case copy_var (lib_numpy L) s d n of
      Inl e \<Rightarrow> snd (exec (seq (copy_statements L)) k) = Some e
    | Inr d' \<Rightarrow> snd (exec (seq (copy_statements L)) k) = None \<and>
        fst (exec (seq (copy_statements L)) k) ''dst'' = Some (VDataset d') \<and>
        (\<forall>x. x \<noteq> ''dst'' \<and> x \<noteq> ''variable'' \<longrightarrow> fst (exec (seq (copy_statements L)) k) x = k x)"
  using assms
  by (simp add: copy_statements_def assign_variable_def create_variable_def set_attributes_def
      copy_var_def get_defs bind_def var_setncatts_def split: sum.splits)

lemma exec_cell5:
  assumes "k ''src'' = Some (VDataset s)" "k ''dst'' = Some (VDataset d)"
  shows "case cell5 (lib_numpy L) s d of
      Inl e \<Rightarrow> snd (exec (cell5_stmt L) k) = Some e
    | Inr d' \<Rightarrow> snd (exec (cell5_stmt L) k) = None \<and>
        fst (exec (cell5_stmt L) k) ''dst'' = Some (VDataset d') \<and>
        (\<forall>x. x \<noteq> ''dst'' \<and> x \<noteq> ''variable'' \<and> x \<noteq> ''name'' \<longrightarrow>
           fst (exec (cell5_stmt L) k) x = k x)"
proof -
  let ?k1 = "k(''name'' \<mapsto> VStr ''Times'')"
  have "cell5_stmt L = SSeq (SCall (\<lambda>k. Inr (k(''name'' \<mapsto> VStr ''Times'')))) (seq (copy_statements L))"
    by (simp add: cell5_stmt_def copy_statements_def)
  then have run: "exec (cell5_stmt L) k = exec (seq (copy_statements L)) ?k1" by simp
  from exec_copy_statements [where k = ?k1 and s = s and d = d and n = "''Times''" and L = L] assms
  show ?thesis unfolding run cell5_def by (simp split: sum.splits)
qed

lemma copy_loop:
  assumes "k ''src'' = Some (VDataset s)" "k ''dst'' = Some (VDataset d)"
  shows "case copy_vars (lib_numpy L) s names d of
      Inl e \<Rightarrow> snd (iterate (exec (seq (copy_statements L))) (map (bind_name ''name'') names) k) = Some e
    | Inr d' \<Rightarrow>
        snd (iterate (exec (seq (copy_statements L))) (map (bind_name ''name'') names) k) = None \<and>
        fst (iterate (exec (seq (copy_statements L))) (map (bind_name ''name'') names) k) ''dst'' =
          Some (VDataset d')"
  using assms
proof (induction names arbitrary: k d)
  case Nil
  then show ?case by simp
next
  case (Cons n names)
  let ?k1 = "bind_name ''name'' n k"
  let ?r = "exec (seq (copy_statements L)) ?k1"
  have body: "case copy_var (lib_numpy L) s d n of
      Inl e \<Rightarrow> snd ?r = Some e
    | Inr d' \<Rightarrow> snd ?r = None \<and> fst ?r ''dst'' = Some (VDataset d') \<and>
        (\<forall>x. x \<noteq> ''dst'' \<and> x \<noteq> ''variable'' \<longrightarrow> fst ?r x = ?k1 x)"
    by (rule exec_copy_statements) (simp_all add: bind_name_def Cons.prems)
  show ?case
  proof (cases "copy_var (lib_numpy L) s d n")
    case (Inl e)
    with body have "snd ?r = Some e" by simp
    then show ?thesis using Inl by (cases ?r) (simp add: bind_def)
  next
    case (Inr d1)
    with body have r: "snd ?r = None" "fst ?r ''dst'' = Some (VDataset d1)"
      "fst ?r ''src'' = Some (VDataset s)"
      by (simp_all add: bind_name_def Cons.prems)
    from Cons.IH [OF r(3) r(2)] r(1) Inr show ?thesis
      by (cases ?r) (simp add: bind_def split: sum.splits)
  qed
qed

lemma exec_cell9:
  assumes "k ''src'' = Some (VDataset s)" "k ''dst'' = Some (VDataset d)"
    "k ''my_vars'' = Some (VStrs my_vars)"
  shows "case cell9 (lib_numpy L) s d of
      Inl e \<Rightarrow> snd (exec (cell9_stmt L) k) = Some e
    | Inr d' \<Rightarrow> snd (exec (cell9_stmt L) k) = None \<and>
        fst (exec (cell9_stmt L) k) ''dst'' = Some (VDataset d')"
proof -
  have run: "exec (cell9_stmt L) k =
      iterate (exec (seq (copy_statements L))) (map (bind_name ''name'') my_vars) k"
    using assms(3) by (simp add: cell9_stmt_def for_names_def get_defs bind_def)
  from copy_loop [OF assms(1,2), of L my_vars] show ?thesis
    unfolding run cell9_def .
qed

lemma exec_coord_statements:
  assumes "k ''coord_file'' = Some (VDataset c)" "k ''dst'' = Some (VDataset d)"
    "k ''name'' = Some (VStr n)"
  shows "case add_coord (lib_numpy L) c d n of
      Inl e \<Rightarrow> snd (exec (coord_statements L) k) = Some e
    | Inr d' \<Rightarrow> snd (exec (coord_statements L) k) = None \<and>
        fst (exec (coord_statements L) k) ''dst'' = Some (VDataset d') \<and>
        (\<forall>x. x \<noteq> ''dst'' \<and> x \<noteq> ''variable'' \<and> x \<noteq> ''correct_shape_arr'' \<longrightarrow>
           fst (exec (coord_statements L) k) x = k x)"
  using assms
  by (simp add: coord_statements_def assign_variable_def create_variable_def set_attributes_def
      add_coord_def get_defs bind_def var_setncatts_def Let_def split: sum.splits)

lemma coord_loop:
  assumes "k ''coord_file'' = Some (VDataset c)" "k ''dst'' = Some (VDataset d)"
  shows "case add_coords (lib_numpy L) c names d of
      Inl e \<Rightarrow> snd (iterate (exec (coord_statements L)) (map (bind_name ''name'') names) k) = Some e
    | Inr d' \<Rightarrow>
        snd (iterate (exec (coord_statements L)) (map (bind_name ''name'') names) k) = None \<and>
        fst (iterate (exec (coord_statements L)) (map (bind_name ''name'') names) k) ''dst'' =
          Some (VDataset d') \<and>
        (\<forall>x. x \<noteq> ''dst'' \<and> x \<noteq> ''variable'' \<and> x \<noteq> ''correct_shape_arr'' \<and> x \<noteq> ''name'' \<longrightarrow>
           fst (iterate (exec (coord_statements L)) (map (bind_name ''name'') names) k) x = k x)"
  using assms
proof (induction names arbitrary: k d)
  case Nil
  then show ?case by simp
next
  case (Cons n names)
  let ?k1 = "bind_name ''name'' n k"
  let ?r = "exec (coord_statements L) ?k1"
  have body: "case add_coord (lib_numpy L) c d n of
      Inl e \<Rightarrow> snd ?r = Some e
    | Inr d' \<Rightarrow> snd ?r = None \<and> fst ?r ''dst'' = Some (VDataset d') \<and>
        (\<forall>x. x \<noteq> ''dst'' \<and> x \<noteq> ''variable'' \<and> x \<noteq> ''correct_shape_arr'' \<longrightarrow> fst ?r x = ?k1 x)"
    by (rule exec_coord_statements) (simp_all add: bind_name_def Cons.prems)
  show ?case
  proof (cases "add_coord (lib_numpy L) c d n")
    case (Inl e)
    with body have "snd ?r = Some e" by simp
    then show ?thesis using Inl by (cases ?r) (simp add: bind_def)
  next
    case (Inr d1)
    with body have r: "snd ?r = None" "fst ?r ''dst'' = Some (VDataset d1)"
      "fst ?r ''coord_file'' = Some (VDataset c)"
      and frame: "\<forall>x. x \<noteq> ''dst'' \<and> x \<noteq> ''variable'' \<and> x \<noteq> ''correct_shape_arr'' \<and> x \<noteq> ''name'' \<longrightarrow>
        fst ?r x = k x"
      by (simp_all add: bind_name_def Cons.prems)
    from Cons.IH [OF r(3) r(2)] r(1) Inr frame show ?thesis
      by (cases ?r) (simp add: bind_def split: sum.splits)
  qed
qed

lemma exec_cell6:
  assumes root: "k ''root_dir'' = Some (VStr root_dir)" and dst: "k ''dst'' = Some (VDataset d)"
  shows "case cell6 (lib_numpy L) (lib_files L) d of
      Inl e \<Rightarrow> snd (exec (cell6_stmt L) k) = Some e
    | Inr (c, d') \<Rightarrow> snd (exec (cell6_stmt L) k) = None \<and>
        fst (exec (cell6_stmt L) k) ''dst'' = Some (VDataset d') \<and>
        fst (exec (cell6_stmt L) k) ''src'' = k ''src'' \<and>
        fst (exec (cell6_stmt L) k) ''my_vars'' = k ''my_vars''"
proof (cases "Dataset_open (lib_files L) coord_path")
  case (Inl e)
  with root show ?thesis
    by (simp add: cell6_def cell6_stmt_def open_stmt_def get_defs bind_def coord_path_def)
next
  case (Inr c)
  let ?k2 = "k(''coord_file'' \<mapsto> VDataset c, ''coords'' \<mapsto> VStrs coords)"
  let ?it = "iterate (exec (coord_statements L)) (map (bind_name ''name'') coords) ?k2"
  have run: "exec (cell6_stmt L) k = ?it"
    using root Inr
    by (simp add: cell6_stmt_def open_stmt_def for_names_def get_defs bind_def coord_path_def)
  have "case add_coords (lib_numpy L) c coords d of
      Inl e \<Rightarrow> snd ?it = Some e
    | Inr d' \<Rightarrow> snd ?it = None \<and> fst ?it ''dst'' = Some (VDataset d') \<and>
        fst ?it ''src'' = k ''src'' \<and> fst ?it ''my_vars'' = k ''my_vars''"
    using coord_loop [where k = ?k2 and c = c and d = d and L = L and names = coords] dst
    by (simp split: sum.splits)
  then show ?thesis unfolding run using Inr
    by (simp add: cell6_def bind_def split: sum.splits)
qed

lemma exec_cell7:
  assumes "k ''dst'' = Some (VDataset d)"
  shows "case cell7 d of
      Inl e \<Rightarrow> snd (exec cell7_stmt k) = Some e
    | Inr info \<Rightarrow> snd (exec cell7_stmt k) = None \<and>
        fst (exec cell7_stmt k) ''nx'' = Some (VNat (nx info)) \<and>
        fst (exec cell7_stmt k) ''ny'' = Some (VNat (ny info)) \<and>
        fst (exec cell7_stmt k) ''dy'' = Some (VAttr (dy info)) \<and>
        fst (exec cell7_stmt k) ''dst'' = k ''dst'' \<and>
        fst (exec cell7_stmt k) ''src'' = k ''src'' \<and>
        fst (exec cell7_stmt k) ''my_vars'' = k ''my_vars''"
  using assms
  by (simp add: cell7_stmt_def cell7_def assign_size_def assign_attrs2_def assign_attrs3_def
      get_defs bind_def split: sum.splits)

lemma exec_cell8:
  assumes "k ''dst'' = Some (VDataset d)" "k ''nx'' = Some (VNat (nx info))"
    "k ''ny'' = Some (VNat (ny info))" "k ''dy'' = Some (VAttr (dy info))"
  shows "case cell8 (lib_numpy L) (lib_wrf L) info d of
      Inl e \<Rightarrow> snd (exec (cell8_stmt L) k) = Some e
    | Inr d' \<Rightarrow> snd (exec (cell8_stmt L) k) = None \<and>
        fst (exec (cell8_stmt L) k) ''dst'' = Some (VDataset d') \<and>
        fst (exec (cell8_stmt L) k) ''src'' = k ''src'' \<and>
        fst (exec (cell8_stmt L) k) ''my_vars'' = k ''my_vars''"
  using assms
  by (simp add: cell8_stmt_def cell8_def assign_points_def axis_statements_def add_axis_def
      west_east_points_def south_north_points_def get_defs bind_def split: sum.splits)


lemma exec_seq_cons_Some:
  "snd (exec a k) = Some e \<Longrightarrow> snd (exec (seq (a # b # bs)) k) = Some e"
  by (cases "exec a k") simp

lemma exec_seq_cons_None:
  "snd (exec a k) = None \<Longrightarrow> exec (seq (a # b # bs)) k = exec (seq (b # bs)) (fst (exec a k))"
  by (cases "exec a k") simp

lemma exec_cells89:
  assumes "k ''dst'' = Some (VDataset d)" "k ''nx'' = Some (VNat (nx info))"
    "k ''ny'' = Some (VNat (ny info))" "k ''dy'' = Some (VAttr (dy info))"
    "k ''src'' = Some (VDataset s)" "k ''my_vars'' = Some (VStrs my_vars)"
  shows "case bind (cell8 (lib_numpy L) (lib_wrf L) info d) (cell9 (lib_numpy L) s) of
      Inl e \<Rightarrow> snd (exec (seq [cell8_stmt L, cell9_stmt L]) k) = Some e
    | Inr d' \<Rightarrow> snd (exec (seq [cell8_stmt L, cell9_stmt L]) k) = None \<and>
        fst (exec (seq [cell8_stmt L, cell9_stmt L]) k) ''dst'' = Some (VDataset d')"
proof (cases "cell8 (lib_numpy L) (lib_wrf L) info d")
  case (Inl e)
  with exec_cell8 [where k = k and d = d and info = info and L = L, OF assms(1-4)] have "snd (exec (cell8_stmt L) k) = Some e" by simp
  from exec_seq_cons_Some [OF this] Inl show ?thesis by (simp add: bind_def del: exec.simps seq.simps)
next
  case (Inr d8)
  with exec_cell8 [where k = k and d = d and info = info and L = L, OF assms(1-4)] assms(5,6)
  have r: "snd (exec (cell8_stmt L) k) = None"
    "fst (exec (cell8_stmt L) k) ''dst'' = Some (VDataset d8)"
    "fst (exec (cell8_stmt L) k) ''src'' = Some (VDataset s)"
    "fst (exec (cell8_stmt L) k) ''my_vars'' = Some (VStrs my_vars)"
    by simp_all
  from exec_cell9 [where k = "fst (exec (cell8_stmt L) k)" and L = L, OF r(3) r(2) r(4)] show ?thesis
    unfolding exec_seq_cons_None [OF r(1)] using Inr
    by (simp add: bind_def split: sum.splits del: exec.simps)
qed

lemma exec_cells789:
  assumes "k ''dst'' = Some (VDataset d)" "k ''src'' = Some (VDataset s)"
    "k ''my_vars'' = Some (VStrs my_vars)"
  shows "case bind (cell7 d) (\<lambda>info.
           bind (cell8 (lib_numpy L) (lib_wrf L) info d) (cell9 (lib_numpy L) s)) of
      Inl e \<Rightarrow> snd (exec (seq [cell7_stmt, cell8_stmt L, cell9_stmt L]) k) = Some e
    | Inr d' \<Rightarrow> snd (exec (seq [cell7_stmt, cell8_stmt L, cell9_stmt L]) k) = None \<and>
        fst (exec (seq [cell7_stmt, cell8_stmt L, cell9_stmt L]) k) ''dst'' = Some (VDataset d')"
proof (cases "cell7 d")
  case (Inl e)
  with exec_cell7 [where k = k and d = d, OF assms(1)] have "snd (exec cell7_stmt k) = Some e" by simp
  from exec_seq_cons_Some [OF this] Inl show ?thesis by (simp add: bind_def del: exec.simps seq.simps)
next
  case (Inr info)
  with exec_cell7 [where k = k and d = d, OF assms(1)] assms
  have r: "snd (exec cell7_stmt k) = None"
    "fst (exec cell7_stmt k) ''dst'' = Some (VDataset d)"
    "fst (exec cell7_stmt k) ''nx'' = Some (VNat (nx info))"
    "fst (exec cell7_stmt k) ''ny'' = Some (VNat (ny info))"
    "fst (exec cell7_stmt k) ''dy'' = Some (VAttr (dy info))"
    "fst (exec cell7_stmt k) ''src'' = Some (VDataset s)"
    "fst (exec cell7_stmt k) ''my_vars'' = Some (VStrs my_vars)"
    by simp_all
  from exec_cells89 [where k = "fst (exec cell7_stmt k)" and L = L, OF r(2) r(3) r(4) r(5) r(6) r(7)] show ?thesis
    unfolding exec_seq_cons_None [OF r(1)] using Inr by (simp add: bind_def del: exec.simps seq.simps)
qed

lemma exec_cells6789:
  assumes "k ''root_dir'' = Some (VStr root_dir)" "k ''dst'' = Some (VDataset d)"
    "k ''src'' = Some (VDataset s)" "k ''my_vars'' = Some (VStrs my_vars)"
  shows "case bind (cell6 (lib_numpy L) (lib_files L) d) (\<lambda>(coord_file, d).
           bind (cell7 d) (\<lambda>info.
           bind (cell8 (lib_numpy L) (lib_wrf L) info d) (cell9 (lib_numpy L) s))) of
      Inl e \<Rightarrow> snd (exec (seq [cell6_stmt L, cell7_stmt, cell8_stmt L, cell9_stmt L]) k) = Some e
    | Inr d' \<Rightarrow> snd (exec (seq [cell6_stmt L, cell7_stmt, cell8_stmt L, cell9_stmt L]) k) = None \<and>
        fst (exec (seq [cell6_stmt L, cell7_stmt, cell8_stmt L, cell9_stmt L]) k) ''dst'' =
          Some (VDataset d')"
proof (cases "cell6 (lib_numpy L) (lib_files L) d")
  case (Inl e)
  with exec_cell6 [where k = k and d = d and L = L, OF assms(1,2)] have "snd (exec (cell6_stmt L) k) = Some e" by simp
  from exec_seq_cons_Some [OF this] Inl show ?thesis by (simp add: bind_def del: exec.simps seq.simps)
next
  case (Inr p)
  obtain c d6 where p: "p = (c, d6)" by (cases p)
  with Inr exec_cell6 [where k = k and d = d and L = L, OF assms(1,2)] assms
  have r: "snd (exec (cell6_stmt L) k) = None"
    "fst (exec (cell6_stmt L) k) ''dst'' = Some (VDataset d6)"
    "fst (exec (cell6_stmt L) k) ''src'' = Some (VDataset s)"
    "fst (exec (cell6_stmt L) k) ''my_vars'' = Some (VStrs my_vars)"
    by simp_all
  from exec_cells789 [where k = "fst (exec (cell6_stmt L) k)" and L = L, OF r(2) r(3) r(4)] show ?thesis
    unfolding exec_seq_cons_None [OF r(1)] using Inr p
    by (simp add: bind_def del: exec.simps seq.simps)
qed

lemma exec_cells56789:
  assumes "k ''root_dir'' = Some (VStr root_dir)" "k ''dst'' = Some (VDataset d)"
    "k ''src'' = Some (VDataset s)" "k ''my_vars'' = Some (VStrs my_vars)"
  shows "case bind (cell5 (lib_numpy L) s d) (\<lambda>d.
           bind (cell6 (lib_numpy L) (lib_files L) d) (\<lambda>(coord_file, d).
           bind (cell7 d) (\<lambda>info.
           bind (cell8 (lib_numpy L) (lib_wrf L) info d) (cell9 (lib_numpy L) s)))) of
      Inl e \<Rightarrow>
        snd (exec (seq [cell5_stmt L, cell6_stmt L, cell7_stmt, cell8_stmt L, cell9_stmt L]) k) = Some e
    | Inr d' \<Rightarrow>
        snd (exec (seq [cell5_stmt L, cell6_stmt L, cell7_stmt, cell8_stmt L, cell9_stmt L]) k) = None \<and>
        fst (exec (seq [cell5_stmt L, cell6_stmt L, cell7_stmt, cell8_stmt L, cell9_stmt L]) k) ''dst'' =
          Some (VDataset d')"
proof (cases "cell5 (lib_numpy L) s d")
  case (Inl e)
  with exec_cell5 [where k = k and d = d and s = s and L = L, OF assms(3,2)] have "snd (exec (cell5_stmt L) k) = Some e" by simp
  from exec_seq_cons_Some [OF this] Inl show ?thesis by (simp add: bind_def del: exec.simps seq.simps)
next
  case (Inr d5)
  with exec_cell5 [where k = k and d = d and s = s and L = L, OF assms(3,2)] assms
  have r: "snd (exec (cell5_stmt L) k) = None"
    "fst (exec (cell5_stmt L) k) ''root_dir'' = Some (VStr root_dir)"
    "fst (exec (cell5_stmt L) k) ''dst'' = Some (VDataset d5)"
    "fst (exec (cell5_stmt L) k) ''src'' = Some (VDataset s)"
    "fst (exec (cell5_stmt L) k) ''my_vars'' = Some (VStrs my_vars)"
    by simp_all
  from exec_cells6789 [where k = "fst (exec (cell5_stmt L) k)" and L = L, OF r(2) r(3) r(4) r(5)] show ?thesis
    unfolding exec_seq_cons_None [OF r(1)] using Inr
    by (simp add: bind_def del: exec.simps seq.simps)
qed

lemma statements_copy_stage:
  assumes root: "k ''root_dir'' = Some (VStr root_dir)"
    and vars: "k ''my_vars'' = Some (VStrs my_vars)"
    and dst: "k ''dst'' = map_option VDataset old_dst"
  shows "case copy_stage (lib_numpy L) (lib_wrf L) (lib_files L) old_dst of
      Inl e \<Rightarrow> snd (exec (copy_stage_stmt L) k) = Some e
    | Inr d \<Rightarrow> snd (exec (copy_stage_stmt L) k) = None \<and>
        fst (exec (copy_stage_stmt L) k) ''dst'' = Some (VDataset d)"
proof (cases "cell4 (lib_files L) old_dst")
  case (Inl e)
  with exec_cell4 [where k = k and old_dst = old_dst and L = L, OF root dst] have "snd (exec (cell4_stmt L) k) = Some e" by simp
  from exec_seq_cons_Some [OF this] Inl show ?thesis
    by (simp add: copy_stage_def copy_stage_stmt_def bind_def del: exec.simps seq.simps)
next
  case (Inr p)
  obtain s d4 where p: "p = (s, d4)" by (cases p)
  with Inr exec_cell4 [where k = k and old_dst = old_dst and L = L, OF root dst] root vars
  have r: "snd (exec (cell4_stmt L) k) = None"
    "fst (exec (cell4_stmt L) k) ''root_dir'' = Some (VStr root_dir)"
    "fst (exec (cell4_stmt L) k) ''dst'' = Some (VDataset d4)"
    "fst (exec (cell4_stmt L) k) ''src'' = Some (VDataset s)"
    "fst (exec (cell4_stmt L) k) ''my_vars'' = Some (VStrs my_vars)"
    by simp_all
  from exec_cells56789 [where k = "fst (exec (cell4_stmt L) k)" and L = L, OF r(2) r(3) r(4) r(5)] show ?thesis
    unfolding copy_stage_stmt_def exec_seq_cons_None [OF r(1)] using Inr p
    by (simp add: copy_stage_def bind_def del: exec.simps seq.simps)
qed

text \<open>
  The same for the guard of cell 11, for cell 10 and for the attribute fix of cell 14,
  after which the cell ends as \<^verbatim>\<open>to_netcdf\<close> does.
\<close>

lemma exec_cell11:
  assumes "k ''dst'' = map_option VDataset dst"
  shows "case cell11 dst of
      Inl e \<Rightarrow> snd (exec cell11_stmt k) = Some e
    | Inr dst' \<Rightarrow> snd (exec cell11_stmt k) = None \<and>
        fst (exec cell11_stmt k) ''dst'' = map_option VDataset dst'"
  using assms
  by (cases dst)
    (simp_all add: cell11_def cell11_stmt_def guard_stmt_def close_guard_def close_dst_def
      get_defs bind_def nc_close_def)

lemma getvar_loop_statements:
  assumes "k ''dst'' = Some (VDataset d)" "k ''da_list'' = Some (VArrays acc)"
  shows "case getvar_loop (lib_getvar L) d names acc of
      Inl e \<Rightarrow> snd (iterate (exec (append_getvar L)) (map (bind_name ''my_var'') names) k) = Some e
    | Inr das \<Rightarrow>
        snd (iterate (exec (append_getvar L)) (map (bind_name ''my_var'') names) k) = None \<and>
        fst (iterate (exec (append_getvar L)) (map (bind_name ''my_var'') names) k) ''da_list'' =
          Some (VArrays das)"
  using assms
proof (induction names arbitrary: k acc)
  case Nil
  then show ?case by simp
next
  case (Cons n names)
  let ?k1 = "k(''my_var'' \<mapsto> VStr n)"
  have b: "bind_name ''my_var'' n k = ?k1" by (simp add: bind_name_def)
  have e: "exec (append_getvar L) ?k1 =
      (case lib_getvar L d n ALL_TIMES of
         Inl e \<Rightarrow> (?k1, Some e)
       | Inr da \<Rightarrow> (?k1(''da_list'' \<mapsto> VArrays (acc @ [da])), None))"
    using Cons.prems
    by (simp add: append_getvar_def get_defs bind_def split: sum.splits)
  show ?case
  proof (cases "lib_getvar L d n ALL_TIMES")
    case (Inl e')
    with e show ?thesis unfolding list.map iterate.simps b by (simp add: bind_def)
  next
    case (Inr da)
    from Cons.IH [of "?k1(''da_list'' \<mapsto> VArrays (acc @ [da]))" "acc @ [da]"] Cons.prems
    show ?thesis unfolding list.map iterate.simps b using e Inr
      by (simp add: bind_def split: sum.splits)
  qed
qed

lemma exec_cell10:
  assumes "k ''dst'' = Some (VDataset d)" "k ''my_vars'' = Some (VStrs my_vars)"
  shows "case cell10 (lib_getvar L) d of
      Inl e \<Rightarrow> snd (exec (cell10_stmt L) k) = Some e
    | Inr (das, ds) \<Rightarrow> snd (exec (cell10_stmt L) k) = None \<and>
        fst (exec (cell10_stmt L) k) ''da_list'' = Some (VArrays das) \<and>
        fst (exec (cell10_stmt L) k) ''ds'' = Some (VXr ds)"
proof -
  let ?k1 = "k(''da_list'' \<mapsto> VArrays [])"
  let ?loop = "for_names ''my_var'' ''my_vars'' (append_getvar L)"
  let ?it = "iterate (exec (append_getvar L)) (map (bind_name ''my_var'') my_vars) ?k1"
  have first: "exec (SCall (\<lambda>k. Inr (k(''da_list'' \<mapsto> VArrays [])))) k = (?k1, None)"
    by simp
  have loop_run: "exec ?loop ?k1 = ?it"
    using assms(2) by (simp add: for_names_def get_defs bind_def)
  have loop: "case getvar_loop (lib_getvar L) d my_vars [] of
      Inl e \<Rightarrow> snd ?it = Some e
    | Inr das \<Rightarrow> snd ?it = None \<and> fst ?it ''da_list'' = Some (VArrays das)"
    by (rule getvar_loop_statements) (simp_all add: assms)
  show ?thesis
  proof (cases "getvar_loop (lib_getvar L) d my_vars []")
    case (Inl e)
    with loop have "snd (exec ?loop ?k1) = Some e" by (simp add: loop_run)
    then show ?thesis using Inl
      by (cases "exec ?loop ?k1") (simp add: cell10_stmt_def cell10_def bind_def)
  next
    case (Inr das)
    with loop have r: "snd (exec ?loop ?k1) = None"
      "fst (exec ?loop ?k1) ''da_list'' = Some (VArrays das)"
      by (simp_all add: loop_run)
    then show ?thesis using Inr
      by (cases "exec ?loop ?k1")
        (simp add: cell10_stmt_def cell10_def show_stmt_def get_defs bind_def split: sum.splits)
  qed
qed

lemma dict_getitem_setitem: "dict_getitem (dict_setitem d k v) k = Inr v"
  by (simp add: dict_getitem_def dict_setitem_def update_conv')

lemma dict_setitem_setitem: "dict_setitem (dict_setitem d k v) k w = dict_setitem d k w"
  by (simp add: dict_setitem_def)

lemma exec_fix_statements:
  assumes "k ''ds'' = Some (VXr ds)" "k ''my_var'' = Some (VStr n)"
  shows "case fix_var (lib_str L) ds n of
      Inl e \<Rightarrow> snd (exec (fix_statements L) k) = Some e
    | Inr ds' \<Rightarrow> exec (fix_statements L) k = (k(''ds'' \<mapsto> VXr ds'), None)"
  using assms
  by (simp add: fix_statements_def fix_var_def get_defs bind_def Let_def
      dict_getitem_setitem dict_setitem_setitem split: sum.splits prod.splits)

lemma fix_loop:
  assumes "k ''ds'' = Some (VXr ds)"
  shows "case fix_attrs (lib_str L) names ds of
      Inl e \<Rightarrow> snd (iterate (exec (fix_statements L)) (map (bind_name ''my_var'') names) k) = Some e
    | Inr ds' \<Rightarrow>
        snd (iterate (exec (fix_statements L)) (map (bind_name ''my_var'') names) k) = None \<and>
        fst (iterate (exec (fix_statements L)) (map (bind_name ''my_var'') names) k) ''ds'' =
          Some (VXr ds')"
  using assms
proof (induction names arbitrary: k ds)
  case Nil
  then show ?case by simp
next
  case (Cons n names)
  let ?k1 = "k(''my_var'' \<mapsto> VStr n)"
  have b: "bind_name ''my_var'' n k = ?k1" by (simp add: bind_name_def)
  have body: "case fix_var (lib_str L) ds n of
      Inl e \<Rightarrow> snd (exec (fix_statements L) ?k1) = Some e
    | Inr ds' \<Rightarrow> exec (fix_statements L) ?k1 = (?k1(''ds'' \<mapsto> VXr ds'), None)"
    by (rule exec_fix_statements) (simp_all add: Cons.prems)
  show ?case
  proof (cases "fix_var (lib_str L) ds n")
    case (Inl e)
    with body have "snd (exec (fix_statements L) ?k1) = Some e" by simp
    then show ?thesis unfolding list.map iterate.simps b using Inl
      by (cases "exec (fix_statements L) ?k1") (simp add: bind_def)
  next
    case (Inr ds1)
    with body have r: "exec (fix_statements L) ?k1 = (?k1(''ds'' \<mapsto> VXr ds1), None)" by simp
    from Cons.IH [of "?k1(''ds'' \<mapsto> VXr ds1)" ds1] show ?thesis
      unfolding list.map iterate.simps b using r Inr by (simp add: bind_def split: sum.splits)
  qed
qed

lemma exec_cell14:
  assumes "k ''ds'' = Some (VXr ds)" "k ''my_vars'' = Some (VStrs my_vars)"
  shows "case fix_attrs (lib_str L) my_vars ds of
      Inl e \<Rightarrow> snd (exec (cell14_stmt L) k) = Some e
    | Inr ds' \<Rightarrow> snd (exec (cell14_stmt L) k) = lib_to_netcdf L ds' ''test.nc''"
proof -
  let ?loop = "for_names ''my_var'' ''my_vars'' (fix_statements L)"
  let ?it = "iterate (exec (fix_statements L)) (map (bind_name ''my_var'') my_vars) k"
  have loop_run: "exec ?loop k = ?it"
    using assms(2) by (simp add: for_names_def get_defs bind_def)
  have loop: "case fix_attrs (lib_str L) my_vars ds of
      Inl e \<Rightarrow> snd ?it = Some e
    | Inr ds' \<Rightarrow> snd ?it = None \<and> fst ?it ''ds'' = Some (VXr ds')"
    by (rule fix_loop) (rule assms(1))
  show ?thesis
  proof (cases "fix_attrs (lib_str L) my_vars ds")
    case (Inl e)
    with loop have "snd (exec ?loop k) = Some e" by (simp add: loop_run)
    then show ?thesis using Inl
      by (cases "exec ?loop k") (simp add: cell14_stmt_def)
  next
    case (Inr ds')
    with loop have r: "snd (exec ?loop k) = None" "fst (exec ?loop k) ''ds'' = Some (VXr ds')"
      by (simp_all add: loop_run)
    then show ?thesis using Inr
      by (cases "exec ?loop k")
        (simp add: cell14_stmt_def to_netcdf_stmt_def get_defs bind_def split: option.splits)
  qed
qed

section \<open>Files on disk\<close>

lemma files_created_notebook:
  "files_created notebook_io [a, b, c, d, e, f, g, h, i] =
     (if f then [''test.nc''] else []) @ (if g then [''test.nc''] else [])"
  by (simp add: notebook_io_def files_created_def)

text \<open>
  Claim C6. Whichever of the nine file calls of the notebook complete and whichever
  raise, the only file they can leave on disk is \<^verbatim>\<open>test.nc\<close>, and never
  \<^verbatim>\<open>dst_tmp.nc\<close>, the dataset of cell 4 being diskless and not persisted; when the
  write of cell 14 (call number 6, counting from 0) completes, the files written are
  exactly \<^verbatim>\<open>test.nc\<close>.
\<close>

theorem only_test_nc_on_disk:
  "set (files_created notebook_io [a, b, c, d, e, f, g, h, i]) \<subseteq> {''test.nc''} \<and>
   ''dst_tmp.nc'' \<notin> set (files_created notebook_io [a, b, c, d, e, f, g, h, i]) \<and>
   (g \<longrightarrow> set (files_created notebook_io [a, b, c, d, e, f, g, h, i]) = {''test.nc''})"
  unfolding files_created_notebook by (cases f; cases g; simp)

theorem only_test_nc_on_disk_witness:
  "set (files_created notebook_io [True, True, True, True, True, False, True, True, True]) =
     {''test.nc''} \<and>
   ''dst_tmp.nc'' \<notin>
     set (files_created notebook_io [True, True, True, True, True, False, True, True, True])"
  using only_test_nc_on_disk[of True True True True True False True True True] by simp

section \<open>The merged Dataset (cell 10)\<close>

lemma getvar_loop_Inr:
  "getvar_loop getvar dst ns acc = Inr das \<Longrightarrow>
     \<exists>new. das = acc @ new \<and> list_all2 (\<lambda>n da. getvar dst n ALL_TIMES = Inr da) ns new"
proof (induction ns arbitrary: acc)
  case Nil then show ?case by simp
next
  case (Cons n ns)
  from Cons.prems obtain da where da: "getvar dst n ALL_TIMES = Inr da"
    and r: "getvar_loop getvar dst ns (acc @ [da]) = Inr das"
    by (auto simp: bind_Inr_iff)
  from Cons.IH[OF r] obtain new where "das = (acc @ [da]) @ new"
    and "list_all2 (\<lambda>n da. getvar dst n ALL_TIMES = Inr da) ns new" by blast
  with da show ?case by (intro exI[of _ "da # new"]) simp
qed

lemma to_dataset_Inr:
  "to_dataset da = Inr d \<longleftrightarrow>
     (\<exists>n. da_name da = Some n \<and> map_of (da_coords da) n = None \<and>
        d = \<lparr>xr_variables = da_coords da @ [(n, da_variable da)],
             xr_coord_names = map fst (da_coords da)\<rparr>)"
  by (auto simp: to_dataset_def split: option.splits)

lemma to_datasets_Inr:
  "to_datasets das = Inr dss \<Longrightarrow> list_all2 (\<lambda>da d. to_dataset da = Inr d) das dss"
  by (induction das arbitrary: dss) (auto simp: bind_Inr_iff)

lemma merge_variables_keys:
  "merge_variables acc kvs = Inr r \<Longrightarrow> distinct (map fst acc) \<Longrightarrow>
     distinct (map fst r) \<and> set (map fst r) = set (map fst acc) \<union> set (map fst kvs)"
proof (induction acc kvs arbitrary: r rule: merge_variables.induct)
  case (1 acc)
  then show ?case by simp
next
  case (2 acc k v rest)
  show ?case
  proof (cases "map_of acc k")
    case None
    then have k: "k \<notin> set (map fst acc)" by (simp add: map_of_eq_None_iff)
    from "2.prems" None have r: "merge_variables (acc @ [(k, v)]) rest = Inr r" by simp
    from k "2.prems"(2) have "distinct (map fst (acc @ [(k, v)]))" by simp
    from "2.IH"(1)[OF None r this] show ?thesis by auto
  next
    case (Some w)
    then have k: "k \<in> set (map fst acc)" by (metis map_of_eq_None_iff option.distinct(1) set_map)
    from "2.prems" Some have c: "compatible w v" and r: "merge_variables acc rest = Inr r"
      by (auto split: if_splits)
    from "2.IH"(2)[OF Some c r "2.prems"(2)] k show ?thesis by auto
  qed
qed

lemma data_vars_to_dataset:
  "to_dataset da = Inr d \<Longrightarrow> \<exists>n. da_name da = Some n \<and> data_vars d = [n] \<and>
      set (map fst (xr_variables d)) = set (xr_coord_names d) \<union> {n}"
  by (auto simp: to_dataset_Inr data_vars_def map_of_eq_None_iff)

lemma merged_names:
  "list_all2 (\<lambda>n d. data_vars d = [n] \<and>
       set (map fst (xr_variables d)) = set (xr_coord_names d) \<union> {n}) ns dss \<Longrightarrow>
   concat (map data_vars dss) = ns \<and>
   set (concat (map (\<lambda>d. map fst (xr_variables d)) dss)) =
     set (concat (map xr_coord_names dss)) \<union> set ns"
  by (induction ns dss rule: list_all2_induct) auto

lemma cell10_example_runs:
  "case cell10 getvar_example dst_example of Inl _ \<Rightarrow> False | Inr _ \<Rightarrow> True"
  by code_simp

text \<open>
  Claim C7. When cell 10 runs through, \<^verbatim>\<open>da_list\<close> holds, in the order of
  \<open>my_vars\<close>, the results of \<^verbatim>\<open>wrf.getvar(dst, name, timeidx=ALL_TIMES)\<close> for the
  names in \<open>my_vars\<close>; and, \<^verbatim>\<open>wrf.getvar\<close> naming each array after the field
  requested, the data variables of the merged Dataset are the names in \<open>my_vars\<close>, each
  once.
\<close>

theorem merged_has_my_vars:
  assumes run: "cell10 getvar dst = Inr (da_list, ds)"
    and naming: "\<forall>n \<in> set my_vars. \<forall>da. getvar dst n ALL_TIMES = Inr da \<longrightarrow> da_name da = Some n"
  shows "list_all2 (\<lambda>n da. getvar dst n ALL_TIMES = Inr da) my_vars da_list \<and>
         set (data_vars ds) = set my_vars \<and> distinct (data_vars ds) \<and>
         length (data_vars ds) = length my_vars"
proof -
  from run obtain dss vars where loop: "getvar_loop getvar dst my_vars [] = Inr da_list"
    and dss: "to_datasets da_list = Inr dss"
    and vars: "merge_variables [] (concat (map xr_variables dss)) = Inr vars"
    and amb: "\<not> (\<exists>n \<in> set (remdups (concat (map xr_coord_names dss))).
                  n \<in> set (concat (map data_vars dss)))"
    and ds: "ds = \<lparr>xr_variables = vars, xr_coord_names = remdups (concat (map xr_coord_names dss))\<rparr>"
    by (auto simp: cell10_def xr_merge_def bind_Inr_iff Let_def split: if_splits)
  from getvar_loop_Inr[OF loop]
  have req: "list_all2 (\<lambda>n da. getvar dst n ALL_TIMES = Inr da) my_vars da_list" by simp
  with naming have names: "list_all2 (\<lambda>n da. da_name da = Some n) my_vars da_list"
    by (auto simp: list_all2_conv_all_nth set_conv_nth)
  have conv: "list_all2 (\<lambda>da d. to_dataset da = Inr d) da_list dss"
    by (rule to_datasets_Inr[OF dss])
  have each: "list_all2 (\<lambda>n d. data_vars d = [n] \<and>
       set (map fst (xr_variables d)) = set (xr_coord_names d) \<union> {n}) my_vars dss"
  proof -
    have "list_all2 (\<lambda>n d. \<exists>da. da_name da = Some n \<and> to_dataset da = Inr d) my_vars dss"
      using names conv by (fastforce simp: list_all2_conv_all_nth)
    then show ?thesis
    proof (rule list_all2_mono)
      fix n d
      assume "\<exists>da. da_name da = Some n \<and> to_dataset da = Inr d"
      then obtain da where n: "da_name da = Some n" and td: "to_dataset da = Inr d" by blast
      from data_vars_to_dataset[OF td] n
      show "data_vars d = [n] \<and>
          set (map fst (xr_variables d)) = set (xr_coord_names d) \<union> {n}"
        by simp
    qed
  qed
  from merged_names[OF each]
  have nc: "concat (map data_vars dss) = my_vars"
    and keys: "set (concat (map (\<lambda>d. map fst (xr_variables d)) dss)) =
      set (concat (map xr_coord_names dss)) \<union> set my_vars"
    by simp_all
  from merge_variables_keys[OF vars]
  have dv: "distinct (map fst vars)"
    and sv: "set (map fst vars) = set (map fst (concat (map xr_variables dss)))" by simp_all
  have "map fst (concat (map xr_variables dss)) = concat (map (\<lambda>d. map fst (xr_variables d)) dss)"
    by (simp add: map_concat comp_def)
  with sv keys have sv': "set (map fst vars) = set (concat (map xr_coord_names dss)) \<union> set my_vars"
    by simp
  from amb nc have disj: "set (concat (map xr_coord_names dss)) \<inter> set my_vars = {}"
    by auto
  have s: "set (data_vars ds) = set my_vars"
    using sv' disj by (auto simp: data_vars_def ds)
  have d: "distinct (data_vars ds)"
    using dv by (simp add: data_vars_def ds)
  from s d distinct_my_vars have "length (data_vars ds) = length my_vars"
    by (metis distinct_card)
  with req s d show ?thesis by simp
qed

theorem merged_has_my_vars_witness:
  "\<exists>da_list ds. cell10 getvar_example dst_example = Inr (da_list, ds) \<and>
     list_all2 (\<lambda>n da. getvar_example dst_example n ALL_TIMES = Inr da) my_vars da_list \<and>
     set (data_vars ds) = set my_vars \<and> distinct (data_vars ds) \<and>
     length (data_vars ds) = length my_vars"
proof -
  from cell10_example_runs obtain da_list ds
    where run: "cell10 getvar_example dst_example = Inr (da_list, ds)"
    by (cases "cell10 getvar_example dst_example") auto
  have naming: "\<forall>n \<in> set my_vars. \<forall>da.
      getvar_example dst_example n ALL_TIMES = Inr da \<longrightarrow> da_name da = Some n"
    by (auto simp: getvar_example_def split: option.splits)
  from merged_has_my_vars[OF run naming] run show ?thesis by blast
qed

section \<open>Creating and writing variables\<close>


lemma dims_kept_refl: "dims_kept D D"
  by (simp add: dims_kept_def)

lemma dims_kept_trans: "dims_kept D D' \<Longrightarrow> dims_kept D' D'' \<Longrightarrow> dims_kept D D''"
  unfolding dims_kept_def by fastforce

lemma extends_refl: "extends ds ds"
  by (simp add: extends_def dims_kept_refl)

lemma extends_trans: "extends a b \<Longrightarrow> extends b c \<Longrightarrow> extends a c"
  unfolding extends_def using dims_kept_trans by fastforce

lemma dims_kept_update:
  "map_of D d = Some x \<Longrightarrow> dim_unlimited x \<Longrightarrow> dims_kept D (dict_setitem D d (x\<lparr>dim_size := n\<rparr>))"
  by (auto simp: dims_kept_def dict_setitem_def update_conv')

lemma dims_kept_grow: "dims_kept D (grow_dims D names shp)"
proof (induction D names shp rule: grow_dims.induct)
  case (1 dims d ds n ns)
  show ?case
  proof (cases "map_of dims d")
    case None
    with 1 show ?thesis by simp
  next
    case (Some x)
    show ?thesis
    proof (cases "dim_unlimited x \<and> dim_size x < n")
      case True
      with Some have k: "dims_kept dims (dict_setitem dims d (x\<lparr>dim_size := n\<rparr>))"
        by (simp add: dims_kept_update)
      from 1 have "dims_kept (dict_setitem dims d (x\<lparr>dim_size := n\<rparr>))
          (grow_dims (dict_setitem dims d (x\<lparr>dim_size := n\<rparr>)) ds ns)"
        using Some True by simp
      from dims_kept_trans[OF k this] Some True show ?thesis by simp
    next
      case False
      with 1 Some show ?thesis by auto
    qed
  qed
qed (simp_all add: dims_kept_refl)

lemma createVariable_Inr:
  "createVariable ds n t dims = Inr ds' \<longleftrightarrow>
     (map_of (nc_variables ds) n = None \<and> (\<forall>d \<in> set dims. map_of (nc_dimensions ds) d \<noteq> None) \<and>
      ds' = ds\<lparr>nc_variables := nc_variables ds @
                [(n, \<lparr>v_datatype = t, v_dimensions = dims, v_attrs = [], v_data = None\<rparr>)]\<rparr>)"
  by (auto simp: createVariable_def)

lemma nc_setitem_all_Inr:
  "nc_setitem_all lib ds n arr = Inr ds' \<longleftrightarrow>
     (\<exists>v. map_of (nc_variables ds) n = Some v \<and>
        shape_fits (nc_dimensions ds) (v_dimensions v) (arr_shape arr) \<and>
        ds' = ds\<lparr>nc_dimensions := grow_dims (nc_dimensions ds) (v_dimensions v) (arr_shape arr),
                 nc_variables := dict_setitem (nc_variables ds) n
                    (v\<lparr>v_data := Some (map_array (as_datatype lib (v_datatype v)) arr)\<rparr>)\<rparr>)"
  by (auto simp: nc_setitem_all_def bind_Inr_iff dict_getitem_Inr)

lemma var_setncatts_Inr:
  "var_setncatts ds n d = Inr ds' \<longleftrightarrow>
     (\<exists>v. map_of (nc_variables ds) n = Some v \<and>
        ds' = ds\<lparr>nc_variables := dict_setitem (nc_variables ds) n
                    (v\<lparr>v_attrs := setncatts (v_attrs v) d\<rparr>)\<rparr>)"
  by (auto simp: var_setncatts_def bind_Inr_iff dict_getitem_Inr)

lemma map_of_append_fresh:
  "map_of xs n = None \<Longrightarrow> map_of (xs @ [(n, v)]) m = (if m = n then Some v else map_of xs m)"
  by (auto simp: map_add_def split: option.splits)

text \<open>Creating a variable, writing it and setting its attributes, in one step.\<close>

lemma new_variable:
  assumes c: "createVariable ds n t dims = Inr d1"
    and w: "nc_setitem_all lib d1 n arr = Inr d2"
    and a: "var_setncatts d2 n atts = Inr d3"
  shows "extends ds d3"
    and "map_of (nc_variables d3) n =
      Some \<lparr>v_datatype = t, v_dimensions = dims, v_attrs = setncatts [] atts,
            v_data = Some (map_array (as_datatype lib t) arr)\<rparr>"
    and "map_of (nc_variables ds) n = None"
proof -
  from c have fresh: "map_of (nc_variables ds) n = None"
    and d1: "d1 = ds\<lparr>nc_variables := nc_variables ds @
                [(n, \<lparr>v_datatype = t, v_dimensions = dims, v_attrs = [], v_data = None\<rparr>)]\<rparr>"
    by (simp_all add: createVariable_Inr)
  have v1: "map_of (nc_variables d1) n =
      Some \<lparr>v_datatype = t, v_dimensions = dims, v_attrs = [], v_data = None\<rparr>"
    by (simp add: d1 map_of_append_fresh[OF fresh] del: map_of_append)
  from w v1 have d2: "d2 = d1\<lparr>nc_dimensions := grow_dims (nc_dimensions d1) dims (arr_shape arr),
       nc_variables := dict_setitem (nc_variables d1) n
         \<lparr>v_datatype = t, v_dimensions = dims, v_attrs = [],
          v_data = Some (map_array (as_datatype lib t) arr)\<rparr>\<rparr>"
    by (auto simp: nc_setitem_all_Inr)
  have v2: "map_of (nc_variables d2) n =
      Some \<lparr>v_datatype = t, v_dimensions = dims, v_attrs = [],
            v_data = Some (map_array (as_datatype lib t) arr)\<rparr>"
    by (simp add: d2 dict_setitem_def update_conv')
  from a v2 have d3: "d3 = d2\<lparr>nc_variables := dict_setitem (nc_variables d2) n
       \<lparr>v_datatype = t, v_dimensions = dims, v_attrs = setncatts [] atts,
        v_data = Some (map_array (as_datatype lib t) arr)\<rparr>\<rparr>"
    by (auto simp: var_setncatts_Inr)
  show "map_of (nc_variables d3) n =
      Some \<lparr>v_datatype = t, v_dimensions = dims, v_attrs = setncatts [] atts,
            v_data = Some (map_array (as_datatype lib t) arr)\<rparr>"
    by (simp add: d3 dict_setitem_def update_conv')
  show "map_of (nc_variables ds) n = None" by (rule fresh)
  have "\<forall>m v. map_of (nc_variables ds) m = Some v \<longrightarrow> map_of (nc_variables d3) m = Some v"
    using fresh by (auto simp: d3 d2 d1 dict_setitem_def update_conv' map_of_append_fresh
        simp del: map_of_append)
  moreover have "dims_kept (nc_dimensions ds) (nc_dimensions d3)"
    by (simp add: d3 d2 d1 dims_kept_grow)
  moreover have "nc_attrs d3 = nc_attrs ds" by (simp add: d3 d2 d1)
  ultimately show "extends ds d3" by (simp add: extends_def)
qed

section \<open>Copying variables (cells 5 and 9)\<close>


lemma update_fresh: "k \<notin> fst ` set a \<Longrightarrow> AList.update k v a = a @ [(k, v)]"
  by (induction a) auto

lemma setncatts_distinct: "distinct (map fst (a @ d)) \<Longrightarrow> setncatts a d = a @ d"
proof (induction d arbitrary: a)
  case Nil
  then show ?case by (simp add: setncatts_def)
next
  case (Cons kv d)
  obtain k v where kv: "kv = (k, v)" by (cases kv)
  from Cons.prems kv have fresh: "k \<notin> fst ` set a" by auto
  from Cons.prems kv have "distinct (map fst ((a @ [(k, v)]) @ d))" by auto
  from Cons.IH[OF this] have "setncatts (a @ [(k, v)]) d = (a @ [(k, v)]) @ d" .
  then show ?case
    by (simp add: setncatts_def kv dict_setitem_def update_fresh[OF fresh])
qed

lemma setncatts_empty: "distinct (map fst d) \<Longrightarrow> setncatts [] d = d"
  using setncatts_distinct[of "[]" d] by simp

text \<open>What \<open>copy_var\<close> leaves in the destination for the name it copies.\<close>

lemma copy_var_Inr:
  assumes "copy_var lib src dst n = Inr dst'"
  shows "extends dst dst'"
    and "\<exists>v. map_of (nc_variables src) n = Some v \<and>
           map_of (nc_variables dst') n =
             Some \<lparr>v_datatype = v_datatype v, v_dimensions = v_dimensions v,
                   v_attrs = setncatts [] (v_attrs v),
                   v_data = Some (map_array (as_datatype lib (v_datatype v)) (nc_read lib src v))\<rparr>"
proof -
  from assms obtain v d1 d2 where v: "map_of (nc_variables src) n = Some v"
    and c: "createVariable dst n (v_datatype v) (v_dimensions v) = Inr d1"
    and w: "nc_setitem_all lib d1 n (nc_read lib src v) = Inr d2"
    and a: "var_setncatts d2 n (v_attrs v) = Inr dst'"
    unfolding copy_var_def bind_Inr_iff dict_getitem_Inr by blast
  from new_variable(1)[OF c w a] show "extends dst dst'" .
  from new_variable(2)[OF c w a] v
  show "\<exists>v. map_of (nc_variables src) n = Some v \<and>
           map_of (nc_variables dst') n =
             Some \<lparr>v_datatype = v_datatype v, v_dimensions = v_dimensions v,
                   v_attrs = setncatts [] (v_attrs v),
                   v_data = Some (map_array (as_datatype lib (v_datatype v)) (nc_read lib src v))\<rparr>"
    by blast
qed

lemma map_array_id: "list_all (\<lambda>x. f x = x) (arr_flat a) \<Longrightarrow> map_array f a = a"
  by (simp add: map_array_def list_all_iff map_idI)

lemma wf_dataset_variable:
  "wf_dataset lib ds \<Longrightarrow> map_of (nc_variables ds) n = Some v \<Longrightarrow> wf_variable lib v"
  by (auto simp: wf_dataset_def list_all_iff dest!: map_of_SomeD)

lemma copy_var_same:
  assumes run: "copy_var lib src dst n = Inr dst'" and wf: "wf_dataset lib src"
  shows "same_variable src dst' n"
proof -
  from copy_var_Inr(2)[OF run] obtain v where v: "map_of (nc_variables src) n = Some v"
    and v': "map_of (nc_variables dst') n =
             Some \<lparr>v_datatype = v_datatype v, v_dimensions = v_dimensions v,
                   v_attrs = setncatts [] (v_attrs v),
                   v_data = Some (map_array (as_datatype lib (v_datatype v)) (nc_read lib src v))\<rparr>"
    by blast
  from wf_dataset_variable[OF wf v] obtain a where d: "distinct (map fst (v_attrs v))"
    and a: "v_data v = Some a"
    and t: "list_all (\<lambda>x. as_datatype lib (v_datatype v) x = x) (arr_flat a)"
    by (auto simp: wf_variable_def split: option.splits)
  from a have r: "nc_read lib src v = a" by (simp add: nc_read_def)
  show ?thesis
    unfolding same_variable_def
    using v v' by (simp add: r a map_array_id[OF t] setncatts_empty[OF d])
qed

lemma same_variable_extends:
  "same_variable src dst n \<Longrightarrow> extends dst dst' \<Longrightarrow> same_variable src dst' n"
  unfolding same_variable_def extends_def by blast

lemma copy_vars_Inr:
  "copy_vars lib src ns dst = Inr dst' \<Longrightarrow> wf_dataset lib src \<Longrightarrow>
     extends dst dst' \<and> (\<forall>n \<in> set ns. same_variable src dst' n)"
proof (induction ns arbitrary: dst)
  case Nil
  then show ?case by (simp add: extends_refl)
next
  case (Cons n ns)
  from Cons.prems(1) obtain d1 where s: "copy_var lib src dst n = Inr d1"
    and r: "copy_vars lib src ns d1 = Inr dst'"
    by (auto simp: bind_Inr_iff)
  from Cons.IH[OF r Cons.prems(2)] have e: "extends d1 dst'"
    and rest: "\<forall>m \<in> set ns. same_variable src dst' m" by simp_all
  from same_variable_extends[OF copy_var_same[OF s Cons.prems(2)] e]
  have "same_variable src dst' n" .
  with rest extends_trans[OF copy_var_Inr(1)[OF s] e] show ?case by simp
qed

section \<open>Global attributes and dimensions (cell 4)\<close>


lemma copy_dimensions_Inr:
  "copy_dimensions ds dst = Inr dst' \<Longrightarrow>
     dst' = dst\<lparr>nc_dimensions := nc_dimensions dst @
               map (\<lambda>(n, d). (n, new_dimension (dim_arg d))) ds\<rparr> \<and>
     distinct (map fst ds) \<and>
     (\<forall>m \<in> set (map fst ds). map_of (nc_dimensions dst) m = None)"
proof (induction ds arbitrary: dst)
  case Nil
  then show ?case by simp
next
  case (Cons nd ds)
  obtain n d where nd: "nd = (n, d)" by (cases nd)
  from Cons.prems nd obtain d1 where c: "createDimension dst n (dim_arg d) = Inr d1"
    and r: "copy_dimensions ds d1 = Inr dst'"
    by (auto simp: bind_Inr_iff)
  from c have fresh: "map_of (nc_dimensions dst) n = None"
    and d1: "d1 = dst\<lparr>nc_dimensions := nc_dimensions dst @ [(n, new_dimension (dim_arg d))]\<rparr>"
    by (auto simp: createDimension_def split: if_splits)
  from Cons.IH[OF r] have dst': "dst' = d1\<lparr>nc_dimensions := nc_dimensions d1 @
        map (\<lambda>(n, d). (n, new_dimension (dim_arg d))) ds\<rparr>"
    and dis: "distinct (map fst ds)"
    and fr: "\<forall>m \<in> set (map fst ds). map_of (nc_dimensions d1) m = None" by simp_all
  have d1n: "map_of (nc_dimensions d1) m =
      (if m = n then Some (new_dimension (dim_arg d)) else map_of (nc_dimensions dst) m)" for m
    by (simp add: d1 map_of_append_fresh[OF fresh] del: map_of_append)
  from fr have notin: "n \<notin> set (map fst ds)"
    and fr': "\<forall>m \<in> set (map fst ds). map_of (nc_dimensions dst) m = None"
    by (auto simp: d1n split: if_splits)
  from notin dis dst' d1 nd fresh fr' show ?case by simp
qed

lemma new_dimension_dim_arg:
  "wf_dimension d \<Longrightarrow>
     dim_unlimited (new_dimension (dim_arg d)) = dim_unlimited d \<and>
     (\<not> dim_unlimited d \<longrightarrow> dim_size (new_dimension (dim_arg d)) = dim_size d)"
  by (auto simp: new_dimension_def dim_arg_def wf_dimension_def)

lemma cell4_Inr:
  assumes run: "cell4 fs old_dst = Inr (src', dst)" and src_file: "fs src_path = Some src"
    and wf: "wf_dataset lib src"
  shows "src' = src\<lparr>nc_isopen := True\<rparr>"
    and "nc_attrs dst = nc_attrs src"
    and "\<forall>(n, d) \<in> set (nc_dimensions src). \<exists>y. map_of (nc_dimensions dst) n = Some y \<and>
           dim_unlimited y = dim_unlimited d \<and> (\<not> dim_unlimited d \<longrightarrow> dim_size y = dim_size d)"
proof -
  from run src_file have s: "src' = src\<lparr>nc_isopen := True\<rparr>"
    and cd: "copy_dimensions (nc_dimensions src)
       (Dataset_create\<lparr>nc_attrs := setncatts [] (nc_attrs src)\<rparr>) = Inr dst"
    by (auto simp: cell4_def bind_Inr_iff Dataset_open_def Let_def Dataset_create_def)
  show "src' = src\<lparr>nc_isopen := True\<rparr>" by (rule s)
  from copy_dimensions_Inr[OF cd]
  have dst: "dst = Dataset_create\<lparr>nc_attrs := setncatts [] (nc_attrs src),
        nc_dimensions := map (\<lambda>(n, d). (n, new_dimension (dim_arg d))) (nc_dimensions src)\<rparr>"
    and dis: "distinct (map fst (nc_dimensions src))"
    by (simp_all add: Dataset_create_def)
  from wf have "distinct (map fst (nc_attrs src))" by (simp add: wf_dataset_def)
  then show "nc_attrs dst = nc_attrs src" by (simp add: dst setncatts_empty)
  show "\<forall>(n, d) \<in> set (nc_dimensions src). \<exists>y. map_of (nc_dimensions dst) n = Some y \<and>
           dim_unlimited y = dim_unlimited d \<and> (\<not> dim_unlimited d \<longrightarrow> dim_size y = dim_size d)"
  proof (clarify)
    fix n d assume nd: "(n, d) \<in> set (nc_dimensions src)"
    with dis have m: "map_of (nc_dimensions src) n = Some d" by simp
    from wf nd have "wf_dimension d" by (auto simp: wf_dataset_def list_all_iff)
    from new_dimension_dim_arg[OF this] m
    show "\<exists>y. map_of (nc_dimensions dst) n = Some y \<and>
           dim_unlimited y = dim_unlimited d \<and> (\<not> dim_unlimited d \<longrightarrow> dim_size y = dim_size d)"
      by (simp add: dst map_of_map)
  qed
qed

section \<open>Broadcasting and slices\<close>


lemma concat_chunks: "m * k \<le> length xs \<Longrightarrow> concat (chunks k m xs) = take (m * k) xs"
proof (induction m)
  case 0
  then show ?case by (simp add: chunks_def)
next
  case (Suc m)
  then have "m * k \<le> length xs" by simp
  from Suc.IH[OF this] have ih: "concat (chunks k m xs) = take (m * k) xs" .
  have "concat (chunks k (Suc m) xs) = concat (chunks k m xs) @ take k (drop (m * k) xs)"
    by (simp add: chunks_def)
  also have "\<dots> = take (m * k + k) xs" by (simp add: ih take_add)
  finally show ?case by (simp add: add.commute)
qed

lemma chunk_length:
  assumes "m * k \<le> length xs" and "c \<in> set (chunks k m xs)"
  shows "length c = k"
proof -
  from assms(2) obtain i where i: "i < m" and c: "c = take k (drop (i * k) xs)"
    by (auto simp: chunks_def)
  from i have "Suc i * k \<le> m * k" by (intro mult_le_mono1) simp
  with assms(1) have "i * k + k \<le> length xs" by simp
  then show ?thesis by (simp add: c)
qed

lemma bcast_flat_same: "length xs = prod_list ns \<Longrightarrow> bcast_flat ns ns xs = xs"
proof (induction ns arbitrary: xs)
  case Nil
  then show ?case by simp
next
  case (Cons n ns)
  then have len: "n * prod_list ns \<le> length xs" by simp
  have "map (bcast_flat ns ns) (chunks (prod_list ns) n xs) = chunks (prod_list ns) n xs"
    by (rule map_idI) (simp add: Cons.IH chunk_length[OF len])
  then have "bcast_flat (n # ns) (n # ns) xs = concat (chunks (prod_list ns) n xs)" by simp
  also have "\<dots> = take (n * prod_list ns) xs" by (rule concat_chunks[OF len])
  finally show ?case using Cons.prems by simp
qed

lemma bcast_flat_first:
  assumes "length xs = prod_list ns"
  shows "bcast_flat (n # ns) (1 # ns) xs = concat (replicate n xs)"
proof (cases "1 = n")
  case True
  have "chunks (prod_list ns) 1 xs = [xs]" using assms by (simp add: chunks_def)
  with True[symmetric] show ?thesis by (simp add: bcast_flat_same[OF assms])
next
  case False
  then show ?thesis by (simp add: bcast_flat_same[OF assms])
qed

text \<open>
  An axis of extent 1 is repeated: a value of shape \<open>(1, 3)\<close> assigned to an array of
  shape \<open>(2, 2, 3)\<close> fills each of the four rows.
\<close>

lemma broadcast_repeats_unit_axis:
  "setitem_all3 lib_int (np_zeros lib_int [2, 2, 3]) \<lparr>arr_shape = [1, 3], arr_flat = [7, 8, 9]\<rparr> =
     Inr \<lparr>arr_shape = [2, 2, 3], arr_flat = [7, 8, 9, 7, 8, 9, 7, 8, 9, 7, 8, 9]\<rparr>"
  by code_simp

lemma block_of_replicate:
  "t < n \<Longrightarrow> length xs = k \<Longrightarrow> take k (drop (t * k) (concat (replicate n xs))) = xs"
proof (induction n arbitrary: t)
  case 0
  then show ?case by simp
next
  case (Suc n)
  show ?case
  proof (cases t)
    case 0
    with Suc.prems show ?thesis by simp
  next
    case (Suc t')
    with Suc.prems have "t' < n" by simp
    from Suc.IH[OF this Suc.prems(2)] Suc Suc.prems(2) show ?thesis by simp
  qed
qed

lemma concat_same_length:
  "\<forall>c \<in> set cs. length c = k \<Longrightarrow> length (concat cs) = length cs * k"
  by (induction cs) auto

lemma chunks_subset: "c \<in> set (chunks k m xs) \<Longrightarrow> set c \<subseteq> set xs"
  by (auto simp: chunks_def dest: in_set_takeD in_set_dropD)

lemma bcast_flat_length:
  "list_all2 (\<lambda>n m. m = n \<or> m = 1) ns ms \<Longrightarrow> length xs = prod_list ms \<Longrightarrow>
     length (bcast_flat ns ms xs) = prod_list ns"
proof (induction ns ms arbitrary: xs rule: list_all2_induct)
  case Nil
  then show ?case by simp
next
  case (Cons n ns m ms)
  show ?case
  proof (cases "m = n")
    case True
    from Cons.prems True have len: "n * prod_list ms \<le> length xs" by simp
    have "\<forall>c \<in> set (map (bcast_flat ns ms) (chunks (prod_list ms) n xs)). length c = prod_list ns"
      using Cons.IH chunk_length[OF len] by auto
    from concat_same_length[OF this] True show ?thesis by (simp add: chunks_def)
  next
    case False
    with Cons.hyps(1) have m: "m = 1" by simp
    with Cons.prems have "length xs = prod_list ms" by simp
    from Cons.IH[OF this] have "length (bcast_flat ns ms xs) = prod_list ns" .
    then have "length (concat (replicate n (bcast_flat ns ms xs))) = n * prod_list ns"
      using concat_same_length[of "replicate n (bcast_flat ns ms xs)" "prod_list ns"] by simp
    with False show ?thesis by simp
  qed
qed

lemma bcast_flat_subset: "set (bcast_flat ns ms xs) \<subseteq> set xs"
proof (induction ns ms xs rule: bcast_flat.induct)
  case (1 n ns m ms xs)
  show ?case
  proof (cases "m = n")
    case True
    with 1(1) have "\<And>c. c \<in> set (chunks (prod_list ms) m xs) \<Longrightarrow> set (bcast_flat ns ms c) \<subseteq> set c"
      by simp
    with chunks_subset[of _ "prod_list ms" m xs] True show ?thesis by fastforce
  next
    case False
    with 1(2) show ?thesis by auto
  qed
qed simp_all

lemma bcast_flat_unit_first:
  assumes "length xs = prod_list ms"
  shows "bcast_flat (n # ns) (1 # ms) xs = concat (replicate n (bcast_flat ns ms xs))"
proof (cases "1 = n")
  case True
  have "chunks (prod_list ms) 1 xs = [xs]" using assms by (simp add: chunks_def)
  with True[symmetric] show ?thesis by simp
next
  case False
  then show ?thesis by simp
qed

section \<open>The coordinate arrays (cell 6)\<close>


lemma index_first_Inr:
  "index_first a i = Inr b \<longleftrightarrow>
     (\<exists>n rest. arr_shape a = n # rest \<and> i < n \<and>
        b = \<lparr>arr_shape = rest,
             arr_flat = take (prod_list rest) (drop (i * prod_list rest) (arr_flat a))\<rparr>)"
  by (auto simp: index_first_def split: list.splits)

lemma setitem_all3_Inr:
  "setitem_all3 lib a val = Inr b \<longleftrightarrow>
     (3 \<le> length (arr_shape a) \<and> broadcastable (arr_shape a) (arr_shape val) \<and>
      b = \<lparr>arr_shape = arr_shape a,
           arr_flat = map (as_float64 lib)
             (bcast_flat (arr_shape a) (pad_shape (arr_shape a) (arr_shape val)) (arr_flat val))\<rparr>)"
  by (auto simp: setitem_all3_def np_broadcast_to_def bind_def map_array_def)

lemma coordinate_slices:
  assumes slice: "getitem_i_all_all c 0 = Inr s"
    and wfc: "wf_array c"
    and rank: "length (arr_shape z) = length (arr_shape c)"
    and stage: "setitem_all3 lib z s = Inr arr"
    and lossless: "list_all (\<lambda>x. as_datatype lib t (as_float64 lib x) = x) (arr_flat s)"
  shows "\<exists>b. np_broadcast_to (tl (arr_shape arr)) s = Inr b \<and>
           (\<forall>i < hd (arr_shape arr).
              getitem_i_all_all (map_array (as_datatype lib t) arr) i = Inr b) \<and>
           (tl (arr_shape arr) = arr_shape s \<longrightarrow> b = s)"
proof -
  from slice obtain n0 rest where cs: "arr_shape c = n0 # rest" and n0: "0 < n0"
    and s0: "s = \<lparr>arr_shape = rest, arr_flat = take (prod_list rest) (arr_flat c)\<rparr>"
    by (auto simp: getitem_i_all_all_def index_first_Inr split: if_splits)
  from wfc cs have "length (arr_flat c) = n0 * prod_list rest" by (simp add: wf_array_def)
  with n0 have "prod_list rest \<le> length (arr_flat c)" by (cases n0) simp_all
  then have len: "length (arr_flat s) = prod_list rest" by (simp add: s0)
  have shp0: "arr_shape s = rest" by (simp add: s0)
  from stage have rk3: "3 \<le> length (arr_shape z)"
    and bc: "broadcastable (arr_shape z) rest"
    and arr: "arr = \<lparr>arr_shape = arr_shape z,
           arr_flat = map (as_float64 lib)
             (bcast_flat (arr_shape z) (pad_shape (arr_shape z) rest) (arr_flat s))\<rparr>"
    by (simp_all add: setitem_all3_Inr shp0)
  from rk3 obtain n ns where zs: "arr_shape z = n # ns" by (cases "arr_shape z") auto
  from rank zs cs have lens: "length ns = length rest" by simp
  have pad: "pad_shape (n # ns) rest = 1 # rest" by (simp add: pad_shape_def lens)
  have pad': "pad_shape ns rest = rest" by (simp add: pad_shape_def lens)
  from bc have compat: "list_all2 (\<lambda>n m. m = n \<or> m = 1) ns rest"
    by (simp add: broadcastable_def zs pad)
  let ?ys = "bcast_flat ns rest (arr_flat s)"
  have leny: "length ?ys = prod_list ns" by (rule bcast_flat_length[OF compat len])
  have suby: "set ?ys \<subseteq> set (arr_flat s)" by (rule bcast_flat_subset)
  let ?b = "\<lparr>arr_shape = ns, arr_flat = ?ys\<rparr>"
  have b: "np_broadcast_to ns s = Inr ?b"
    using compat lens by (simp add: np_broadcast_to_def broadcastable_def shp0 pad')
  have bcf: "bcast_flat (n # ns) (pad_shape (n # ns) rest) (arr_flat s) = concat (replicate n ?ys)"
    unfolding pad by (rule bcast_flat_unit_first[OF len])
  have flat: "arr_flat arr = map (as_float64 lib) (concat (replicate n ?ys))"
    by (simp add: arr zs bcf del: bcast_flat.simps)
  have conv: "map (as_datatype lib t) (map (as_float64 lib) ?ys) = ?ys"
    using lossless suby by (auto simp: list_all_iff intro!: map_idI)
  have "map (as_datatype lib t) (arr_flat arr) =
      concat (replicate n (map (as_datatype lib t) (map (as_float64 lib) ?ys)))"
    by (simp add: flat map_concat map_replicate del: bcast_flat.simps)
  then have flat': "map (as_datatype lib t) (arr_flat arr) = concat (replicate n ?ys)"
    by (simp only: conv)
  have shp: "arr_shape arr = n # ns" by (simp add: arr zs)
  from rk3 have rk3': "3 \<le> length (n # ns)" by (simp add: zs)
  have slices: "\<forall>i < hd (arr_shape arr).
      getitem_i_all_all (map_array (as_datatype lib t) arr) i = Inr ?b"
  proof (intro allI impI)
    fix i assume "i < hd (arr_shape arr)"
    then have i: "i < n" by (simp add: shp)
    have "take (prod_list ns) (drop (i * prod_list ns) (concat (replicate n ?ys))) = ?ys"
      by (rule block_of_replicate[OF i leny])
    with rk3' i show "getitem_i_all_all (map_array (as_datatype lib t) arr) i = Inr ?b"
      by (simp add: getitem_i_all_all_def index_first_def map_array_def flat' shp
          del: bcast_flat.simps)
  qed
  have same: "tl (arr_shape arr) = arr_shape s \<longrightarrow> ?b = s"
  proof
    assume "tl (arr_shape arr) = arr_shape s"
    then have "ns = rest" by (simp add: shp shp0)
    with bcast_flat_same[OF len] show "?b = s" by (simp add: s0)
  qed
  from b slices same show ?thesis by (simp add: shp del: bcast_flat.simps)
qed

text \<open>What \<open>add_coord\<close> leaves in the destination for the name it adds.\<close>

lemma add_coord_Inr:
  assumes "add_coord lib coord_file dst n = Inr dst'"
  shows "extends dst dst'" and "staged_coordinate lib coord_file dst' n"
proof -
  from assms obtain v d1 dv slice0 arr d2 where v: "map_of (nc_variables coord_file) n = Some v"
    and c: "createVariable dst n (v_datatype v) (v_dimensions v) = Inr d1"
    and dv: "map_of (nc_variables d1) n = Some dv"
    and s: "getitem_i_all_all (nc_read lib coord_file v) 0 = Inr slice0"
    and b: "setitem_all3 lib (np_zeros lib (nc_shape d1 dv)) slice0 = Inr arr"
    and w: "nc_setitem_all lib d1 n arr = Inr d2"
    and a: "var_setncatts d2 n (v_attrs v) = Inr dst'"
    unfolding add_coord_def bind_Inr_iff dict_getitem_Inr Let_def by blast
  from new_variable(1)[OF c w a] show "extends dst dst'" .
  from c have fresh: "map_of (nc_variables dst) n = None"
    and d1: "d1 = dst\<lparr>nc_variables := nc_variables dst @
        [(n, \<lparr>v_datatype = v_datatype v, v_dimensions = v_dimensions v,
              v_attrs = [], v_data = None\<rparr>)]\<rparr>"
    by (simp_all add: createVariable_Inr)
  from dv have "v_dimensions dv = v_dimensions v"
    by (auto simp: d1 map_of_append_fresh[OF fresh] simp del: map_of_append)
  then have rank: "length (arr_shape (np_zeros lib (nc_shape d1 dv))) = length (v_dimensions v)"
    by (simp add: np_zeros_def np_full_def nc_shape_def)
  from new_variable(2)[OF c w a] v s b rank
  show "staged_coordinate lib coord_file dst' n"
    unfolding staged_coordinate_def by blast
qed

lemma staged_coordinate_extends:
  "staged_coordinate lib cf dst n \<Longrightarrow> extends dst dst' \<Longrightarrow> staged_coordinate lib cf dst' n"
  unfolding staged_coordinate_def extends_def by blast

lemma add_coords_Inr:
  "add_coords lib cf ns dst = Inr dst' \<Longrightarrow>
     extends dst dst' \<and> (\<forall>n \<in> set ns. staged_coordinate lib cf dst' n)"
proof (induction ns arbitrary: dst)
  case Nil
  then show ?case by (simp add: extends_refl)
next
  case (Cons n ns)
  from Cons.prems obtain d1 where s: "add_coord lib cf dst n = Inr d1"
    and r: "add_coords lib cf ns d1 = Inr dst'"
    by (auto simp: bind_Inr_iff)
  from Cons.IH[OF r] have e: "extends d1 dst'"
    and rest: "\<forall>m \<in> set ns. staged_coordinate lib cf dst' m" by simp_all
  from add_coord_Inr(2)[OF s] have "staged_coordinate lib cf d1 n" .
  from staged_coordinate_extends[OF this e] rest extends_trans[OF add_coord_Inr(1)[OF s] e]
  show ?case by simp
qed

lemma cell6_Inr:
  assumes "cell6 lib fs dst = Inr (cf, dst')" and "fs coord_path = Some coord_file"
  shows "cf = coord_file\<lparr>nc_isopen := True\<rparr>" and "extends dst dst'"
    and "\<forall>n \<in> set coords. staged_coordinate lib cf dst' n"
  using assms add_coords_Inr[of lib cf coords dst dst']
  by (auto simp: cell6_def bind_Inr_iff Dataset_open_def)

lemma add_axis_extends: "add_axis lib dst n points axis = Inr dst' \<Longrightarrow> extends dst dst'"
  unfolding add_axis_def bind_Inr_iff using new_variable(1) by blast

lemma cell8_extends: "cell8 lib tp info dst = Inr dst' \<Longrightarrow> extends dst dst'"
  unfolding cell8_def bind_Inr_iff using add_axis_extends extends_trans by blast

lemma copy_stage_Inr:
  assumes "copy_stage lib tp fs old_dst = Inr dst"
  shows "\<exists>src d4 d5 cf d6 info d8.
           cell4 fs old_dst = Inr (src, d4) \<and> cell5 lib src d4 = Inr d5 \<and>
           cell6 lib fs d5 = Inr (cf, d6) \<and> cell7 d6 = Inr info \<and>
           cell8 lib tp info d6 = Inr d8 \<and> cell9 lib src d8 = Inr dst"
  using assms by (auto simp: copy_stage_def bind_Inr_iff split: prod.splits)

section \<open>The copy stage as a whole (cells 4 to 9)\<close>


lemma copy_stage_example: "copy_stage lib_int wrf_example fs_example None = Inr dst_example"
  by code_simp

lemma src_file_example: "fs_example src_path = Some src_example"
  by (simp add: fs_example_def)

lemma coord_file_example: "fs_example coord_path = Some coord_example"
  by code_simp

lemma wf_src_example: "wf_dataset lib_int src_example"
  by code_simp

text \<open>
  Claim C3. When the copy stage (cells 4 to 9) runs through on a well-formed source
  file, the destination has the global attributes of the source; for every dimension
  of the source a dimension of that name, unlimited if the source's is and otherwise of
  the same length; and for \<^verbatim>\<open>Times\<close> and every name in \<open>my_vars\<close> a variable with
  the datatype, the dimension tuple, the data and the attributes of the source's.
\<close>

theorem copy_stage_faithful:
  assumes run: "copy_stage lib tp fs old_dst = Inr dst"
    and src_file: "fs src_path = Some src"
    and wf: "wf_dataset lib src"
  shows "nc_attrs dst = nc_attrs src \<and>
     (\<forall>(n, d) \<in> set (nc_dimensions src).
        \<exists>d'. map_of (nc_dimensions dst) n = Some d' \<and> dim_unlimited d' = dim_unlimited d \<and>
             (\<not> dim_unlimited d \<longrightarrow> dim_size d' = dim_size d)) \<and>
     (\<forall>n \<in> set (''Times'' # my_vars).
        \<exists>v v'. map_of (nc_variables src) n = Some v \<and> map_of (nc_variables dst) n = Some v' \<and>
           v_datatype v' = v_datatype v \<and> v_dimensions v' = v_dimensions v \<and>
           v_data v' = v_data v \<and> v_attrs v' = v_attrs v)"
proof -
  from copy_stage_Inr[OF run] obtain src' d4 d5 cf d6 info d8
    where c4: "cell4 fs old_dst = Inr (src', d4)" and c5: "cell5 lib src' d4 = Inr d5"
      and c6: "cell6 lib fs d5 = Inr (cf, d6)" and c7: "cell7 d6 = Inr info"
      and c8: "cell8 lib tp info d6 = Inr d8" and c9: "cell9 lib src' d8 = Inr dst"
    by blast
  from cell4_Inr[OF c4 src_file wf] have src': "src' = src\<lparr>nc_isopen := True\<rparr>"
    and attrs4: "nc_attrs d4 = nc_attrs src"
    and dims4: "\<forall>(n, d) \<in> set (nc_dimensions src). \<exists>y. map_of (nc_dimensions d4) n = Some y \<and>
           dim_unlimited y = dim_unlimited d \<and> (\<not> dim_unlimited d \<longrightarrow> dim_size y = dim_size d)"
    by simp_all
  from wf have wf': "wf_dataset lib src'" by (simp add: src' wf_dataset_def)
  have vars': "nc_variables src' = nc_variables src" by (simp add: src')
  from c5 have e45: "extends d4 d5" and t5: "same_variable src' d5 ''Times''"
    using copy_var_Inr(1) copy_var_same[OF _ wf'] by (auto simp: cell5_def)
  from c6 have e56: "extends d5 d6"
    using add_coords_Inr by (fastforce simp: cell6_def bind_Inr_iff)
  from cell8_extends[OF c8] have e68: "extends d6 d8" .
  from copy_vars_Inr[OF c9[unfolded cell9_def] wf'] have e89: "extends d8 dst"
    and mv: "\<forall>n \<in> set my_vars. same_variable src' dst n" by simp_all
  have e5: "extends d5 dst" using e56 e68 e89 extends_trans by blast
  with e45 have e4: "extends d4 dst" using extends_trans by blast
  from same_variable_extends[OF t5 e5] mv
  have vs: "\<forall>n \<in> set (''Times'' # my_vars). same_variable src' dst n" by simp
  have "nc_attrs dst = nc_attrs src" using e4 attrs4 by (simp add: extends_def)
  moreover have "\<forall>(n, d) \<in> set (nc_dimensions src).
        \<exists>d'. map_of (nc_dimensions dst) n = Some d' \<and> dim_unlimited d' = dim_unlimited d \<and>
             (\<not> dim_unlimited d \<longrightarrow> dim_size d' = dim_size d)"
  proof (clarify)
    fix n d assume "(n, d) \<in> set (nc_dimensions src)"
    with dims4 obtain y where y: "map_of (nc_dimensions d4) n = Some y"
      and u: "dim_unlimited y = dim_unlimited d"
      and s: "\<not> dim_unlimited d \<longrightarrow> dim_size y = dim_size d" by blast
    from e4 y obtain d' where "map_of (nc_dimensions dst) n = Some d'"
      and "dim_unlimited d' = dim_unlimited y"
      and "\<not> dim_unlimited y \<longrightarrow> dim_size d' = dim_size y"
      unfolding extends_def dims_kept_def by blast
    with u s show "\<exists>d'. map_of (nc_dimensions dst) n = Some d' \<and>
        dim_unlimited d' = dim_unlimited d \<and> (\<not> dim_unlimited d \<longrightarrow> dim_size d' = dim_size d)"
      by simp
  qed
  moreover have "\<forall>n \<in> set (''Times'' # my_vars).
        \<exists>v v'. map_of (nc_variables src) n = Some v \<and> map_of (nc_variables dst) n = Some v' \<and>
           v_datatype v' = v_datatype v \<and> v_dimensions v' = v_dimensions v \<and>
           v_data v' = v_data v \<and> v_attrs v' = v_attrs v"
    using vs unfolding same_variable_def vars' .
  ultimately show ?thesis by blast
qed

theorem copy_stage_faithful_witness:
  "nc_attrs dst_example = nc_attrs src_example \<and>
   (\<exists>d'. map_of (nc_dimensions dst_example) ''Time'' = Some d' \<and> dim_unlimited d') \<and>
   (\<exists>d'. map_of (nc_dimensions dst_example) ''west_east'' = Some d' \<and>
      \<not> dim_unlimited d' \<and> dim_size d' = 3) \<and>
   (\<exists>v v'. map_of (nc_variables src_example) ''U10MEAN'' = Some v \<and>
      map_of (nc_variables dst_example) ''U10MEAN'' = Some v' \<and>
      v_datatype v' = v_datatype v \<and> v_dimensions v' = v_dimensions v \<and>
      v_data v' = v_data v \<and> v_attrs v' = v_attrs v) \<and>
   (\<exists>v v'. map_of (nc_variables src_example) ''Times'' = Some v \<and>
      map_of (nc_variables dst_example) ''Times'' = Some v' \<and>
      v_datatype v' = v_datatype v \<and> v_dimensions v' = v_dimensions v \<and>
      v_data v' = v_data v \<and> v_attrs v' = v_attrs v)"
proof -
  note th = copy_stage_faithful[OF copy_stage_example src_file_example wf_src_example]
  have t: "(''Time'', \<lparr>dim_size = 2, dim_unlimited = True\<rparr>) \<in> set (nc_dimensions src_example)"
    and w: "(''west_east'', \<lparr>dim_size = 3, dim_unlimited = False\<rparr>) \<in> set (nc_dimensions src_example)"
    by (simp_all add: src_example_def src_dims_def)
  have u: "''U10MEAN'' \<in> set (''Times'' # my_vars)" and ti: "''Times'' \<in> set (''Times'' # my_vars)"
    by (simp_all add: my_vars_def)
  from th have a: "nc_attrs dst_example = nc_attrs src_example" by blast
  from th t have b: "\<exists>d'. map_of (nc_dimensions dst_example) ''Time'' = Some d' \<and> dim_unlimited d'"
    by fastforce
  from th w have c: "\<exists>d'. map_of (nc_dimensions dst_example) ''west_east'' = Some d' \<and>
      \<not> dim_unlimited d' \<and> dim_size d' = 3"
    by fastforce
  from th u have d: "\<exists>v v'. map_of (nc_variables src_example) ''U10MEAN'' = Some v \<and>
      map_of (nc_variables dst_example) ''U10MEAN'' = Some v' \<and>
      v_datatype v' = v_datatype v \<and> v_dimensions v' = v_dimensions v \<and>
      v_data v' = v_data v \<and> v_attrs v' = v_attrs v"
    by blast
  from th ti have e: "\<exists>v v'. map_of (nc_variables src_example) ''Times'' = Some v \<and>
      map_of (nc_variables dst_example) ''Times'' = Some v' \<and>
      v_datatype v' = v_datatype v \<and> v_dimensions v' = v_dimensions v \<and>
      v_data v' = v_data v \<and> v_attrs v' = v_attrs v"
    by blast
  from a b c d e show ?thesis by blast
qed

lemma copy_vars_extends: "copy_vars lib src ns dst = Inr dst' \<Longrightarrow> extends dst dst'"
proof (induction ns arbitrary: dst)
  case Nil
  then show ?case by (simp add: extends_refl)
next
  case (Cons n ns)
  from Cons.prems obtain d1 where s: "copy_var lib src dst n = Inr d1"
    and r: "copy_vars lib src ns d1 = Inr dst'"
    by (auto simp: bind_Inr_iff)
  from extends_trans[OF copy_var_Inr(1)[OF s] Cons.IH[OF r]] show ?case .
qed

lemma copy_stage_unit_row:
  "bind (copy_stage lib_int wrf_example fs_unit_row None) (\<lambda>dst. nc_slice lib_int dst ''XLAT'' 0) =
     Inr \<lparr>arr_shape = [2, 3], arr_flat = [-78, -78, -78, -78, -78, -78]\<rparr>"
  by code_simp

text \<open>
  Claim C9, as stated: at every time index the destination's \<^verbatim>\<open>XLAT[t,:,:]\<close> equals
  the coordinate file's \<^verbatim>\<open>XLAT[0,:,:]\<close>. With a coordinate file whose
  \<^verbatim>\<open>south_north\<close> dimension has length 1 and a source file where it has length 2, the
  copy stage runs through and the assignment to \<^verbatim>\<open>correct_shape_arr[:,:,:]\<close> repeats
  the one row: the destination's slice has shape \<open>(2, 3)\<close>, the file's \<open>(1, 3)\<close>.
\<close>

theorem coordinates_equal_slice_counterexample:
  "bind (copy_stage lib_int wrf_example fs_unit_row None) (\<lambda>dst. nc_slice lib_int dst ''XLAT'' 0) =
     Inr \<lparr>arr_shape = [2, 3], arr_flat = [-78, -78, -78, -78, -78, -78]\<rparr> \<and>
   nc_slice lib_int coord_unit_row ''XLAT'' 0 =
     Inr \<lparr>arr_shape = [1, 3], arr_flat = [-78, -78, -78]\<rparr> \<and>
   bind (copy_stage lib_int wrf_example fs_unit_row None) (\<lambda>dst. nc_slice lib_int dst ''XLAT'' 0) \<noteq>
     nc_slice lib_int coord_unit_row ''XLAT'' 0"
proof -
  have c: "nc_slice lib_int coord_unit_row ''XLAT'' 0 =
      Inr \<lparr>arr_shape = [1, 3], arr_flat = [-78, -78, -78]\<rparr>"
    by code_simp
  show ?thesis unfolding copy_stage_unit_row c by simp
qed

text \<open>
  Claim C9, amended. When the copy stage runs through, the destination's \<^verbatim>\<open>XLAT\<close>
  and \<^verbatim>\<open>XLONG\<close> are constant along the time dimension: every time slice
  \<open>a[t,:,:]\<close> is the one array \<open>b\<close>, the time-0 slice \<open>c[0,:,:]\<close> of the coordinate
  file's variable broadcast to the destination's grid (an axis of length 1 repeated); and
  \<open>b\<close> is that slice itself when the destination array is on the coordinate file's grid.
  This for a well-formed coordinate array (as many elements as its shape says, one axis
  per dimension of the variable) whose values pass unchanged through the float64
  staging array.
\<close>

theorem coordinates_constant_in_time:
  assumes run: "copy_stage lib wrf fs old_dst = Inr dst"
    and coord_file: "fs coord_path = Some coord_file"
    and name: "name \<in> set coords"
    and v: "map_of (nc_variables coord_file) name = Some v"
    and c: "v_data v = Some c"
    and wfc: "wf_array c"
    and rank: "length (arr_shape c) = length (v_dimensions v)"
    and lossless: "list_all (\<lambda>x. as_datatype lib (v_datatype v) (as_float64 lib x) = x) (arr_flat c)"
  shows "\<exists>v' a s b. map_of (nc_variables dst) name = Some v' \<and> v_data v' = Some a \<and>
           getitem_i_all_all c 0 = Inr s \<and>
           np_broadcast_to (tl (arr_shape a)) s = Inr b \<and>
           (\<forall>t < hd (arr_shape a). getitem_i_all_all a t = Inr b) \<and>
           (\<forall>t < hd (arr_shape a). \<forall>t' < hd (arr_shape a).
              getitem_i_all_all a t = getitem_i_all_all a t') \<and>
           (tl (arr_shape a) = tl (arr_shape c) \<longrightarrow> b = s)"
proof -
  from copy_stage_Inr[OF run] obtain src' d4 d5 cf d6 info d8
    where c6: "cell6 lib fs d5 = Inr (cf, d6)"
      and c8: "cell8 lib wrf info d6 = Inr d8" and c9: "cell9 lib src' d8 = Inr dst"
    by blast
  from cell6_Inr[OF c6 coord_file] name have cf: "cf = coord_file\<lparr>nc_isopen := True\<rparr>"
    and st6: "staged_coordinate lib cf d6 name" by simp_all
  have "extends d8 dst"
    using c9 unfolding cell9_def by (rule copy_vars_extends)
  with cell8_extends[OF c8] have "extends d6 dst" using extends_trans by blast
  from staged_coordinate_extends[OF st6 this] have "staged_coordinate lib cf dst name" .
  then obtain s z arr where sl: "getitem_i_all_all (nc_read lib cf v) 0 = Inr s"
    and rz: "length (arr_shape z) = length (v_dimensions v)"
    and stage: "setitem_all3 lib z s = Inr arr"
    and dv: "map_of (nc_variables dst) name =
          Some \<lparr>v_datatype = v_datatype v, v_dimensions = v_dimensions v,
                v_attrs = setncatts [] (v_attrs v),
                v_data = Some (map_array (as_datatype lib (v_datatype v)) arr)\<rparr>"
    using v unfolding staged_coordinate_def by (auto simp: cf)
  from c have rd: "nc_read lib cf v = c" by (simp add: nc_read_def)
  with sl have sl': "getitem_i_all_all c 0 = Inr s" by simp
  then have shape_s: "arr_shape s = tl (arr_shape c)"
    and flat_s: "set (arr_flat s) \<subseteq> set (arr_flat c)"
    by (auto simp: getitem_i_all_all_def index_first_Inr split: if_splits dest: in_set_takeD)
  from lossless flat_s
  have ls: "list_all (\<lambda>x. as_datatype lib (v_datatype v) (as_float64 lib x) = x) (arr_flat s)"
    by (auto simp: list_all_iff)
  from rz rank have rk: "length (arr_shape z) = length (arr_shape c)" by simp
  let ?a = "map_array (as_datatype lib (v_datatype v)) arr"
  have sa: "arr_shape ?a = arr_shape arr" by (simp add: map_array_def)
  from coordinate_slices[OF sl' wfc rk stage ls]
  obtain b where b: "np_broadcast_to (tl (arr_shape arr)) s = Inr b"
    and sl_b: "\<forall>i < hd (arr_shape arr). getitem_i_all_all ?a i = Inr b"
    and same: "tl (arr_shape arr) = arr_shape s \<longrightarrow> b = s"
    by blast
  have "map_of (nc_variables dst) name =
      Some \<lparr>v_datatype = v_datatype v, v_dimensions = v_dimensions v,
            v_attrs = setncatts [] (v_attrs v), v_data = Some ?a\<rparr> \<and>
    v_data \<lparr>v_datatype = v_datatype v, v_dimensions = v_dimensions v,
            v_attrs = setncatts [] (v_attrs v), v_data = Some ?a\<rparr> = Some ?a \<and>
    getitem_i_all_all c 0 = Inr s \<and>
    np_broadcast_to (tl (arr_shape ?a)) s = Inr b \<and>
    (\<forall>t < hd (arr_shape ?a). getitem_i_all_all ?a t = Inr b) \<and>
    (\<forall>t < hd (arr_shape ?a). \<forall>t' < hd (arr_shape ?a).
        getitem_i_all_all ?a t = getitem_i_all_all ?a t') \<and>
    (tl (arr_shape ?a) = tl (arr_shape c) \<longrightarrow> b = s)"
    using dv sl' b sl_b same by (simp add: sa shape_s)
  then show ?thesis by blast
qed

theorem coordinates_constant_in_time_witness:
  "\<exists>v' a s. map_of (nc_variables dst_example) ''XLAT'' = Some v' \<and> v_data v' = Some a \<and>
     getitem_i_all_all \<lparr>arr_shape = [1, 2, 3], arr_flat = xlat0\<rparr> 0 = Inr s \<and>
     arr_shape a = [2, 2, 3] \<and>
     getitem_i_all_all a 0 = Inr s \<and> getitem_i_all_all a 1 = Inr s"
proof -
  let ?c = "\<lparr>arr_shape = [1, 2, 3], arr_flat = xlat0\<rparr> :: int ndarray"
  have n: "''XLAT'' \<in> set coords" by (simp add: coords_def)
  have v: "map_of (nc_variables coord_example) ''XLAT'' = Some (coord_var ''degree_north'' 1 xlat0)"
    by (simp add: coord_example_def)
  have c: "v_data (coord_var ''degree_north'' 1 xlat0) = Some ?c"
    by (simp add: coord_var_def)
  have w: "wf_array ?c" by (simp add: wf_array_def xlat0_def)
  have r: "length (arr_shape ?c) = length (v_dimensions (coord_var ''degree_north'' 1 xlat0))"
    by (simp add: coord_var_def grid_dims_def)
  have l: "list_all (\<lambda>x. as_datatype lib_int (v_datatype (coord_var ''degree_north'' 1 xlat0))
      (as_float64 lib_int x) = x) (arr_flat ?c)"
    by (simp add: lib_int_def list_all_iff)
  from coordinates_constant_in_time[OF copy_stage_example coord_file_example n v c w r l]
  obtain v' a s b where 1: "map_of (nc_variables dst_example) ''XLAT'' = Some v'"
    and 2: "v_data v' = Some a" and 3: "getitem_i_all_all ?c 0 = Inr s"
    and 4: "\<forall>t < hd (arr_shape a). getitem_i_all_all a t = Inr b"
    and 5: "tl (arr_shape a) = tl (arr_shape ?c) \<longrightarrow> b = s"
    by blast
  from 1 2 have a: "a = \<lparr>arr_shape = [2, 2, 3], arr_flat = xlat0 @ xlat0\<rparr>"
    by (auto simp: dst_example_def dst8_example_def dst6_example_def coord_var_def)
  from 5 a have "b = s" by simp
  with 4 a have "getitem_i_all_all a 0 = Inr s" "getitem_i_all_all a 1 = Inr s"
    by simp_all
  with 1 2 3 a show ?thesis by simp
qed

end
